(* ===== verification/Prelude.thy ===== *)
theory Prelude
  imports Main "HOL-Library.Word" "HOL-Library.Char_ord" "HOL-Library.List_Lexorder"
    "HOL-Library.Product_Lexorder"
begin

text \<open>
  Shared vocabulary of the development: the Rust types every component uses, the part of the
  Rust standard library on strings and integers that the components call, and the generic
  lemmas their proofs share.

  A Rust string is modelled by its UTF-8 bytes, so \<open>length\<close> is \<open>str::len\<close> and list order is
  \<open>str\<close>'s byte order. A \<open>Result\<close> is a sum whose left summand is the error. A machine integer
  whose range matters is a word; a count of values held in memory is a natural number.
\<close>

named_theorems invs "operations preserve the invariant of their component"
named_theorems frame "what an operation leaves unchanged"

type_synonym u64 = "64 word"
type_synonym u32 = "32 word"

section \<open>Results\<close>

text \<open>Rust's question mark: an error returns at once, a value continues.\<close>

fun and_then :: "'e + 'a \<Rightarrow> ('a \<Rightarrow> 'e + 'b) \<Rightarrow> 'e + 'b" where
  "and_then (Inl e) f = Inl e"
| "and_then (Inr x) f = f x"

lemma and_then_Inr_iff: "and_then r f = Inr y \<longleftrightarrow> (\<exists>x. r = Inr x \<and> f x = Inr y)"
  by (cases r) auto

lemma and_then_Inl_iff:
  "and_then r f = Inl e \<longleftrightarrow> r = Inl e \<or> (\<exists>x. r = Inr x \<and> f x = Inl e)"
  by (cases r) auto

fun map_err :: "('e \<Rightarrow> 'f) \<Rightarrow> 'e + 'a \<Rightarrow> 'f + 'a" where
  "map_err f (Inl e) = Inl (f e)"
| "map_err f (Inr x) = Inr x"

lemma map_err_Inr_iff [simp]: "map_err f r = Inr x \<longleftrightarrow> r = Inr x"
  by (cases r) auto

fun ok_or :: "'e \<Rightarrow> 'a option \<Rightarrow> 'e + 'a" where
  "ok_or e None = Inl e"
| "ok_or e (Some x) = Inr x"

lemma ok_or_Inr_iff [simp]: "ok_or e r = Inr x \<longleftrightarrow> r = Some x"
  by (cases r) auto

lemma ok_or_Inl_iff [simp]: "ok_or e r = Inl f \<longleftrightarrow> r = None \<and> f = e"
  by (cases r) auto

section \<open>Machine integers\<close>

text \<open>\<open>u64::saturating_add\<close>: the sum, or \<open>u64::MAX\<close> when it does not fit.\<close>

definition saturating_add :: "u64 \<Rightarrow> u64 \<Rightarrow> u64" where
  "saturating_add a b = (if unat a + unat b < 2 ^ 64 then a + b else - 1)"

lemma unat_max_u64: "unat (- 1 :: u64) = 2 ^ 64 - 1"
  by (simp add: unsigned_minus_1_eq_mask mask_eq_exp_minus_1)

lemma unat_saturating_add: "unat (saturating_add a b) = min (unat a + unat b) (2 ^ 64 - 1)"
proof (cases "unat a + unat b < 2 ^ 64")
  case True
  then have "unat (a + b) = unat a + unat b"
    by (simp add: unat_word_ariths)
  with True show ?thesis by (simp add: saturating_add_def)
next
  case False
  then show ?thesis by (simp add: saturating_add_def unat_max_u64)
qed

lemma saturating_add_mono: "unat a \<le> unat (saturating_add a b)"
proof -
  have "unat a < 2 ^ 64" using unsigned_less [of a] by simp
  then show ?thesis by (simp add: unat_saturating_add)
qed

section \<open>Bytes\<close>

abbreviation byte :: "char \<Rightarrow> nat" where
  "byte c \<equiv> of_char c"

definition is_ascii_digit :: "char \<Rightarrow> bool" where
  "is_ascii_digit c \<longleftrightarrow> 48 \<le> byte c \<and> byte c \<le> 57"

definition is_ascii_lowercase :: "char \<Rightarrow> bool" where
  "is_ascii_lowercase c \<longleftrightarrow> 97 \<le> byte c \<and> byte c \<le> 122"

definition is_ascii_uppercase :: "char \<Rightarrow> bool" where
  "is_ascii_uppercase c \<longleftrightarrow> 65 \<le> byte c \<and> byte c \<le> 90"

definition is_ascii_alphanumeric :: "char \<Rightarrow> bool" where
  "is_ascii_alphanumeric c \<longleftrightarrow> is_ascii_digit c \<or> is_ascii_lowercase c \<or> is_ascii_uppercase c"

text \<open>Printable ASCII, \<open>0x21..=0x7E\<close>.\<close>

definition is_visible_ascii :: "char \<Rightarrow> bool" where
  "is_visible_ascii c \<longleftrightarrow> 33 \<le> byte c \<and> byte c \<le> 126"

definition to_ascii_lower :: "char \<Rightarrow> char" where
  "to_ascii_lower c = (if is_ascii_uppercase c then char_of (byte c + 32) else c)"

definition to_ascii_upper :: "char \<Rightarrow> char" where
  "to_ascii_upper c = (if is_ascii_lowercase c then char_of (byte c - 32) else c)"

definition to_ascii_lowercase :: "string \<Rightarrow> string" where
  "to_ascii_lowercase s = map to_ascii_lower s"

definition to_ascii_uppercase :: "string \<Rightarrow> string" where
  "to_ascii_uppercase s = map to_ascii_upper s"

definition eq_ignore_ascii_case :: "string \<Rightarrow> string \<Rightarrow> bool" where
  "eq_ignore_ascii_case s t \<longleftrightarrow> to_ascii_lowercase s = to_ascii_lowercase t"

lemma length_to_ascii_lowercase [simp]: "length (to_ascii_lowercase s) = length s"
  by (simp add: to_ascii_lowercase_def)

text \<open>
  \<open>str::is_char_boundary\<close>: the start, the end, or the first byte of a code point (a UTF-8
  continuation byte is \<open>0x80..=0xBF\<close>).
\<close>

definition is_continuation :: "char \<Rightarrow> bool" where
  "is_continuation c \<longleftrightarrow> 128 \<le> byte c \<and> byte c < 192"

definition is_char_boundary :: "string \<Rightarrow> nat \<Rightarrow> bool" where
  "is_char_boundary s i \<longleftrightarrow>
     i = 0 \<or> i = length s \<or> (i < length s \<and> \<not> is_continuation (s ! i))"

text \<open>The loop \<open>while !s.is_char_boundary(end) { end -= 1 }\<close>.\<close>

fun floor_boundary :: "string \<Rightarrow> nat \<Rightarrow> nat" where
  "floor_boundary s 0 = 0"
| "floor_boundary s (Suc i) = (if is_char_boundary s (Suc i) then Suc i else floor_boundary s i)"

lemma floor_boundary_le: "floor_boundary s i \<le> i"
  by (induction s i rule: floor_boundary.induct) auto

lemma floor_boundary_ok: "is_char_boundary s (floor_boundary s i)"
  by (induction s i rule: floor_boundary.induct) (auto simp: is_char_boundary_def)

text \<open>\<open>s.chars().take(n).collect()\<close>: the bytes of the first \<open>n\<close> code points.\<close>

fun take_chars :: "nat \<Rightarrow> string \<Rightarrow> string" where
  "take_chars n [] = []"
| "take_chars n (c # cs) =
     (if is_continuation c then c # take_chars n cs
      else case n of 0 \<Rightarrow> [] | Suc m \<Rightarrow> c # take_chars m cs)"

fun count_chars :: "string \<Rightarrow> nat" where
  "count_chars [] = 0"
| "count_chars (c # cs) = (if is_continuation c then 0 else 1) + count_chars cs"

lemma count_take_chars: "count_chars (take_chars n s) \<le> n"
  by (induction n s rule: take_chars.induct) (auto split: nat.splits)

lemma take_chars_id: "count_chars s \<le> n \<Longrightarrow> take_chars n s = s"
  by (induction n s rule: take_chars.induct) (auto split: nat.splits if_splits)

section \<open>Searching and splitting strings\<close>

definition starts_with :: "string \<Rightarrow> string \<Rightarrow> bool" where
  "starts_with p s \<longleftrightarrow> take (length p) s = p"

definition ends_with :: "string \<Rightarrow> string \<Rightarrow> bool" where
  "ends_with p s \<longleftrightarrow> length p \<le> length s \<and> drop (length s - length p) s = p"

definition strip_prefix :: "string \<Rightarrow> string \<Rightarrow> string option" where
  "strip_prefix p s = (if starts_with p s then Some (drop (length p) s) else None)"

definition strip_suffix :: "string \<Rightarrow> string \<Rightarrow> string option" where
  "strip_suffix p s = (if ends_with p s then Some (take (length s - length p) s) else None)"

lemma starts_with_append [simp]: "starts_with p (p @ s)"
  by (simp add: starts_with_def)

lemma starts_with_iff: "starts_with p s \<longleftrightarrow> (\<exists>t. s = p @ t)"
  by (metis append_eq_conv_conj append_take_drop_id starts_with_def)

lemma ends_with_iff: "ends_with p s \<longleftrightarrow> (\<exists>t. s = t @ p)"
proof
  assume "ends_with p s"
  then show "\<exists>t. s = t @ p"
    by (metis append_take_drop_id ends_with_def)
next
  assume "\<exists>t. s = t @ p"
  then show "ends_with p s" by (auto simp: ends_with_def)
qed

lemma strip_prefix_append [simp]: "strip_prefix p (p @ s) = Some s"
  by (simp add: strip_prefix_def)

lemma strip_suffix_append [simp]: "strip_suffix p (s @ p) = Some s"
  by (auto simp: strip_suffix_def ends_with_iff)

lemma strip_prefix_Some_iff: "strip_prefix p s = Some t \<longleftrightarrow> s = p @ t"
  by (auto simp: strip_prefix_def starts_with_iff)

fun contains_sub :: "string \<Rightarrow> string \<Rightarrow> bool" where
  "contains_sub p [] = (p = [])"
| "contains_sub p (c # cs) = (starts_with p (c # cs) \<or> contains_sub p cs)"

text \<open>\<open>str::split_once\<close>: around the first occurrence of the separator.\<close>

fun split_once :: "string \<Rightarrow> string \<Rightarrow> (string \<times> string) option" where
  "split_once p [] = (if p = [] then Some ([], []) else None)"
| "split_once p (c # cs) =
     (if starts_with p (c # cs) then Some ([], drop (length p) (c # cs))
      else map_option (\<lambda>(a, b). (c # a, b)) (split_once p cs))"

lemma split_once_Some: "split_once p s = Some (a, b) \<Longrightarrow> s = a @ p @ b"
proof (induction p s arbitrary: a rule: split_once.induct)
  case (1 p)
  then show ?case by (auto split: if_splits)
next
  case (2 p c cs)
  then show ?case
    by (auto simp: starts_with_iff split: if_splits)
qed

fun split_char :: "char \<Rightarrow> string \<Rightarrow> string list" where
  "split_char d [] = [[]]"
| "split_char d (c # cs) =
     (if c = d then [] # split_char d cs
      else case split_char d cs of [] \<Rightarrow> [[c]] | seg # segs \<Rightarrow> (c # seg) # segs)"

lemma split_char_nonempty [simp]: "split_char d s \<noteq> []"
  by (induction d s rule: split_char.induct) (auto split: list.splits)

lemma set_split_char: "seg \<in> set (split_char d s) \<Longrightarrow> d \<notin> set seg"
  by (induction d s arbitrary: seg rule: split_char.induct) (auto split: if_splits list.splits)

text \<open>\<open>str::replace\<close> for a non-empty pattern: left to right, without overlaps.\<close>

fun replace_all :: "string \<Rightarrow> string \<Rightarrow> string \<Rightarrow> string" where
  "replace_all p r [] = []"
| "replace_all p r (c # cs) =
     (if p \<noteq> [] \<and> starts_with p (c # cs) then r @ replace_all p r (drop (length p - 1) cs)
      else c # replace_all p r cs)"

section \<open>Trimming\<close>

text \<open>
  \<open>str::trim\<close> removes Unicode white space. These are the UTF-8 encodings of every code point
  with the property White_Space.
\<close>

definition bytes_of :: "nat list \<Rightarrow> string" where
  "bytes_of ns = map char_of ns"

definition ws_encodings :: "string list" where
  "ws_encodings = map bytes_of
     ([[9], [10], [11], [12], [13], [32], [194, 133], [194, 160], [225, 154, 128]]
      @ map (\<lambda>k. [226, 128, k]) ([128 ..< 139] @ [168, 169, 175])
      @ [[226, 129, 159], [227, 128, 128]])"

definition ws_prefix_len :: "string \<Rightarrow> nat" where
  "ws_prefix_len s =
     (case find (\<lambda>w. starts_with w s) ws_encodings of None \<Rightarrow> 0 | Some w \<Rightarrow> length w)"

fun trim_start_fuel :: "nat \<Rightarrow> string \<Rightarrow> string" where
  "trim_start_fuel 0 s = s"
| "trim_start_fuel (Suc k) s =
     (let n = ws_prefix_len s in if n = 0 then s else trim_start_fuel k (drop n s))"

definition trim_start :: "string \<Rightarrow> string" where
  "trim_start s = trim_start_fuel (length s) s"

definition ws_suffix_len :: "string \<Rightarrow> nat" where
  "ws_suffix_len s =
     (case find (\<lambda>w. ends_with w s) ws_encodings of None \<Rightarrow> 0 | Some w \<Rightarrow> length w)"

fun trim_end_fuel :: "nat \<Rightarrow> string \<Rightarrow> string" where
  "trim_end_fuel 0 s = s"
| "trim_end_fuel (Suc k) s =
     (let n = ws_suffix_len s in if n = 0 then s else trim_end_fuel k (take (length s - n) s))"

definition trim_end :: "string \<Rightarrow> string" where
  "trim_end s = trim_end_fuel (length s) s"

definition trim :: "string \<Rightarrow> string" where
  "trim s = trim_end (trim_start s)"

definition is_blank :: "string \<Rightarrow> bool" where
  "is_blank s \<longleftrightarrow> trim s = []"

text \<open>A string whose first and last bytes are visible ASCII is its own trimming.\<close>

lemma ws_encodings_explicit: "ws_encodings = map bytes_of
   [[9], [10], [11], [12], [13], [32], [194, 133], [194, 160], [225, 154, 128],
    [226, 128, 128], [226, 128, 129], [226, 128, 130], [226, 128, 131], [226, 128, 132],
    [226, 128, 133], [226, 128, 134], [226, 128, 135], [226, 128, 136], [226, 128, 137],
    [226, 128, 138], [226, 128, 168], [226, 128, 169], [226, 128, 175],
    [226, 129, 159], [227, 128, 128]]"
  by (simp add: ws_encodings_def upt_conv_Cons)

lemma ws_encodings_bytes:
  assumes "w \<in> set ws_encodings"
  shows "w \<noteq> [] \<and> \<not> is_visible_ascii (hd w) \<and> \<not> is_visible_ascii (last w)"
  using assms
  by (auto simp: ws_encodings_explicit bytes_of_def is_visible_ascii_def)

lemma ws_prefix_len_visible: "is_visible_ascii c \<Longrightarrow> ws_prefix_len (c # cs) = 0"
proof -
  assume c: "is_visible_ascii c"
  have "\<not> starts_with w (c # cs)" if "w \<in> set ws_encodings" for w
    using ws_encodings_bytes [OF that] c by (cases w) (auto simp: starts_with_def)
  then have "find (\<lambda>w. starts_with w (c # cs)) ws_encodings = None"
    by (simp add: find_None_iff)
  then show ?thesis by (simp add: ws_prefix_len_def)
qed

lemma ws_suffix_len_visible: "is_visible_ascii c \<Longrightarrow> ws_suffix_len (cs @ [c]) = 0"
proof -
  assume c: "is_visible_ascii c"
  have "\<not> ends_with w (cs @ [c])" if "w \<in> set ws_encodings" for w
  proof
    assume "ends_with w (cs @ [c])"
    then obtain t where "cs @ [c] = t @ w" by (auto simp: ends_with_iff)
    then have "last w = c" using ws_encodings_bytes [OF that] by (metis last_appendR last_snoc)
    then show False using ws_encodings_bytes [OF that] c by simp
  qed
  then have "find (\<lambda>w. ends_with w (cs @ [c])) ws_encodings = None"
    by (simp add: find_None_iff)
  then show ?thesis by (simp add: ws_suffix_len_def)
qed

lemma trim_start_visible: "is_visible_ascii c \<Longrightarrow> trim_start (c # cs) = c # cs"
  by (simp add: trim_start_def ws_prefix_len_visible)

lemma trim_end_visible: "is_visible_ascii c \<Longrightarrow> trim_end (cs @ [c]) = cs @ [c]"
  by (simp add: trim_end_def ws_suffix_len_visible)

lemma trim_visible:
  assumes "is_visible_ascii a" and "is_visible_ascii b"
  shows "trim (a # s @ [b]) = a # s @ [b]"
  using assms trim_end_visible [of b "a # s"] by (simp add: trim_def trim_start_visible)

section \<open>Decimal numbers\<close>

text \<open>\<open>Display\<close> for an unsigned integer, and \<open>str::parse::<u64>\<close>.\<close>

definition digit_char :: "nat \<Rightarrow> char" where
  "digit_char d = char_of (48 + d)"

fun show_nat :: "nat \<Rightarrow> string" where
  "show_nat n = (if n < 10 then [digit_char n] else show_nat (n div 10) @ [digit_char (n mod 10)])"

declare show_nat.simps [simp del]

definition digit_val :: "char \<Rightarrow> nat" where
  "digit_val c = byte c - 48"

definition dec_value :: "string \<Rightarrow> nat" where
  "dec_value s = foldl (\<lambda>n c. 10 * n + digit_val c) 0 s"

text \<open>One optional plus sign, at least one digit, and a value that fits.\<close>

definition parse_u64 :: "string \<Rightarrow> u64 option" where
  "parse_u64 s =
     (let ds = (case s of c # cs \<Rightarrow> if c = CHR ''+'' then cs else s | [] \<Rightarrow> s)
      in if ds \<noteq> [] \<and> list_all is_ascii_digit ds \<and> dec_value ds < 2 ^ 64
         then Some (of_nat (dec_value ds)) else None)"

lemma byte_digit_char: "d < 10 \<Longrightarrow> byte (digit_char d) = 48 + d"
  by (simp add: digit_char_def)

lemma is_ascii_digit_digit_char: "d < 10 \<Longrightarrow> is_ascii_digit (digit_char d)"
  by (simp add: is_ascii_digit_def byte_digit_char)

lemma digit_val_digit_char: "d < 10 \<Longrightarrow> digit_val (digit_char d) = d"
  by (simp add: digit_val_def byte_digit_char)

lemma show_nat_digits: "list_all is_ascii_digit (show_nat n)"
proof (induction n rule: show_nat.induct)
  case (1 n)
  then show ?case
    by (subst show_nat.simps) (auto simp: is_ascii_digit_digit_char)
qed

lemma show_nat_nonempty [simp]: "show_nat n \<noteq> []"
  by (subst show_nat.simps) simp

lemma dec_value_show_nat: "dec_value (show_nat n) = n"
proof (induction n rule: show_nat.induct)
  case (1 n)
  show ?case
  proof (cases "n < 10")
    case True
    then show ?thesis
      by (subst show_nat.simps) (simp add: dec_value_def digit_val_digit_char)
  next
    case False
    with 1 have "dec_value (show_nat (n div 10)) = n div 10" by simp
    with False show ?thesis
      by (subst show_nat.simps) (simp add: dec_value_def digit_val_digit_char)
  qed
qed

lemma is_ascii_digit_visible: "is_ascii_digit c \<Longrightarrow> is_visible_ascii c"
  by (simp add: is_ascii_digit_def is_visible_ascii_def)

lemma not_digit_plus: "\<not> is_ascii_digit (CHR ''+'')"
  by (simp add: is_ascii_digit_def)

lemma parse_u64_show: "parse_u64 (show_nat (unat (w :: u64))) = Some w"
proof -
  obtain c cs where s: "show_nat (unat w) = c # cs"
    by (cases "show_nat (unat w)") auto
  have "is_ascii_digit c" using show_nat_digits [of "unat w"] by (simp add: s)
  then have c: "c \<noteq> CHR ''+''" using not_digit_plus by blast
  have "unat w < 2 ^ 64" using unsigned_less [of w] by simp
  then show ?thesis
    using show_nat_digits [of "unat w"] dec_value_show_nat [of "unat w"] c
    by (simp add: parse_u64_def s)
qed

section \<open>Lists\<close>

lemma filter_length_Cons_bound:
  "length (filter P (x # xs)) = (if P x then Suc (length (filter P xs)) else length (filter P xs))"
  by simp

lemma length_filter_update:
  assumes "i < length xs"
  shows "length (filter P (xs[i := y])) + (if P (xs ! i) then 1 else 0)
       = length (filter P xs) + (if P y then 1 else 0)"
  using assms
proof (induction xs arbitrary: i)
  case Nil
  then show ?case by simp
next
  case (Cons x xs)
  show ?case
  proof (cases i)
    case 0
    then show ?thesis by simp
  next
    case (Suc j)
    with Cons.prems have "j < length xs" by simp
    from Cons.IH [OF this] show ?thesis by (simp add: Suc)
  qed
qed

text \<open>\<open>Iterator::position\<close>.\<close>

fun position :: "('a \<Rightarrow> bool) \<Rightarrow> 'a list \<Rightarrow> nat option" where
  "position P [] = None"
| "position P (x # xs) = (if P x then Some 0 else map_option Suc (position P xs))"

lemma position_SomeD: "position P xs = Some i \<Longrightarrow> i < length xs \<and> P (xs ! i)"
  by (induction xs arbitrary: i) (auto split: if_splits)

lemma position_SomeI:
  "k < length xs \<Longrightarrow> P (xs ! k) \<Longrightarrow> (\<And>j. j < k \<Longrightarrow> \<not> P (xs ! j)) \<Longrightarrow> position P xs = Some k"
proof (induction xs arbitrary: k)
  case Nil
  then show ?case by simp
next
  case (Cons x xs)
  show ?case
  proof (cases k)
    case 0
    then show ?thesis using Cons.prems by simp
  next
    case (Suc m)
    have "position P xs = Some m"
      using Cons.prems Suc by (intro Cons.IH) force+
    then show ?thesis using Cons.prems(3) [of 0] Suc by simp
  qed
qed

lemma position_first: "position P xs = Some i \<Longrightarrow> j < i \<Longrightarrow> \<not> P (xs ! j)"
proof (induction xs arbitrary: i j)
  case Nil
  then show ?case by simp
next
  case (Cons x xs)
  then show ?case by (cases j) (auto split: if_splits)
qed

lemma position_None_iff: "position P xs = None \<longleftrightarrow> (\<forall>x \<in> set xs. \<not> P x)"
  by (induction xs) auto

lemma find_position: "find P xs = map_option ((!) xs) (position P xs)"
  by (induction xs) (auto simp: option.map_comp comp_def)

lemma map_update_same: "f y = f (xs ! k) \<Longrightarrow> map f (xs[k := y]) = map f xs"
  by (metis list_update_beyond list_update_id map_update not_le_imp_less)

lemma find_SomeD: "find P xs = Some x \<Longrightarrow> x \<in> set xs \<and> P x"
  by (induction xs) (auto split: if_splits)

lemma find_unique:
  assumes "x \<in> set xs" and "P x" and uniq: "\<And>y. y \<in> set xs \<Longrightarrow> P y \<Longrightarrow> y = x"
  shows "find P xs = Some x"
proof (cases "find P xs")
  case None
  then show ?thesis using assms(1,2) by (simp add: find_None_iff)
next
  case (Some y)
  then show ?thesis using find_SomeD [OF Some] uniq by blast
qed

lemma filter_list_update: "k < length xs \<Longrightarrow> \<not> P (xs ! k) \<Longrightarrow> \<not> P y \<Longrightarrow> filter P (xs[k := y]) = filter P xs"
  by (induction xs arbitrary: k) (auto split: nat.splits)

text \<open>\<open>Iterator::min_by\<close>: the first of the least elements.\<close>

definition min_by_key :: "('a \<Rightarrow> 'k :: linorder) \<Rightarrow> 'a list \<Rightarrow> 'a option" where
  "min_by_key key xs =
     (case xs of [] \<Rightarrow> None
      | x # ys \<Rightarrow> Some (foldl (\<lambda>a b. if key b < key a then b else a) x ys))"

lemma foldl_min_least:
  "foldl (\<lambda>a b. if key b < key a then b else a) x ys \<in> insert x (set ys)
   \<and> (\<forall>z \<in> insert x (set ys). key (foldl (\<lambda>a b. if key b < key a then b else a) x ys) \<le> (key z :: 'k :: linorder))"
proof (induction ys arbitrary: x)
  case Nil
  then show ?case by simp
next
  case (Cons y ys)
  show ?case
    using Cons.IH [of "if key y < key x then y else x"]
    by (auto split: if_splits)
qed

lemma min_by_key_None [simp]: "min_by_key key xs = None \<longleftrightarrow> xs = []"
  by (cases xs) (auto simp: min_by_key_def)

lemma min_by_key_Some: "min_by_key key xs = Some m \<Longrightarrow> m \<in> set xs \<and> (\<forall>z \<in> set xs. key m \<le> key z)"
proof (cases xs)
  case (Cons x ys)
  moreover assume "min_by_key key xs = Some m"
  ultimately show ?thesis using foldl_min_least [of key x ys] by (auto simp: min_by_key_def)
qed (simp add: min_by_key_def)

end
