(* ===== verification/Isolation.thy ===== *)
theory Isolation
  imports Prelude
begin

text \<open>
  The kernel's tenant isolation contract (\<open>src/isolation/mod.rs\<close>): verified claims, the
  identifier check every claim passes, and the storage names minted from claims. The main
  facts: claims exist only for safe identifiers, and the minted names of two scopes are equal
  only if the scopes are, which is what keeps the storage of two tenants apart.
\<close>

datatype isolation_scope_provenance = VerifiedExplicit | VerifiedDefaulted | DeploymentConfig

datatype isolation_scope_field = ProjectId

fun isolation_scope_field_as_str :: "isolation_scope_field \<Rightarrow> string" where
  "isolation_scope_field_as_str ProjectId = ''project_id''"

datatype isolation_error =
    EmptyIdentifier string
  | UnsafeIdentifier string string

record isolation_claims =
  tenant_id :: string
  project_id :: string
  actor_id :: string
  provenance :: isolation_scope_provenance
  missing_scope_field :: "isolation_scope_field option"

section \<open>Identifiers\<close>

definition is_safe_identifier_byte :: "char \<Rightarrow> bool" where
  "is_safe_identifier_byte b \<longleftrightarrow> is_ascii_alphanumeric b \<or> b = CHR ''-'' \<or> b = CHR ''_''"

definition assert_identifier :: "string \<Rightarrow> string \<Rightarrow> isolation_error + unit" where
  "assert_identifier kind value =
     (if value = [] then Inl (EmptyIdentifier kind)
      else if value = ''.'' \<or> value = ''..'' \<or> \<not> list_all is_safe_identifier_byte value
      then Inl (UnsafeIdentifier kind value)
      else Inr ())"

definition assert_tenant_id :: "string \<Rightarrow> isolation_error + unit" where
  "assert_tenant_id v = assert_identifier ''tenant_id'' v"

definition assert_project_id :: "string \<Rightarrow> isolation_error + unit" where
  "assert_project_id v = assert_identifier ''project_id'' v"

definition assert_actor_id :: "string \<Rightarrow> isolation_error + unit" where
  "assert_actor_id v = assert_identifier ''actor_id'' v"

text \<open>The specification of a safe identifier: one non-empty path segment of safe bytes.\<close>

definition safe_identifier :: "string \<Rightarrow> bool" where
  "safe_identifier v \<longleftrightarrow> v \<noteq> [] \<and> list_all is_safe_identifier_byte v"

lemma assert_identifier_Inr_iff [simp]:
  "assert_identifier kind v = Inr u \<longleftrightarrow> safe_identifier v"
  by (auto simp: assert_identifier_def safe_identifier_def is_safe_identifier_byte_def
      is_ascii_alphanumeric_def is_ascii_digit_def is_ascii_lowercase_def is_ascii_uppercase_def)

lemmas assert_scope_defs = assert_tenant_id_def assert_project_id_def assert_actor_id_def

lemma safe_identifier_no_slash: "safe_identifier v \<Longrightarrow> CHR ''/'' \<notin> set v"
  by (auto simp: safe_identifier_def list_all_iff is_safe_identifier_byte_def
      is_ascii_alphanumeric_def is_ascii_digit_def is_ascii_lowercase_def is_ascii_uppercase_def)

lemma safe_identifier_visible: "safe_identifier v \<Longrightarrow> c \<in> set v \<Longrightarrow> is_visible_ascii c"
  by (auto simp: safe_identifier_def list_all_iff is_safe_identifier_byte_def
      is_ascii_alphanumeric_def is_ascii_digit_def is_ascii_lowercase_def is_ascii_uppercase_def
      is_visible_ascii_def)

section \<open>Claims\<close>

definition from_verified :: "string \<Rightarrow> string \<Rightarrow> string \<Rightarrow> isolation_error + isolation_claims" where
  "from_verified t p a =
     and_then (assert_tenant_id t) (\<lambda>_.
     and_then (assert_project_id p) (\<lambda>_.
     and_then (assert_actor_id a) (\<lambda>_.
       Inr \<lparr>tenant_id = t, project_id = p, actor_id = a,
             provenance = DeploymentConfig, missing_scope_field = None\<rparr>)))"

definition from_verified_jwt ::
  "string \<Rightarrow> string \<Rightarrow> string \<Rightarrow> isolation_scope_provenance \<Rightarrow> isolation_scope_field option
   \<Rightarrow> isolation_error + isolation_claims" where
  "from_verified_jwt t p a prov missing =
     and_then (from_verified t p a) (\<lambda>claims.
       Inr (claims\<lparr>provenance := prov, missing_scope_field := missing\<rparr>))"

text \<open>What both constructors establish; the fields are private, so nothing breaks it later.\<close>

definition claims_ok :: "isolation_claims \<Rightarrow> bool" where
  "claims_ok c \<longleftrightarrow> safe_identifier (tenant_id c) \<and> safe_identifier (project_id c)
     \<and> safe_identifier (actor_id c)"

lemma from_verified_Inr_iff:
  "from_verified t p a = Inr c \<longleftrightarrow>
     safe_identifier t \<and> safe_identifier p \<and> safe_identifier a \<and>
     c = \<lparr>tenant_id = t, project_id = p, actor_id = a,
          provenance = DeploymentConfig, missing_scope_field = None\<rparr>"
  by (auto simp: from_verified_def assert_scope_defs and_then_Inr_iff)

lemma from_verified_ok [invs]: "from_verified t p a = Inr c \<Longrightarrow> claims_ok c"
  by (auto simp: from_verified_Inr_iff claims_ok_def)

lemma from_verified_jwt_ok [invs]: "from_verified_jwt t p a pr m = Inr c \<Longrightarrow> claims_ok c"
  by (auto simp: from_verified_jwt_def and_then_Inr_iff from_verified_Inr_iff claims_ok_def)

section \<open>Minted names\<close>

definition assert_scope :: "isolation_claims \<Rightarrow> isolation_error + unit" where
  "assert_scope c = and_then (assert_tenant_id (tenant_id c)) (\<lambda>_. assert_project_id (project_id c))"

definition graph_iri :: "isolation_claims \<Rightarrow> isolation_error + string" where
  "graph_iri c = and_then (assert_scope c) (\<lambda>_.
     Inr (''graph://'' @ tenant_id c @ ''/'' @ project_id c))"

definition object_key_prefix :: "isolation_claims \<Rightarrow> isolation_error + string" where
  "object_key_prefix c =
     and_then (assert_tenant_id (tenant_id c)) (\<lambda>_.
     and_then (assert_project_id (project_id c)) (\<lambda>_.
       Inr (tenant_id c @ ''/'' @ project_id c @ ''/'')))"

definition vector_namespace :: "isolation_claims \<Rightarrow> isolation_error + string" where
  "vector_namespace c = and_then (assert_scope c) (\<lambda>_.
     Inr (''vector://'' @ tenant_id c @ ''/'' @ project_id c))"

text \<open>
  \<open>PathBuf::from("/data/l0").join(tenant)\<close>: joining a relative segment appends it after one
  separator; an absolute one would replace the path, which is why the guard matters.
\<close>

definition path_join :: "string \<Rightarrow> string \<Rightarrow> string" where
  "path_join base seg =
     (if starts_with ''/'' seg then seg
      else if ends_with ''/'' base then base @ seg else base @ ''/'' @ seg)"

definition l0_path :: "isolation_claims \<Rightarrow> isolation_error + string" where
  "l0_path c = and_then (assert_tenant_id (tenant_id c)) (\<lambda>_.
     Inr (path_join ''/data/l0'' (tenant_id c)))"

lemma append_sep_inject:
  assumes "c \<notin> set a" and "c \<notin> set a'" and "a @ c # b = a' @ c # b'"
  shows "a = a' \<and> b = b'"
  using assms by (induction a arbitrary: a') (auto simp: Cons_eq_append_conv append_eq_Cons_conv)

lemma scope_assert_Inr_iff [simp]:
  "assert_scope c = Inr u \<longleftrightarrow> safe_identifier (tenant_id c) \<and> safe_identifier (project_id c)"
  by (auto simp: assert_scope_def assert_scope_defs and_then_Inr_iff)

lemma graph_iri_Inr_iff:
  "graph_iri c = Inr s \<longleftrightarrow> safe_identifier (tenant_id c) \<and> safe_identifier (project_id c)
     \<and> s = ''graph://'' @ tenant_id c @ ''/'' @ project_id c"
  by (auto simp: graph_iri_def and_then_Inr_iff)

lemma vector_namespace_Inr_iff:
  "vector_namespace c = Inr s \<longleftrightarrow> safe_identifier (tenant_id c) \<and> safe_identifier (project_id c)
     \<and> s = ''vector://'' @ tenant_id c @ ''/'' @ project_id c"
  by (auto simp: vector_namespace_def and_then_Inr_iff)

lemma object_key_prefix_Inr_iff:
  "object_key_prefix c = Inr s \<longleftrightarrow> safe_identifier (tenant_id c) \<and> safe_identifier (project_id c)
     \<and> s = tenant_id c @ ''/'' @ project_id c @ ''/''"
  by (auto simp: object_key_prefix_def assert_scope_defs and_then_Inr_iff)

section \<open>Name minting as an interface\<close>

text \<open>
  The contract a storage backend relies on: minting succeeds for verified claims, and no two
  scopes share a name. The prefix law says more for object storage: no key of one scope lies
  under the prefix of another.
\<close>

locale scope_naming =
  fixes mint :: "isolation_claims \<Rightarrow> isolation_error + string"
  assumes mint_total: "claims_ok c \<Longrightarrow> \<exists>s. mint c = Inr s"
    and mint_safe: "mint c = Inr s \<Longrightarrow> safe_identifier (tenant_id c) \<and> safe_identifier (project_id c)"
    and mint_inject: "mint c = Inr s \<Longrightarrow> mint d = Inr s \<Longrightarrow>
      tenant_id c = tenant_id d \<and> project_id c = project_id d"
begin

lemma scopes_disjoint:
  assumes "claims_ok c" and "claims_ok d"
    and "tenant_id c \<noteq> tenant_id d \<or> project_id c \<noteq> project_id d"
  shows "mint c \<noteq> mint d"
  using assms mint_total mint_inject by metis

lemma mint_refuses_unsafe: "\<not> safe_identifier (tenant_id c) \<Longrightarrow> \<exists>e. mint c = Inl e"
  using mint_safe by (metis sum.exhaust)

end

interpretation graph_naming: scope_naming graph_iri
  by unfold_locales
    (auto simp: graph_iri_Inr_iff claims_ok_def dest!: append_sep_inject
      [OF safe_identifier_no_slash safe_identifier_no_slash, rotated 2])

interpretation vector_naming: scope_naming vector_namespace
  by unfold_locales
    (auto simp: vector_namespace_Inr_iff claims_ok_def dest!: append_sep_inject
      [OF safe_identifier_no_slash safe_identifier_no_slash, rotated 2])

text \<open>
  Object keys are prefixes: a key under two prefixes forces the scopes to agree.
\<close>

lemma object_key_under_prefix:
  assumes "object_key_prefix c = Inr p" and "starts_with p k"
  shows "safe_identifier (tenant_id c) \<and> safe_identifier (project_id c) \<and>
    (\<exists>r. k = tenant_id c @ CHR ''/'' # project_id c @ CHR ''/'' # r)"
  using assms by (auto simp: object_key_prefix_Inr_iff starts_with_iff)

lemma object_prefix_inject:
  assumes "object_key_prefix c = Inr p" and "object_key_prefix d = Inr q"
    and "starts_with p k" and "starts_with q k"
  shows "tenant_id c = tenant_id d \<and> project_id c = project_id d"
proof -
  note c = object_key_under_prefix [OF assms(1,3)] and d = object_key_under_prefix [OF assms(2,4)]
  from c obtain r where r: "k = tenant_id c @ CHR ''/'' # project_id c @ CHR ''/'' # r" by blast
  from d obtain q where q: "k = tenant_id d @ CHR ''/'' # project_id d @ CHR ''/'' # q" by blast
  have tc: "CHR ''/'' \<notin> set (tenant_id c)" and td: "CHR ''/'' \<notin> set (tenant_id d)"
    and pc: "CHR ''/'' \<notin> set (project_id c)" and pd: "CHR ''/'' \<notin> set (project_id d)"
    using c d by (simp_all add: safe_identifier_no_slash)
  from append_sep_inject [OF tc td trans [OF r [symmetric] q]]
  have "tenant_id c = tenant_id d"
    and rest: "project_id c @ CHR ''/'' # r = project_id d @ CHR ''/'' # q"
    by blast+
  with append_sep_inject [OF pc pd rest] show ?thesis by blast
qed

interpretation object_naming: scope_naming object_key_prefix
proof
  fix c d s
  assume "object_key_prefix c = Inr s" "object_key_prefix d = Inr s"
  then show "tenant_id c = tenant_id d \<and> project_id c = project_id d"
    by (rule object_prefix_inject [where k = s]) (simp_all add: starts_with_def)
qed (auto simp: object_key_prefix_Inr_iff claims_ok_def)

lemma l0_path_Inr_iff:
  "l0_path c = Inr s \<longleftrightarrow> safe_identifier (tenant_id c) \<and> s = ''/data/l0/'' @ tenant_id c"
proof -
  have "\<not> starts_with ''/'' v" if "safe_identifier v" for v
    using safe_identifier_no_slash [OF that] by (auto simp: starts_with_iff)
  then show ?thesis
    by (auto simp: l0_path_def assert_scope_defs and_then_Inr_iff path_join_def ends_with_def)
qed

end
