(* ===== verification/Json.thy ===== *)
theory Json
  imports Prelude "HOL-Library.Multiset"
begin

text \<open>
  \<open>serde_json\<close> values as the routes use them, and the canonical form a request fingerprint
  is taken of (\<open>write_canonical_json\<close> in \<open>src/api/http/invocations.rs\<close>). An object is the list
  of its members; \<open>serde_json\<close>'s default map keeps them sorted with distinct keys. A float is
  carried as the text the library prints for it. The printer of scalars and keys is the
  library's: a parameter of the definitions that write text.
\<close>

datatype jnum = PosInt u64 | NegInt int | Float string

datatype json =
    JNull
  | JBool bool
  | JNumber jnum
  | JString string
  | JArray "json list"
  | JObject "(string \<times> json) list"

fun as_str :: "json \<Rightarrow> string option" where
  "as_str (JString s) = Some s"
| "as_str _ = None"

fun as_u64 :: "json \<Rightarrow> u64 option" where
  "as_u64 (JNumber (PosInt n)) = Some n"
| "as_u64 _ = None"

fun as_object :: "json \<Rightarrow> (string \<times> json) list option" where
  "as_object (JObject m) = Some m"
| "as_object _ = None"

fun as_array :: "json \<Rightarrow> json list option" where
  "as_array (JArray xs) = Some xs"
| "as_array _ = None"

text \<open>\<open>Value::get\<close> with a string index: \<open>None\<close> on anything but an object.\<close>

definition json_get :: "json \<Rightarrow> string \<Rightarrow> json option" where
  "json_get v k = (case as_object v of None \<Rightarrow> None | Some m \<Rightarrow> map_of m k)"

definition get_str :: "json \<Rightarrow> string \<Rightarrow> string option" where
  "get_str v k = Option.bind (json_get v k) as_str"

text \<open>\<open>Value::as_bool\<close>, the \<open>json!\<close> object and \<open>Map::insert\<close>, which keep the members sorted.\<close>

fun as_bool :: "json \<Rightarrow> bool option" where
  "as_bool (JBool b) = Some b"
| "as_bool _ = None"

definition json_object :: "(string \<times> json) list \<Rightarrow> json" where
  "json_object ms = JObject (sort_key fst ms)"

fun json_insert :: "string \<Rightarrow> json \<Rightarrow> (string \<times> json) list \<Rightarrow> (string \<times> json) list" where
  "json_insert k v [] = [(k, v)]"
| "json_insert k v ((l, w) # ms) =
     (if k = l then (k, v) # ms else if k < l then (k, v) # (l, w) # ms else (l, w) # json_insert k v ms)"

lemma map_of_json_insert [simp]: "map_of (json_insert k v ms) = (map_of ms)(k \<mapsto> v)"
  by (induction k v ms rule: json_insert.induct) auto

definition opt_string :: "string option \<Rightarrow> json" where
  "opt_string s = (case s of None \<Rightarrow> JNull | Some t \<Rightarrow> JString t)"

section \<open>Canonical text\<close>

fun join_with :: "string \<Rightarrow> string list \<Rightarrow> string" where
  "join_with sep [] = []"
| "join_with sep [x] = x"
| "join_with sep (x # y # xs) = x @ sep @ join_with sep (y # xs)"

lemma member_size: "(k, v) \<in> set m \<Longrightarrow> size v \<le> size_list (size_prod (\<lambda>_. 0) size) m"
  by (induction m) auto

lemma element_size: "v \<in> set xs \<Longrightarrow> size v \<le> size_list size xs"
  by (induction xs) auto

function write_canonical_json :: "(json \<Rightarrow> string) \<Rightarrow> json \<Rightarrow> string" where
  "write_canonical_json show_scalar (JObject m) =
     ''{'' @ join_with '',''
       (map (\<lambda>(k, v). show_scalar (JString k) @ '':'' @ write_canonical_json show_scalar v)
            (sort_key fst m)) @ ''}''"
| "write_canonical_json show_scalar (JArray xs) =
     ''['' @ join_with '','' (map (write_canonical_json show_scalar) xs) @ '']''"
| "write_canonical_json show_scalar JNull = show_scalar JNull"
| "write_canonical_json show_scalar (JBool b) = show_scalar (JBool b)"
| "write_canonical_json show_scalar (JNumber n) = show_scalar (JNumber n)"
| "write_canonical_json show_scalar (JString s) = show_scalar (JString s)"
  by pat_completeness auto
termination
  by (relation "measure (size \<circ> snd)")
    (auto simp: less_Suc_eq_le intro: member_size element_size)

text \<open>Two documents that differ only in the order of the members of their objects.\<close>

inductive same_document :: "json \<Rightarrow> json \<Rightarrow> bool" where
  same_refl: "same_document v v"
| same_array: "list_all2 same_document xs ys \<Longrightarrow> same_document (JArray xs) (JArray ys)"
| same_members:
    "list_all2 (\<lambda>p q. fst p = fst q \<and> same_document (snd p) (snd q)) m n
     \<Longrightarrow> same_document (JObject m) (JObject n)"
| same_order:
    "distinct (map fst m) \<Longrightarrow> mset m = mset n \<Longrightarrow> same_document (JObject m) (JObject n)"
| same_trans: "same_document u v \<Longrightarrow> same_document v w \<Longrightarrow> same_document u w"

lemma sort_key_perm:
  fixes m n :: "('k :: linorder \<times> 'v) list"
  assumes "distinct (map fst m)" and "mset m = mset n"
  shows "sort_key fst m = sort_key fst n"
proof (rule properties_for_sort_key)
  show "mset (sort_key fst n) = mset m" using assms(2) by simp
  show "sorted (map fst (sort_key fst n))" by simp
  fix k
  assume "k \<in> set (sort_key fst n)"
  have dn: "distinct (map fst n)"
    using assms by (metis distinct_map mset_eq_imp_distinct_iff mset_map)
  have "filter (\<lambda>x. fst k = fst x) (sort_key fst n) = sort_key fst (filter (\<lambda>x. fst k = fst x) n)"
    by (rule filter_sort)
  have single: "filter (\<lambda>x. fst k = fst x) l = [k]" if "distinct (map fst l)" "k \<in> set l"
    for l :: "('k \<times> 'v) list"
    using that by (induction l) (auto simp: filter_empty_conv rev_image_eqI)
  have "k \<in> set n" using \<open>k \<in> set (sort_key fst n)\<close> by simp
  moreover have "k \<in> set m" using calculation assms(2) by (metis set_mset_mset)
  moreover have "distinct (map fst (sort_key fst n))"
    using dn by (metis distinct_map mset_eq_imp_distinct_iff mset_map mset_sort)
  ultimately show "filter (\<lambda>x. fst k = fst x) (sort_key fst n) = filter (\<lambda>x. fst k = fst x) m"
    using single assms(1) by simp
qed

lemma insort_key_members:
  assumes "list_all2 (\<lambda>p q. fst p = fst q \<and> R (snd p) (snd q)) m n"
    and "fst x = fst y" and "R (snd x) (snd y)"
  shows "list_all2 (\<lambda>p q. fst p = fst q \<and> R (snd p) (snd q)) (insort_key fst x m) (insort_key fst y n)"
  using assms by (induction rule: list_all2_induct) auto

lemma sort_key_members:
  "list_all2 (\<lambda>p q. fst p = fst q \<and> R (snd p) (snd q)) m n \<Longrightarrow>
   list_all2 (\<lambda>p q. fst p = fst q \<and> R (snd p) (snd q)) (sort_key fst m) (sort_key fst n)"
  by (induction rule: list_all2_induct) (auto simp: insort_key_members)

lemma map_members_cong:
  "list_all2 (\<lambda>p q. fst p = fst q \<and> f (snd p) = f (snd q)) m n \<Longrightarrow>
   map (\<lambda>(k, v). g k @ h @ f v) m = map (\<lambda>(k, v). g k @ h @ f v) n"
  by (induction rule: list_all2_induct) auto

lemma canonical_same_document:
  "same_document v w \<Longrightarrow> write_canonical_json p v = write_canonical_json p w"
proof (induction rule: same_document.induct)
  case (same_array xs ys)
  then have "map (write_canonical_json p) xs = map (write_canonical_json p) ys"
    by (induction xs ys rule: list_all2_induct) auto
  then show ?case by simp
next
  case (same_members m n)
  then have "list_all2 (\<lambda>a b. fst a = fst b \<and>
      write_canonical_json p (snd a) = write_canonical_json p (snd b)) m n"
    by (auto elim: list_all2_mono)
  from map_members_cong [OF sort_key_members [OF this], of "\<lambda>k. p (JString k)" "'':''"]
  show ?case by simp
next
  case (same_order m n)
  then show ?case by (simp add: sort_key_perm)
qed simp_all

end
