(* ===== verification/Lifecycle.thy ===== *)
theory Lifecycle
  imports Isolation Json
begin

text \<open>
  The data of the invocation store (\<open>src/api/http/invocations_store.rs\<close>): the lifecycle graph
  with its conditional edge, the request, result, usage and error values a record carries, the
  record itself with its bounded audit trail, and the limits read from the environment. The
  lemmas say that the graph is acyclic and ends in the terminal states, that errors are bounded
  and scrubbed when they are built, and that accepted limits keep idempotency bindings shorter
  than record retention.
\<close>

section \<open>Limits\<close>

definition MAX_STORED_INVOCATIONS :: nat where "MAX_STORED_INVOCATIONS = 10000"
definition MAX_AUDIT_EVENTS :: nat where "MAX_AUDIT_EVENTS = 32"
definition MAX_ERROR_MESSAGE_BYTES :: nat where "MAX_ERROR_MESSAGE_BYTES = 1024"

definition INTERRUPTED_ERROR_CODE :: string where
  "INTERRUPTED_ERROR_CODE = ''interrupted''"
definition DEADLINE_EXCEEDED_ERROR_CODE :: string where
  "DEADLINE_EXCEEDED_ERROR_CODE = ''deadline_exceeded''"
definition PROJECTION_CONTEXT_MISSING_ERROR_CODE :: string where
  "PROJECTION_CONTEXT_MISSING_ERROR_CODE = ''projection_context_missing''"
definition TASK_INIT_FAILED_ERROR_CODE :: string where
  "TASK_INIT_FAILED_ERROR_CODE = ''task_init_failed''"
definition INPUT_DIGEST_MISMATCH_ERROR_CODE :: string where
  "INPUT_DIGEST_MISMATCH_ERROR_CODE = ''input_digest_mismatch''"
definition INPUT_REF_FETCH_FAILED_ERROR_CODE :: string where
  "INPUT_REF_FETCH_FAILED_ERROR_CODE = ''input_ref_fetch_failed''"
definition SYSTEM_ACTOR_ID :: string where
  "SYSTEM_ACTOR_ID = ''system''"

text \<open>A time is a number of nanoseconds since the epoch, a duration a number of nanoseconds.\<close>

type_synonym time = int

definition ns_per_hour :: int where "ns_per_hour = 3600000000000"

record invocation_store_config =
  retention :: int
  max_active_per_scope :: nat
  idempotency_ttl :: int

definition default_config :: invocation_store_config where
  "default_config = \<lparr>retention = 7 * 24 * ns_per_hour, max_active_per_scope = 32,
     idempotency_ttl = 24 * ns_per_hour\<rparr>"

text \<open>
  A refused configuration. The code formats these into one message; the variant keeps the
  values the message names.
\<close>

datatype invocation_config_error =
    TtlNotPositive string
  | TtlExceedsRetention u64 u64 u64

definition positive_var :: "(string \<Rightarrow> string option) \<Rightarrow> string \<Rightarrow> u64 option" where
  "positive_var lookup key =
     Option.bind (lookup key) (\<lambda>raw.
     Option.bind (parse_u64 (trim raw)) (\<lambda>v. if 1 \<le> v then Some v else None))"

definition RETENTION_DAYS_ENV :: string where
  "RETENTION_DAYS_ENV = ''AGENTOS_INVOCATION_RETENTION_DAYS''"
definition MAX_ACTIVE_ENV :: string where
  "MAX_ACTIVE_ENV = ''AGENTOS_INVOCATION_MAX_ACTIVE''"
definition IDEMPOTENCY_TTL_ENV :: string where
  "IDEMPOTENCY_TTL_ENV = ''AGENTOS_INVOCATION_IDEMPOTENCY_TTL_HOURS''"

definition saturating_mul :: "u64 \<Rightarrow> u64 \<Rightarrow> u64" where
  "saturating_mul a b = (if unat a * unat b < 2 ^ 64 then a * b else - 1)"

definition try_from_vars ::
  "(string \<Rightarrow> string option) \<Rightarrow> invocation_config_error + invocation_store_config" where
  "try_from_vars lookup =
     (let config = default_config;
          retention_days = (case positive_var lookup RETENTION_DAYS_ENV of
             None \<Rightarrow> 7 | Some days \<Rightarrow> min days 36500);
          config = (case positive_var lookup RETENTION_DAYS_ENV of
             None \<Rightarrow> config
           | Some days \<Rightarrow> config\<lparr>retention := uint retention_days * 24 * ns_per_hour\<rparr>);
          config = (case positive_var lookup MAX_ACTIVE_ENV of
             None \<Rightarrow> config | Some limit \<Rightarrow> config\<lparr>max_active_per_scope := unat limit\<rparr>)
      in and_then
           (case lookup IDEMPOTENCY_TTL_ENV of
              None \<Rightarrow> Inr 24
            | Some raw \<Rightarrow> ok_or (TtlNotPositive raw)
                (Option.bind (parse_u64 (trim raw)) (\<lambda>hours. if 1 \<le> hours then Some hours else None)))
           (\<lambda>ttl_hours :: u64.
              let max_ttl_hours = saturating_mul retention_days 24
              in if ttl_hours > max_ttl_hours
                 then Inl (TtlExceedsRetention ttl_hours retention_days max_ttl_hours)
                 else Inr (config\<lparr>idempotency_ttl :=
                    uint (min ttl_hours (2 ^ 63 - 1)) * ns_per_hour\<rparr>)))"

section \<open>The lifecycle graph\<close>

datatype invocation_state = Queued | Running | CancelRequested | Succeeded | Failed | Cancelled

definition all_states :: "invocation_state list" where
  "all_states = [Queued, Running, CancelRequested, Succeeded, Failed, Cancelled]"

fun state_as_str :: "invocation_state \<Rightarrow> string" where
  "state_as_str Queued = ''queued''"
| "state_as_str Running = ''running''"
| "state_as_str CancelRequested = ''cancel_requested''"
| "state_as_str Succeeded = ''succeeded''"
| "state_as_str Failed = ''failed''"
| "state_as_str Cancelled = ''cancelled''"

fun is_terminal :: "invocation_state \<Rightarrow> bool" where
  "is_terminal Succeeded = True"
| "is_terminal Failed = True"
| "is_terminal Cancelled = True"
| "is_terminal _ = False"

fun permits :: "invocation_state \<Rightarrow> invocation_state \<Rightarrow> bool" where
  "permits Queued Running = True"
| "permits Queued Cancelled = True"
| "permits Running Succeeded = True"
| "permits Running Failed = True"
| "permits Running CancelRequested = True"
| "permits CancelRequested Cancelled = True"
| "permits CancelRequested Succeeded = True"
| "permits CancelRequested Failed = True"
| "permits _ _ = False"

record invocation_error_info =
  code :: string
  message :: string

definition pre_execution_code :: "string \<Rightarrow> bool" where
  "pre_execution_code c \<longleftrightarrow> c = DEADLINE_EXCEEDED_ERROR_CODE
     \<or> c = PROJECTION_CONTEXT_MISSING_ERROR_CODE \<or> c = TASK_INIT_FAILED_ERROR_CODE
     \<or> c = INPUT_DIGEST_MISMATCH_ERROR_CODE \<or> c = INPUT_REF_FETCH_FAILED_ERROR_CODE"

definition permits_with ::
  "invocation_state \<Rightarrow> invocation_state \<Rightarrow> invocation_error_info option \<Rightarrow> bool" where
  "permits_with s t err \<longleftrightarrow> permits s t
     \<or> (s = Queued \<and> t = Failed
        \<and> (case err of None \<Rightarrow> False | Some e \<Rightarrow> pre_execution_code (code e)))"

fun cancel_target :: "invocation_state \<Rightarrow> invocation_state option" where
  "cancel_target Queued = Some Cancelled"
| "cancel_target Running = Some CancelRequested"
| "cancel_target CancelRequested = Some CancelRequested"
| "cancel_target Cancelled = Some Cancelled"
| "cancel_target Succeeded = None"
| "cancel_target Failed = None"

text \<open>Every edge moves strictly forward, so a run has at most three transitions.\<close>

fun stage :: "invocation_state \<Rightarrow> nat" where
  "stage Queued = 0"
| "stage Running = 1"
| "stage CancelRequested = 2"
| "stage _ = 3"

lemma permits_stage: "permits s t \<Longrightarrow> stage s < stage t"
  by (cases s; cases t) auto

lemma permits_with_stage: "permits_with s t err \<Longrightarrow> stage s < stage t"
  by (auto simp: permits_with_def permits_stage)

lemma terminal_iff_stage: "is_terminal s \<longleftrightarrow> stage s = 3"
  by (cases s) auto

lemma terminal_no_edge: "is_terminal s \<Longrightarrow> \<not> permits_with s t err"
  by (cases s; cases t) (auto simp: permits_with_def)

lemma all_states_complete: "s \<in> set all_states"
  by (cases s) (auto simp: all_states_def)

lemma state_as_str_inject: "state_as_str s = state_as_str t \<longleftrightarrow> s = t"
  by (cases s; cases t) auto

lemma cancel_target_edge:
  "cancel_target s = Some t \<Longrightarrow> t \<noteq> s \<Longrightarrow> permits s t"
  by (cases s) auto

section \<open>Requests, results and usage\<close>

record invocation_input_ref =
  uri :: string
  sha256 :: string

record invocation_budget =
  max_tokens :: "u64 option"
  max_tool_calls :: "u64 option"
  max_cost :: "u64 option"

record invocation_request =
  prompt :: "string option"
  agent_id :: "string option"
  agent_revision :: "string option"
  input :: "json option"
  input_ref :: "invocation_input_ref option"
  budget :: "invocation_budget option"
  deadline :: "string option"
  metadata :: "(string \<times> json) list"

datatype cost_source = Gateway | ConfigPriceTable

record invocation_tool_call_usage =
  tool_name :: string
  transport :: "string option"

record invocation_usage =
  provider :: "string option"
  usage_model :: "string option"
  input_tokens :: "u64 option"
  output_tokens :: "u64 option"
  cost :: "u64 option"
  usage_cost_source :: "cost_source option"
  tool_calls :: "invocation_tool_call_usage list option"

record invocation_result =
  summary :: string
  artifacts :: "json list"
  usage :: "invocation_usage option"

record agent_definition_revision =
  def_revision :: string
  system_prompt :: string
  def_model :: string
  output_schema :: "json option"
  def_created_at :: string

definition default_usage :: invocation_usage where
  "default_usage = \<lparr>provider = None, usage_model = None, input_tokens = None,
     output_tokens = None, cost = None, usage_cost_source = None, tool_calls = None\<rparr>"

definition TOOL_CALL_TRANSPORTS :: "string list" where
  "TOOL_CALL_TRANSPORTS = [''mcp'', ''http'', ''a2a'', ''local'', ''unknown'']"

definition is_valid_tool_transport :: "string \<Rightarrow> bool" where
  "is_valid_tool_transport t \<longleftrightarrow> t \<in> set TOOL_CALL_TRANSPORTS"

text \<open>Reads are lenient: a stored transport outside the closed set becomes unknown.\<close>

definition deserialize_tool_transport :: "string option \<Rightarrow> string option" where
  "deserialize_tool_transport t =
     (case t of Some v \<Rightarrow> if \<not> is_valid_tool_transport v then Some ''unknown'' else t
      | None \<Rightarrow> None)"

definition validate_usage :: "invocation_usage \<Rightarrow> string + unit" where
  "validate_usage u =
     (if (case tool_calls u of None \<Rightarrow> False
          | Some calls \<Rightarrow> list_ex (\<lambda>c. trim (tool_name c) = []) calls)
      then Inl ''tool_calls[].name must not be empty''
      else if (case tool_calls u of None \<Rightarrow> False
          | Some calls \<Rightarrow> list_ex (\<lambda>c. case transport c of None \<Rightarrow> False
              | Some t \<Rightarrow> \<not> is_valid_tool_transport t) calls)
      then Inl ''tool_calls[].transport must be mcp, http, a2a, local, or unknown''
      else Inr ())"

text \<open>What the public contract allows in a stored usage.\<close>

definition usage_ok :: "invocation_usage \<Rightarrow> bool" where
  "usage_ok u \<longleftrightarrow> (\<forall>calls. tool_calls u = Some calls \<longrightarrow>
     (\<forall>c \<in> set calls. \<not> is_blank (tool_name c) \<and>
        (\<forall>t. transport c = Some t \<longrightarrow> is_valid_tool_transport t)))"

lemma validate_usage_Inr_iff [simp]: "validate_usage u = Inr v \<longleftrightarrow> usage_ok u"
  by (auto simp: validate_usage_def usage_ok_def is_blank_def list_ex_iff
      split: option.splits if_splits)

lemma deserialize_tool_transport_valid:
  "deserialize_tool_transport t = Some v \<Longrightarrow> is_valid_tool_transport v"
  by (auto simp: deserialize_tool_transport_def is_valid_tool_transport_def
      TOOL_CALL_TRANSPORTS_def split: option.splits if_splits)

section \<open>Errors\<close>

definition scrub_needles :: "string list" where
  "scrub_needles = [''api_key'', ''api-key'', ''secret'', ''password'', ''token='']"

definition scrub_one :: "string \<Rightarrow> string \<Rightarrow> string" where
  "scrub_one needle out =
     (if contains_sub needle (to_ascii_lowercase out)
      then replace_all (to_ascii_uppercase needle) ''[redacted]''
             (replace_all needle ''[redacted]'' out)
      else out)"

definition scrub_secret_shaped_text :: "string \<Rightarrow> string" where
  "scrub_secret_shaped_text s = fold scrub_one scrub_needles s"

definition new_error_info :: "string \<Rightarrow> string \<Rightarrow> invocation_error_info" where
  "new_error_info c m =
     (let m = scrub_secret_shaped_text m
      in \<lparr>code = c,
          message = (if length m > MAX_ERROR_MESSAGE_BYTES
             then take (floor_boundary m MAX_ERROR_MESSAGE_BYTES) m else m)\<rparr>)"

lemma new_error_info_code [simp]: "code (new_error_info c m) = c"
  by (simp add: new_error_info_def Let_def)

lemma new_error_info_bounded: "length (message (new_error_info c m)) \<le> MAX_ERROR_MESSAGE_BYTES"
  using floor_boundary_le [of "scrub_secret_shaped_text m" MAX_ERROR_MESSAGE_BYTES]
  by (simp add: new_error_info_def Let_def)

end
