(* ===== verification/Bounded_Log.thy ===== *)
theory Bounded_Log
  imports Prelude
begin

text \<open>
  The contract shared by the program's bounded histories (the audit trail of an invocation, the
  sliding window of the batch pipeline): pushing appends, and what exceeds the capacity is
  dropped from the old end. Its client lemmas say that the history stays within its capacity,
  that the newest entry is always there, and that after any run of pushes the history is exactly
  the most recent entries of everything pushed.
\<close>

locale bounded_log =
  fixes push :: "'e \<Rightarrow> 'l \<Rightarrow> 'l"
    and contents :: "'l \<Rightarrow> 'e list"
    and cap :: "'l \<Rightarrow> nat"
    and ok :: "'l \<Rightarrow> bool"
  assumes ok_push: "ok l \<Longrightarrow> ok (push e l)"
    and cap_push: "cap (push e l) = cap l"
    and cap_pos: "ok l \<Longrightarrow> 0 < cap l"
    and within: "ok l \<Longrightarrow> length (contents l) \<le> cap l"
    and contents_push: "ok l \<Longrightarrow>
      contents (push e l) = drop (Suc (length (contents l)) - cap l) (contents l @ [e])"
begin

lemma newest_kept: "ok l \<Longrightarrow> contents (push e l) \<noteq> [] \<and> last (contents (push e l)) = e"
  using cap_pos [of l] within [of l] by (simp add: contents_push)

lemma push_length: "ok l \<Longrightarrow> length (contents (push e l)) = min (Suc (length (contents l))) (cap l)"
  using cap_pos [of l] within [of l] by (simp add: contents_push)

lemma ok_push_all: "ok l \<Longrightarrow> ok (fold push es l)"
  by (induction es arbitrary: l) (auto simp: ok_push)

lemma cap_push_all: "cap (fold push es l) = cap l"
  by (induction es arbitrary: l) (auto simp: cap_push)

lemma push_all_contents:
  "ok l \<Longrightarrow> contents (fold push es l)
     = drop (length (contents l) + length es - cap l) (contents l @ es)"
proof (induction es arbitrary: l)
  case Nil
  then show ?case using within by simp
next
  case (Cons e es)
  let ?n = "length (contents l)"
  have "contents (fold push (e # es) l)
      = drop (length (contents (push e l)) + length es - cap l) (contents (push e l) @ es)"
    using Cons by (simp add: ok_push cap_push)
  also have "contents (push e l) @ es = drop (Suc ?n - cap l) ((contents l @ [e]) @ es)"
    using Cons.prems cap_pos [of l] by (simp add: contents_push)
  also have "drop (length (contents (push e l)) + length es - cap l) \<dots>
      = drop (?n + length (e # es) - cap l) (contents l @ e # es)"
    using Cons.prems within [of l] cap_pos [of l] by (auto simp: push_length min_def add.commute)
  finally show ?case .
qed

lemma push_all_bounded: "ok l \<Longrightarrow> length (contents (fold push es l)) \<le> cap l"
  using within [OF ok_push_all] by (simp add: cap_push_all)

end

end
