(* ===== verification/Invocation_Record.thy ===== *)
theory Invocation_Record
  imports Lifecycle Bounded_Log
begin

text \<open>
  The stored record of an invocation (\<open>Invocation\<close> in
  \<open>src/api/http/invocations_store.rs\<close>), its scope test, its bounded audit trail, its idempotency
  binding, and its entity tag with the \<open>If-Match\<close> parser. RFC 3339 text is read and written by
  \<open>chrono\<close>: the reader and the writer are the parameter \<open>chrono_lib\<close>.
\<close>

record chrono_lib =
  parse_from_rfc3339 :: "string \<Rightarrow> time option"
  to_rfc3339_micros :: "time \<Rightarrow> string"

text \<open>
  The documented behaviour the code relies on: reading back a written time yields it, truncated
  to the microseconds that are written.
\<close>

definition chrono_roundtrips :: "chrono_lib \<Rightarrow> bool" where
  "chrono_roundtrips lib \<longleftrightarrow>
     (\<forall>t. parse_from_rfc3339 lib (to_rfc3339_micros lib t) = Some (t - t mod 1000))"

record audit_event =
  at :: string
  ev_from :: "invocation_state option"
  ev_to :: invocation_state
  ev_revision :: u64
  ev_actor_id :: string

record idempotency_binding =
  fingerprint :: string
  expires_at :: string

record invocation =
  inv_id :: string
  inv_object :: string
  inv_tenant_id :: string
  inv_project_id :: string
  inv_actor_id :: string
  state :: invocation_state
  revision :: u64
  inv_request :: invocation_request
  agent_definition :: "agent_definition_revision option"
  task_iri :: "string option"
  inv_result :: "invocation_result option"
  inv_error :: "invocation_error_info option"
  idempotency_key :: "string option"
  idempotency :: "idempotency_binding option"
  created_at :: string
  updated_at :: string
  started_at :: "string option"
  completed_at :: "string option"
  audit_events :: "audit_event list"

definition is_in_scope :: "invocation \<Rightarrow> isolation_claims \<Rightarrow> bool" where
  "is_in_scope r c \<longleftrightarrow> inv_tenant_id r = tenant_id c \<and> inv_project_id r = project_id c"

text \<open>\<open>Vec::push\<close>, then \<open>drain(..overflow)\<close>.\<close>

definition push_audit :: "audit_event \<Rightarrow> invocation \<Rightarrow> invocation" where
  "push_audit e r =
     (let evs = audit_events r @ [e]
      in r\<lparr>audit_events := (if length evs > MAX_AUDIT_EVENTS
             then drop (length evs - MAX_AUDIT_EVENTS) evs else evs)\<rparr>)"

definition audit_ok :: "invocation \<Rightarrow> bool" where
  "audit_ok r \<longleftrightarrow> length (audit_events r) \<le> MAX_AUDIT_EVENTS"

interpretation audit: bounded_log push_audit audit_events "\<lambda>_. MAX_AUDIT_EVENTS" audit_ok
  by unfold_locales (auto simp: push_audit_def audit_ok_def MAX_AUDIT_EVENTS_def Let_def)

lemma push_audit_frame [frame, simp]:
  "inv_id (push_audit e r) = inv_id r"
  "inv_tenant_id (push_audit e r) = inv_tenant_id r"
  "inv_project_id (push_audit e r) = inv_project_id r"
  "inv_actor_id (push_audit e r) = inv_actor_id r"
  "state (push_audit e r) = state r"
  "revision (push_audit e r) = revision r"
  "inv_request (push_audit e r) = inv_request r"
  "agent_definition (push_audit e r) = agent_definition r"
  "task_iri (push_audit e r) = task_iri r"
  "inv_result (push_audit e r) = inv_result r"
  "inv_error (push_audit e r) = inv_error r"
  "idempotency_key (push_audit e r) = idempotency_key r"
  "idempotency (push_audit e r) = idempotency r"
  "created_at (push_audit e r) = created_at r"
  "updated_at (push_audit e r) = updated_at r"
  "started_at (push_audit e r) = started_at r"
  "completed_at (push_audit e r) = completed_at r"
  by (simp_all add: push_audit_def Let_def)

section \<open>Idempotency bindings\<close>

definition is_live :: "chrono_lib \<Rightarrow> idempotency_binding \<Rightarrow> time \<Rightarrow> bool" where
  "is_live lib b now =
     (case parse_from_rfc3339 lib (expires_at b) of None \<Rightarrow> False | Some t \<Rightarrow> now < t)"

definition has_live_binding :: "chrono_lib \<Rightarrow> invocation \<Rightarrow> time \<Rightarrow> bool" where
  "has_live_binding lib r now =
     (case idempotency r of None \<Rightarrow> False | Some b \<Rightarrow> is_live lib b now)"

definition binds_key ::
  "chrono_lib \<Rightarrow> isolation_claims \<Rightarrow> string \<Rightarrow> time \<Rightarrow> invocation \<Rightarrow> bool" where
  "binds_key lib c key now r \<longleftrightarrow>
     is_in_scope r c \<and> inv_actor_id r = actor_id c \<and> idempotency_key r = Some key
     \<and> has_live_binding lib r now"

section \<open>Entity tags\<close>

definition etag_for_revision :: "u64 \<Rightarrow> string" where
  "etag_for_revision n = CHR 0x22 # show_nat (unat n) @ [CHR 0x22]"

definition etag :: "invocation \<Rightarrow> string" where
  "etag r = etag_for_revision (revision r)"

text \<open>
  The values of all \<open>If-Match\<close> headers; \<open>HeaderValue::to_str\<close> fails unless every byte is
  visible ASCII, a space or a tab. The result is \<open>None\<close> when no check is asked for.
\<close>

datatype invalid_if_match = InvalidIfMatch

definition header_to_str :: "string \<Rightarrow> string option" where
  "header_to_str v =
     (if list_all (\<lambda>b. byte b = 9 \<or> (32 \<le> byte b \<and> byte b < 127)) v then Some v else None)"

definition parse_if_match :: "string list \<Rightarrow> invalid_if_match + u64 option" where
  "parse_if_match values =
     (case values of
        [] \<Rightarrow> Inr None
      | [value] \<Rightarrow>
          and_then (ok_or InvalidIfMatch (map_option trim (header_to_str value))) (\<lambda>raw.
            if raw = ''*'' then Inr None
            else and_then
              (ok_or InvalidIfMatch
                (Option.bind (strip_prefix [CHR 0x22] raw) (strip_suffix [CHR 0x22])))
              (\<lambda>inner. if inner = [] \<or> \<not> list_all is_ascii_digit inner
                 then Inl InvalidIfMatch
                 else ok_or InvalidIfMatch (map_option Some (parse_u64 inner))))
      | _ \<Rightarrow> Inl InvalidIfMatch)"

lemma etag_trim: "trim (etag_for_revision n) = etag_for_revision n"
  unfolding etag_for_revision_def
  by (rule trim_visible) (simp_all add: is_visible_ascii_def)

lemma etag_header: "header_to_str (etag_for_revision n) = Some (etag_for_revision n)"
  using show_nat_digits [of "unat n"]
  by (auto simp: header_to_str_def etag_for_revision_def list_all_iff is_ascii_digit_def)

lemma parse_if_match_etag: "parse_if_match [etag_for_revision n] = Inr (Some n)"
proof -
  let ?q = "[CHR 0x22]" and ?t = "etag_for_revision n" and ?d = "show_nat (unat n)"
  have t: "?t = ?q @ ?d @ ?q" by (simp add: etag_for_revision_def)
  have ne: "?t \<noteq> ''*''" by (simp add: t)
  have inner: "Option.bind (strip_prefix ?q ?t) (strip_suffix ?q) = Some ?d"
    unfolding t strip_prefix_append by (simp add: strip_suffix_append)
  show ?thesis
    by (simp add: parse_if_match_def etag_header etag_trim ne inner show_nat_digits parse_u64_show)
qed

end
