(* ===== verification/Invocation_Store.thy ===== *)
theory Invocation_Store
  imports Invocation_Record
begin

text \<open>
  The claims-scoped store of \<open>src/api/http/invocations_store.rs\<close>: its state is the published
  snapshot, the file behind it and the keys whose create is in flight. Every operation is the
  body of the method under its write lock, with the clock reading, the fresh identifier and the
  outcome of writing the file as arguments. A write serialises the whole snapshot, replaces the
  file by a rename and publishes the snapshot only then.
\<close>

section \<open>State\<close>

type_synonym idempotency_slot = "string \<times> string \<times> string \<times> string"

record invocation_store =
  store_config :: invocation_store_config
  records :: "invocation list"
  disk :: "invocation list option"
  in_flight :: "idempotency_slot set"

datatype invocation_store_error =
    NotFound
  | RevisionConflict u64
  | IllegalTransition invocation_state invocation_state
  | StoreFull
  | TooManyActive
  | Persistence string
  | IdempotencyKeyConflict
  | IdempotencyKeyInProgress
  | InvalidUsage string

text \<open>\<open>fs\<close> says what writing a snapshot does: \<open>None\<close> when the rename succeeds.\<close>

type_synonym file_system = "invocation list \<Rightarrow> string option"

definition persist ::
  "file_system \<Rightarrow> invocation list \<Rightarrow> invocation_store \<Rightarrow> (invocation_store_error + unit) \<times> invocation_store" where
  "persist fs recs st =
     (case fs recs of
        Some e \<Rightarrow> (Inl (Persistence e), st)
      | None \<Rightarrow> (Inr (), st\<lparr>disk := Some recs\<rparr>))"

text \<open>\<open>self.persist(&next)?; *records = next;\<close> and the value returned after it.\<close>

definition commit ::
  "file_system \<Rightarrow> invocation list \<Rightarrow> 'a \<Rightarrow> invocation_store
   \<Rightarrow> (invocation_store_error + 'a) \<times> invocation_store" where
  "commit fs recs x st =
     (case persist fs recs st of
        (Inl e, st') \<Rightarrow> (Inl e, st')
      | (Inr _, st') \<Rightarrow> (Inr x, st'\<lparr>records := recs\<rparr>))"

section \<open>Sweeping\<close>

definition keep_record :: "chrono_lib \<Rightarrow> int \<Rightarrow> time \<Rightarrow> invocation \<Rightarrow> bool" where
  "keep_record lib ret now r =
     (if \<not> is_terminal (state r) then True
      else let done = (case completed_at r of Some t \<Rightarrow> t | None \<Rightarrow> updated_at r)
           in case parse_from_rfc3339 lib done of
                Some t \<Rightarrow> t > now - ret
              | None \<Rightarrow> True)"

definition sweep_expired_records ::
  "chrono_lib \<Rightarrow> int \<Rightarrow> time \<Rightarrow> invocation list \<Rightarrow> invocation list \<times> nat" where
  "sweep_expired_records lib ret now recs =
     (let kept = filter (keep_record lib ret now) recs
      in (kept, length recs - length kept))"

definition binding_expired :: "chrono_lib \<Rightarrow> time \<Rightarrow> invocation \<Rightarrow> bool" where
  "binding_expired lib now r =
     (case idempotency r of None \<Rightarrow> False | Some b \<Rightarrow> \<not> is_live lib b now)"

definition drop_expired_bindings ::
  "chrono_lib \<Rightarrow> time \<Rightarrow> invocation list \<Rightarrow> invocation list \<times> nat" where
  "drop_expired_bindings lib now recs =
     (map (\<lambda>r. if binding_expired lib now r then r\<lparr>idempotency := None\<rparr> else r) recs,
      length (filter (binding_expired lib now) recs))"

definition sweep_expired_at ::
  "chrono_lib \<Rightarrow> file_system \<Rightarrow> time \<Rightarrow> invocation_store \<Rightarrow> (invocation_store_error + nat) \<times> invocation_store" where
  "sweep_expired_at lib fs now st =
     (let (next, swept) = sweep_expired_records lib (retention (store_config st)) now (records st)
      in if swept = 0 then (Inr 0, st) else commit fs next swept st)"

section \<open>Opening the store\<close>

datatype file_read =
    FileRecords "invocation list"
  | FileCorrupt string
  | FileMissing
  | FileUnreadable string

record recovery_report =
  loaded :: nat
  interrupted :: nat
  swept :: nat
  idempotency_expired :: nat

definition recover_record :: "chrono_lib \<Rightarrow> time \<Rightarrow> invocation \<Rightarrow> invocation" where
  "recover_record lib now r =
     (if is_terminal (state r) then r
      else let text = to_rfc3339_micros lib now;
               n = saturating_add (revision r) 1
           in push_audit \<lparr>at = text, ev_from = Some (state r), ev_to = Failed,
                          ev_revision = n, ev_actor_id = SYSTEM_ACTOR_ID\<rparr>
                (r\<lparr>state := Failed, revision := n,
                   inv_error := Some (new_error_info INTERRUPTED_ERROR_CODE
                     ''the process restarted before the invocation finished''),
                   updated_at := text, completed_at := Some text\<rparr>))"

definition open_with_config ::
  "chrono_lib \<Rightarrow> file_system \<Rightarrow> time \<Rightarrow> time \<Rightarrow> file_read \<Rightarrow> invocation_store_config
   \<Rightarrow> invocation_store_error + (invocation_store \<times> recovery_report)" where
  "open_with_config lib fs now started file config =
     and_then
       (case file of
          FileRecords recs \<Rightarrow> Inr (recs, Some recs)
        | FileCorrupt e \<Rightarrow> Inl (Persistence e)
        | FileMissing \<Rightarrow> Inr ([], None)
        | FileUnreadable e \<Rightarrow> Inl (Persistence e))
       (\<lambda>(recs, on_disk).
          let stopped = length (filter (\<lambda>r. \<not> is_terminal (state r)) recs);
              recs1 = map (recover_record lib now) recs;
              (recs2, swept) = sweep_expired_records lib (retention config) started recs1;
              (recs3, expired) = drop_expired_bindings lib started recs2;
              st = \<lparr>store_config = config, records = recs3, disk = on_disk, in_flight = {}\<rparr>;
              report = \<lparr>loaded = length recs1, interrupted = stopped, swept = swept,
                        idempotency_expired = expired\<rparr>
          in if stopped > 0 \<or> swept > 0 \<or> expired > 0
             then (case persist fs recs3 st of
                     (Inl e, _) \<Rightarrow> Inl e
                   | (Inr _, st') \<Rightarrow> Inr (st', report))
             else Inr (st, report))"

section \<open>Creating\<close>

record idempotency_registration =
  reg_key :: string
  reg_fingerprint :: string

record new_invocation =
  new_request :: invocation_request
  new_agent_definition :: "agent_definition_revision option"
  new_task_iri :: "string option"
  new_idempotency :: "idempotency_registration option"

datatype create_outcome = Created invocation | Replayed invocation

definition fingerprint_matches :: "invocation \<Rightarrow> string \<Rightarrow> bool" where
  "fingerprint_matches r fp =
     (case idempotency r of None \<Rightarrow> False | Some b \<Rightarrow> fingerprint b = fp)"

definition is_active_in :: "isolation_claims \<Rightarrow> invocation \<Rightarrow> bool" where
  "is_active_in c r \<longleftrightarrow> \<not> is_terminal (state r) \<and> is_in_scope r c"

definition fresh_record ::
  "chrono_lib \<Rightarrow> invocation_store_config \<Rightarrow> string \<Rightarrow> time \<Rightarrow> isolation_claims \<Rightarrow> new_invocation \<Rightarrow> invocation" where
  "fresh_record lib config new_id now c new =
     (let text = to_rfc3339_micros lib now
      in push_audit \<lparr>at = text, ev_from = None, ev_to = Queued, ev_revision = 1,
                     ev_actor_id = actor_id c\<rparr>
           \<lparr>inv_id = new_id, inv_object = ''invocation'', inv_tenant_id = tenant_id c,
            inv_project_id = project_id c, inv_actor_id = actor_id c, state = Queued,
            revision = 1, inv_request = new_request new,
            agent_definition = new_agent_definition new, task_iri = new_task_iri new,
            inv_result = None, inv_error = None,
            idempotency_key = map_option reg_key (new_idempotency new),
            idempotency = map_option (\<lambda>reg. \<lparr>fingerprint = reg_fingerprint reg,
              expires_at = to_rfc3339_micros lib (now + idempotency_ttl config)\<rparr>)
              (new_idempotency new),
            created_at = text, updated_at = text, started_at = None, completed_at = None,
            audit_events = []\<rparr>)"

definition bound_record ::
  "chrono_lib \<Rightarrow> time \<Rightarrow> isolation_claims \<Rightarrow> idempotency_registration option \<Rightarrow> invocation list \<Rightarrow> invocation option" where
  "bound_record lib now c reg recs =
     (case reg of None \<Rightarrow> None | Some g \<Rightarrow> find (binds_key lib c (reg_key g) now) recs)"

definition create_idempotent_for_claims ::
  "chrono_lib \<Rightarrow> file_system \<Rightarrow> string \<Rightarrow> time \<Rightarrow> isolation_claims \<Rightarrow> new_invocation \<Rightarrow> invocation_store
   \<Rightarrow> (invocation_store_error + create_outcome) \<times> invocation_store" where
  "create_idempotent_for_claims lib fs new_id now c new st =
     (case bound_record lib now c (new_idempotency new) (records st) of
        Some existing \<Rightarrow>
          (if fingerprint_matches existing (reg_fingerprint (the (new_idempotency new)))
           then (Inr (Replayed existing), st)
           else (Inl IdempotencyKeyConflict, st))
      | None \<Rightarrow>
          if length (filter (is_active_in c) (records st)) \<ge> max_active_per_scope (store_config st)
          then (Inl TooManyActive, st)
          else let next = fst (sweep_expired_records lib (retention (store_config st)) now (records st));
                   next = fst (drop_expired_bindings lib now next)
               in if length next \<ge> MAX_STORED_INVOCATIONS then (Inl StoreFull, st)
                  else let r = fresh_record lib (store_config st) new_id now c new
                       in commit fs (next @ [r]) (Created r) st)"

definition create_for_claims ::
  "chrono_lib \<Rightarrow> file_system \<Rightarrow> string \<Rightarrow> time \<Rightarrow> isolation_claims \<Rightarrow> new_invocation \<Rightarrow> invocation_store
   \<Rightarrow> (invocation_store_error + invocation) \<times> invocation_store" where
  "create_for_claims lib fs new_id now c new st =
     (case create_idempotent_for_claims lib fs new_id now c new st of
        (Inl e, st') \<Rightarrow> (Inl e, st')
      | (Inr (Created r), st') \<Rightarrow> (Inr r, st')
      | (Inr (Replayed _), st') \<Rightarrow> (Inl IdempotencyKeyConflict, st'))"

datatype idempotency_lookup = Miss | Replay invocation | Conflict

definition find_idempotent_at ::
  "chrono_lib \<Rightarrow> isolation_claims \<Rightarrow> string \<Rightarrow> string \<Rightarrow> time \<Rightarrow> invocation_store \<Rightarrow> idempotency_lookup" where
  "find_idempotent_at lib c key fp now st =
     (case find (binds_key lib c key now) (records st) of
        None \<Rightarrow> Miss
      | Some existing \<Rightarrow> if fingerprint_matches existing fp then Replay existing else Conflict)"

text \<open>The reservation holds its slot until it is dropped.\<close>

definition slot_of :: "isolation_claims \<Rightarrow> string \<Rightarrow> idempotency_slot" where
  "slot_of c key = (tenant_id c, project_id c, actor_id c, key)"

definition reserve_idempotency_key ::
  "isolation_claims \<Rightarrow> string \<Rightarrow> invocation_store
   \<Rightarrow> (invocation_store_error + idempotency_slot) \<times> invocation_store" where
  "reserve_idempotency_key c key st =
     (if slot_of c key \<in> in_flight st then (Inl IdempotencyKeyInProgress, st)
      else (Inr (slot_of c key), st\<lparr>in_flight := insert (slot_of c key) (in_flight st)\<rparr>))"

definition drop_reservation :: "idempotency_slot \<Rightarrow> invocation_store \<Rightarrow> invocation_store" where
  "drop_reservation s st = st\<lparr>in_flight := in_flight st - {s}\<rparr>"

section \<open>Reading\<close>

definition get_for_claims ::
  "isolation_claims \<Rightarrow> string \<Rightarrow> invocation_store \<Rightarrow> invocation_store_error + invocation" where
  "get_for_claims c i st =
     ok_or NotFound (find (\<lambda>r. inv_id r = i \<and> is_in_scope r c) (records st))"

definition age_key :: "invocation \<Rightarrow> string \<times> string" where
  "age_key r = (created_at r, inv_id r)"

text \<open>A stable sort with a descending comparison.\<close>

definition sort_desc :: "('a \<Rightarrow> 'k :: linorder) \<Rightarrow> 'a list \<Rightarrow> 'a list" where
  "sort_desc key xs = rev (sort_key key (rev xs))"

definition list_for_claims ::
  "isolation_claims \<Rightarrow> invocation_state option \<Rightarrow> invocation_store \<Rightarrow> invocation list" where
  "list_for_claims c wanted st =
     sort_desc age_key
       (filter (\<lambda>r. case wanted of None \<Rightarrow> True | Some s \<Rightarrow> state r = s)
         (filter (\<lambda>r. is_in_scope r c) (records st)))"

definition oldest_queued_in_scope_excluding ::
  "string \<Rightarrow> string \<Rightarrow> string set \<Rightarrow> invocation_store \<Rightarrow> invocation option" where
  "oldest_queued_in_scope_excluding tenant project exclude st =
     min_by_key age_key
       (filter (\<lambda>r. state r = Queued \<and> inv_tenant_id r = tenant \<and> inv_project_id r = project
          \<and> inv_id r \<notin> exclude) (records st))"

definition oldest_queued_global :: "invocation_store \<Rightarrow> invocation option" where
  "oldest_queued_global st = min_by_key age_key (filter (\<lambda>r. state r = Queued) (records st))"

section \<open>Transitions\<close>

record transition_patch =
  patch_result :: "invocation_result option"
  patch_error :: "invocation_error_info option"
  patch_task_iri :: "string option"

definition no_patch :: transition_patch where
  "no_patch = \<lparr>patch_result = None, patch_error = None, patch_task_iri = None\<rparr>"

record transition_outcome =
  outcome_invocation :: invocation
  changed :: bool

definition apply_transition ::
  "chrono_lib \<Rightarrow> time \<Rightarrow> isolation_claims \<Rightarrow> invocation_state \<Rightarrow> transition_patch \<Rightarrow> invocation \<Rightarrow> invocation" where
  "apply_transition lib now c next_state patch r =
     (let text = to_rfc3339_micros lib now;
          n = saturating_add (revision r) 1;
          r1 = r\<lparr>state := next_state, revision := n, updated_at := text\<rparr>;
          r2 = (if next_state = Running \<and> started_at r1 = None
                then r1\<lparr>started_at := Some text\<rparr> else r1);
          r3 = (if is_terminal next_state then r2\<lparr>completed_at := Some text\<rparr> else r2);
          r4 = (case patch_result patch of None \<Rightarrow> r3 | Some x \<Rightarrow> r3\<lparr>inv_result := Some x\<rparr>);
          r5 = (case patch_error patch of None \<Rightarrow> r4
                | Some e \<Rightarrow> r4\<lparr>inv_error := Some (new_error_info (code e) (message e))\<rparr>);
          r6 = (case patch_task_iri patch of None \<Rightarrow> r5 | Some x \<Rightarrow> r5\<lparr>task_iri := Some x\<rparr>)
      in push_audit \<lparr>at = text, ev_from = Some (state r), ev_to = next_state, ev_revision = n,
                     ev_actor_id = actor_id c\<rparr> r6)"

definition patch_usage :: "transition_patch \<Rightarrow> invocation_usage option" where
  "patch_usage patch = Option.bind (patch_result patch) usage"

definition transition_outcome_for_claims ::
  "chrono_lib \<Rightarrow> file_system \<Rightarrow> time \<Rightarrow> isolation_claims \<Rightarrow> string \<Rightarrow> u64 option \<Rightarrow> invocation_state
   \<Rightarrow> transition_patch \<Rightarrow> invocation_store
   \<Rightarrow> (invocation_store_error + transition_outcome) \<times> invocation_store" where
  "transition_outcome_for_claims lib fs now c i expected next_state patch st =
     (case (case patch_usage patch of None \<Rightarrow> Inr () | Some u \<Rightarrow> map_err InvalidUsage (validate_usage u)) of
        Inl e \<Rightarrow> (Inl e, st)
      | Inr _ \<Rightarrow>
        (case position (\<lambda>r. inv_id r = i \<and> is_in_scope r c) (records st) of
           None \<Rightarrow> (Inl NotFound, st)
         | Some index \<Rightarrow>
             let current = records st ! index
             in if state current = next_state
                then (Inr \<lparr>outcome_invocation = current, changed = False\<rparr>, st)
                else if (case expected of None \<Rightarrow> False | Some n \<Rightarrow> n \<noteq> revision current)
                then (Inl (RevisionConflict (revision current)), st)
                else if is_terminal (state current)
                     \<or> \<not> permits_with (state current) next_state (patch_error patch)
                then (Inl (IllegalTransition (state current) next_state), st)
                else let updated = apply_transition lib now c next_state patch current
                     in commit fs ((records st)[index := updated])
                          \<lparr>outcome_invocation = updated, changed = True\<rparr> st))"

definition transition_for_claims ::
  "chrono_lib \<Rightarrow> file_system \<Rightarrow> time \<Rightarrow> isolation_claims \<Rightarrow> string \<Rightarrow> u64 option \<Rightarrow> invocation_state
   \<Rightarrow> transition_patch \<Rightarrow> invocation_store \<Rightarrow> (invocation_store_error + invocation) \<times> invocation_store" where
  "transition_for_claims lib fs now c i expected next_state patch st =
     (case transition_outcome_for_claims lib fs now c i expected next_state patch st of
        (r, st') \<Rightarrow> (and_then r (\<lambda>out. Inr (outcome_invocation out)), st'))"

end
