(* ===== verification/Store_Invariants.thy ===== *)
theory Store_Invariants
  imports Invocation_Store
begin

text \<open>
  The invariant of the invocation store and its preservation: every record is well formed (its
  bounded audit trail ends in its current state and revision, it has a completion time exactly
  when it is terminal, its error is bounded and its usage valid), identifiers are distinct, no
  scope exceeds its active limit, at most one record of an idempotency slot holds a binding,
  and the file holds exactly what memory publishes.
\<close>

section \<open>Case analysis of the operations\<close>

lemma commit_cases:
  "commit fs recs x st = (res, st') \<Longrightarrow>
     (\<exists>e. fs recs = Some e \<and> res = Inl (Persistence e) \<and> st' = st) \<or>
     (fs recs = None \<and> res = Inr x \<and> st' = st\<lparr>disk := Some recs, records := recs\<rparr>)"
  by (auto simp: commit_def persist_def split: option.splits)

lemma commit_Inr:
  "commit fs recs x st = (Inr y, st') \<longleftrightarrow>
     fs recs = None \<and> y = x \<and> st' = st\<lparr>disk := Some recs, records := recs\<rparr>"
  by (auto simp: commit_def persist_def split: option.splits)

lemma commit_Inl:
  "commit fs recs x st = (Inl e, st') \<longleftrightarrow>
     (\<exists>m. fs recs = Some m \<and> e = Persistence m) \<and> st' = st"
  by (auto simp: commit_def persist_def split: option.splits)

definition unbind :: "chrono_lib \<Rightarrow> time \<Rightarrow> invocation \<Rightarrow> invocation" where
  "unbind lib now r = (if binding_expired lib now r then r\<lparr>idempotency := None\<rparr> else r)"

definition maintained :: "chrono_lib \<Rightarrow> time \<Rightarrow> invocation_store \<Rightarrow> invocation list" where
  "maintained lib now st = map (unbind lib now)
     (filter (keep_record lib (retention (store_config st)) now) (records st))"

lemma maintained_eq:
  "fst (drop_expired_bindings lib now
     (fst (sweep_expired_records lib (retention (store_config st)) now (records st))))
   = maintained lib now st"
  by (simp add: drop_expired_bindings_def sweep_expired_records_def maintained_def unbind_def [abs_def] Let_def)

lemma unbind_frame [frame, simp]:
  "inv_id (unbind lib now r) = inv_id r"
  "inv_tenant_id (unbind lib now r) = inv_tenant_id r"
  "inv_project_id (unbind lib now r) = inv_project_id r"
  "inv_actor_id (unbind lib now r) = inv_actor_id r"
  "state (unbind lib now r) = state r"
  "revision (unbind lib now r) = revision r"
  "inv_result (unbind lib now r) = inv_result r"
  "inv_error (unbind lib now r) = inv_error r"
  "idempotency_key (unbind lib now r) = idempotency_key r"
  "completed_at (unbind lib now r) = completed_at r"
  "audit_events (unbind lib now r) = audit_events r"
  by (simp_all add: unbind_def)

lemma unbind_binding: "idempotency (unbind lib now r) = Some b \<Longrightarrow> idempotency r = Some b \<and> is_live lib b now"
  by (auto simp: unbind_def binding_expired_def split: if_splits option.splits)

lemma is_in_scope_unbind [simp]: "is_in_scope (unbind lib now r) c = is_in_scope r c"
  by (simp add: is_in_scope_def)

lemma create_Created:
  assumes "create_idempotent_for_claims lib fs new_id now c new st = (Inr (Created r), st')"
  shows "bound_record lib now c (new_idempotency new) (records st) = None"
    and "length (filter (is_active_in c) (records st)) < max_active_per_scope (store_config st)"
    and "length (maintained lib now st) < MAX_STORED_INVOCATIONS"
    and "r = fresh_record lib (store_config st) new_id now c new"
    and "st' = st\<lparr>disk := Some (maintained lib now st @ [r]), records := maintained lib now st @ [r]\<rparr>"
    and "fs (maintained lib now st @ [r]) = None"
  using assms
  by (auto simp: create_idempotent_for_claims_def maintained_eq Let_def commit_Inr
      split: option.splits if_splits)

lemma create_not_Created:
  assumes "create_idempotent_for_claims lib fs new_id now c new st = (res, st')"
    and "\<And>r. res \<noteq> Inr (Created r)"
  shows "st' = st"
  using assms
  by (auto simp: create_idempotent_for_claims_def Let_def
      split: option.splits if_splits dest!: commit_cases)

lemma create_Replayed:
  assumes "create_idempotent_for_claims lib fs new_id now c new st = (Inr (Replayed r), st')"
  shows "\<exists>reg. new_idempotency new = Some reg \<and> r \<in> set (records st) \<and>
    binds_key lib c (reg_key reg) now r \<and> fingerprint_matches r (reg_fingerprint reg)"
  using assms
  by (auto simp: create_idempotent_for_claims_def bound_record_def Let_def find_Some_iff commit_Inr
      split: option.splits if_splits)

text \<open>The frame of a transition: what it finds, and what it writes.\<close>

lemma transition_changed:
  assumes "transition_outcome_for_claims lib fs now c i expected t patch st = (Inr out, st')"
    and "changed out"
  obtains k r where "position (\<lambda>r. inv_id r = i \<and> is_in_scope r c) (records st) = Some k"
    and "k < length (records st)" and "r = records st ! k" and "inv_id r = i" and "is_in_scope r c"
    and "\<not> is_terminal (state r)" and "permits_with (state r) t (patch_error patch)"
    and "state r \<noteq> t"
    and "\<And>n. expected = Some n \<Longrightarrow> n = revision r"
    and "\<And>u. patch_usage patch = Some u \<Longrightarrow> usage_ok u"
    and "outcome_invocation out = apply_transition lib now c t patch r"
    and "st' = st\<lparr>disk := Some ((records st)[k := apply_transition lib now c t patch r]),
      records := (records st)[k := apply_transition lib now c t patch r]\<rparr>"
proof -
  from assms obtain k where
    k: "position (\<lambda>r. inv_id r = i \<and> is_in_scope r c) (records st) = Some k"
    by (auto simp: transition_outcome_for_claims_def split: option.splits sum.splits)
  note m = position_SomeD [OF this]
  show thesis
    by (rule that [of k "records st ! k", OF k])
      (use assms k m in \<open>auto simp: transition_outcome_for_claims_def Let_def commit_Inr
        split: option.splits sum.splits if_splits\<close>)
qed

lemma transition_unchanged:
  assumes "transition_outcome_for_claims lib fs now c i expected t patch st = (Inr out, st')"
    and "\<not> changed out"
  shows "st' = st \<and> get_for_claims c i st = Inr (outcome_invocation out)
    \<and> state (outcome_invocation out) = t"
  using assms
  by (auto simp: transition_outcome_for_claims_def get_for_claims_def find_position Let_def
      commit_Inr split: option.splits sum.splits if_splits)

lemma transition_error:
  assumes "transition_outcome_for_claims lib fs now c i expected t patch st = (Inl e, st')"
  shows "st' = st"
  using assms
  by (auto simp: transition_outcome_for_claims_def Let_def commit_Inl
      split: option.splits sum.splits if_splits)

lemma transition_no_change:
  assumes "transition_outcome_for_claims lib fs now c i expected t patch st = (res, st')"
    and "\<nexists>out. res = Inr out \<and> changed out"
  shows "st' = st"
proof (cases res)
  case (Inl e)
  then show ?thesis using assms transition_error by blast
next
  case (Inr out)
  then show ?thesis using assms transition_unchanged by blast
qed

lemma apply_transition_fields [simp]:
  "inv_id (apply_transition lib now c t patch r) = inv_id r"
  "inv_tenant_id (apply_transition lib now c t patch r) = inv_tenant_id r"
  "inv_project_id (apply_transition lib now c t patch r) = inv_project_id r"
  "inv_actor_id (apply_transition lib now c t patch r) = inv_actor_id r"
  "state (apply_transition lib now c t patch r) = t"
  "revision (apply_transition lib now c t patch r) = saturating_add (revision r) 1"
  "idempotency_key (apply_transition lib now c t patch r) = idempotency_key r"
  "idempotency (apply_transition lib now c t patch r) = idempotency r"
  "created_at (apply_transition lib now c t patch r) = created_at r"
  by (simp_all add: apply_transition_def Let_def split: option.split)

lemma is_in_scope_transition [simp]:
  "is_in_scope (apply_transition lib now c t patch r) d = is_in_scope r d"
  by (simp add: is_in_scope_def)

section \<open>Well-formed records\<close>

definition error_bounded :: "invocation \<Rightarrow> bool" where
  "error_bounded r \<longleftrightarrow> (\<forall>e. inv_error r = Some e \<longrightarrow> length (message e) \<le> MAX_ERROR_MESSAGE_BYTES)"

definition usage_valid :: "invocation \<Rightarrow> bool" where
  "usage_valid r \<longleftrightarrow> (\<forall>x u. inv_result r = Some x \<longrightarrow> usage x = Some u \<longrightarrow> usage_ok u)"

definition audit_current :: "invocation \<Rightarrow> bool" where
  "audit_current r \<longleftrightarrow> audit_events r \<noteq> [] \<and> ev_to (last (audit_events r)) = state r
     \<and> ev_revision (last (audit_events r)) = revision r"

text \<open>Each entry of the trail starts where the one before it ended, one revision later.\<close>

definition audit_link :: "audit_event \<Rightarrow> audit_event \<Rightarrow> bool" where
  "audit_link a b \<longleftrightarrow> ev_from b = Some (ev_to a) \<and> stage (ev_to a) < stage (ev_to b)
     \<and> ev_revision b = saturating_add (ev_revision a) 1"

fun audit_linked :: "audit_event list \<Rightarrow> bool" where
  "audit_linked (a # b # es) \<longleftrightarrow> audit_link a b \<and> audit_linked (b # es)"
| "audit_linked _ \<longleftrightarrow> True"

lemma audit_linked_snoc:
  "audit_linked (es @ [e]) \<longleftrightarrow> audit_linked es \<and> (es \<noteq> [] \<longrightarrow> audit_link (last es) e)"
  by (induction es rule: audit_linked.induct) auto

lemma audit_linked_drop: "audit_linked es \<Longrightarrow> audit_linked (drop n es)"
proof (induction es arbitrary: n rule: audit_linked.induct)
  case (1 a b es)
  then show ?case by (cases n) auto
qed (auto simp: drop_Cons split: nat.splits)

lemma audit_linked_stages:
  "audit_linked es \<Longrightarrow> es \<noteq> [] \<Longrightarrow> stage (ev_to (hd es)) + length es \<le> Suc (stage (ev_to (last es)))"
  by (induction es rule: audit_linked.induct) (auto simp: audit_link_def)

lemma stage_le: "stage s \<le> 3"
  by (cases s) auto

text \<open>No trail is ever longer than the lifecycle: the bound of the trail never cuts it.\<close>

lemma audit_linked_length: "audit_linked es \<Longrightarrow> length es \<le> 4"
  using audit_linked_stages [of es] stage_le [of "ev_to (last es)"] by (cases "es = []") auto

definition record_ok :: "invocation \<Rightarrow> bool" where
  "record_ok r \<longleftrightarrow> audit_ok r \<and> audit_current r \<and> audit_linked (audit_events r)
     \<and> (is_terminal (state r) \<longleftrightarrow> completed_at r \<noteq> None) \<and> error_bounded r \<and> usage_valid r"

lemma audit_current_push:
  assumes "audit_ok r" and "ev_to e = state r" and "ev_revision e = revision r"
  shows "audit_current (push_audit e r)"
  using audit.newest_kept [OF assms(1), of e] assms by (simp add: audit_current_def)

lemma audit_linked_push:
  assumes "audit_linked (audit_events r)" and "audit_link (last (audit_events r)) e"
  shows "audit_linked (audit_events (push_audit e r))"
proof -
  have "audit_linked (audit_events r @ [e])"
    using assms by (simp add: audit_linked_snoc)
  then show ?thesis
    using audit_linked_drop [of "audit_events r @ [e]"] by (simp add: push_audit_def Let_def del: drop_append)
qed

lemma record_ok_push:
  assumes "record_ok r" and "audit_events q = audit_events r"
    and "ev_from e = Some (state r)" and "ev_to e = state q" and "stage (state r) < stage (state q)"
    and "ev_revision e = saturating_add (revision r) 1" and "revision q = ev_revision e"
    and "is_terminal (state q) \<longleftrightarrow> completed_at q \<noteq> None" and "error_bounded q" and "usage_valid q"
  shows "record_ok (push_audit e q)"
proof -
  have "audit_ok q" "audit_linked (audit_events q)" "audit_events q \<noteq> []"
    and "audit_link (last (audit_events q)) e"
    using assms by (auto simp: record_ok_def audit_ok_def audit_current_def audit_link_def)
  then show ?thesis
    using assms(4-) audit_current_push [of q e] audit_linked_push [of q e] audit.ok_push [of q e]
    by (simp add: record_ok_def error_bounded_def usage_valid_def)
qed

lemma record_ok_fresh [invs]: "record_ok (fresh_record lib config new_id now c new)"
  by (simp add: record_ok_def fresh_record_def Let_def push_audit_def audit_ok_def audit_current_def
      error_bounded_def usage_valid_def MAX_AUDIT_EVENTS_def)

lemma record_ok_unbind [invs]: "record_ok r \<Longrightarrow> record_ok (unbind lib now r)"
  by (simp add: record_ok_def audit_ok_def audit_current_def error_bounded_def usage_valid_def)

lemma record_ok_recover [invs]: "record_ok r \<Longrightarrow> record_ok (recover_record lib now r)"
  unfolding recover_record_def Let_def
  by (auto simp: record_ok_def [of r] error_bounded_def usage_valid_def new_error_info_bounded
      terminal_iff_stage le_neq_implies_less stage_le intro!: record_ok_push [of r])

lemma record_ok_transition [invs]:
  assumes "record_ok r" and "permits_with (state r) t (patch_error patch)"
    and "\<And>u. patch_usage patch = Some u \<Longrightarrow> usage_ok u"
  shows "record_ok (apply_transition lib now c t patch r)"
proof -
  have "\<not> is_terminal (state r)" using assms(2) terminal_no_edge by blast
  then have r: "completed_at r = None" "error_bounded r" "usage_valid r"
    using assms(1) by (auto simp: record_ok_def)
  show ?thesis
    unfolding apply_transition_def Let_def
    by (rule record_ok_push [OF assms(1)])
      (use assms(3) permits_with_stage [OF assms(2)] r in \<open>auto simp: error_bounded_def usage_valid_def
        new_error_info_bounded patch_usage_def split: option.splits\<close>)
qed

section \<open>Well-formed stores\<close>

definition same_slot :: "invocation \<Rightarrow> invocation \<Rightarrow> bool" where
  "same_slot r q \<longleftrightarrow> inv_tenant_id r = inv_tenant_id q \<and> inv_project_id r = inv_project_id q
     \<and> inv_actor_id r = inv_actor_id q \<and> idempotency_key r = idempotency_key q"

text \<open>Two records with a binding in one slot are the same record.\<close>

definition bindings_unique :: "invocation list \<Rightarrow> bool" where
  "bindings_unique recs \<longleftrightarrow>
     (\<forall>r \<in> set recs. \<forall>q \<in> set recs. idempotency r \<noteq> None \<longrightarrow> idempotency q \<noteq> None
        \<longrightarrow> same_slot r q \<longrightarrow> inv_id r = inv_id q)"

definition keyed :: "invocation \<Rightarrow> bool" where
  "keyed r \<longleftrightarrow> (idempotency r \<noteq> None \<longrightarrow> idempotency_key r \<noteq> None)"

definition within_active_limit :: "invocation_store_config \<Rightarrow> invocation list \<Rightarrow> bool" where
  "within_active_limit cfg recs \<longleftrightarrow>
     (\<forall>c. length (filter (is_active_in c) recs) \<le> max_active_per_scope cfg)"

definition file_current :: "invocation_store \<Rightarrow> bool" where
  "file_current st \<longleftrightarrow> records st = (case disk st of None \<Rightarrow> [] | Some recs \<Rightarrow> recs)"

lemma file_current_written: "disk st = Some (records st) \<Longrightarrow> file_current st"
  by (simp add: file_current_def)

definition store_ok :: "invocation_store \<Rightarrow> bool" where
  "store_ok st \<longleftrightarrow> (\<forall>r \<in> set (records st). record_ok r \<and> keyed r)
     \<and> distinct (map inv_id (records st)) \<and> length (records st) \<le> MAX_STORED_INVOCATIONS
     \<and> within_active_limit (store_config st) (records st) \<and> bindings_unique (records st)
     \<and> file_current st"

lemma set_maintained:
  "r \<in> set (maintained lib now st) \<Longrightarrow>
     \<exists>q \<in> set (records st). r = unbind lib now q \<and> keep_record lib (retention (store_config st)) now q"
  by (auto simp: maintained_def)

lemma ids_maintained: "map inv_id (maintained lib now st)
    = map inv_id (filter (keep_record lib (retention (store_config st)) now) (records st))"
  by (simp add: maintained_def)

lemma distinct_ids_maintained:
  "distinct (map inv_id (records st)) \<Longrightarrow> distinct (map inv_id (maintained lib now st))"
  by (simp add: ids_maintained distinct_map_filter)

lemma id_in_maintained:
  "x \<in> inv_id ` set (maintained lib now st) \<Longrightarrow> x \<in> inv_id ` set (records st)"
  by (auto simp: maintained_def)

lemma length_filter_filter_le: "length (filter P (filter Q xs)) \<le> length (filter P xs)"
  by (induction xs) auto

lemma active_maintained:
  "length (filter (is_active_in c) (maintained lib now st)) \<le> length (filter (is_active_in c) (records st))"
proof -
  have "filter (is_active_in c) (map (unbind lib now) xs) = map (unbind lib now) (filter (is_active_in c) xs)"
    for xs
    by (induction xs) (auto simp: is_active_in_def)
  then have "length (filter (is_active_in c) (maintained lib now st))
      = length (filter (is_active_in c)
          (filter (keep_record lib (retention (store_config st)) now) (records st)))"
    by (simp add: maintained_def)
  also have "\<dots> \<le> length (filter (is_active_in c) (records st))"
    by (rule length_filter_filter_le)
  finally show ?thesis .
qed

lemma keyed_unbind: "keyed r \<Longrightarrow> keyed (unbind lib now r)"
  by (auto simp: keyed_def unbind_def)

lemma same_slot_unbind [simp]:
  "same_slot (unbind lib now r) q = same_slot r q" "same_slot r (unbind lib now q) = same_slot r q"
  by (simp_all add: same_slot_def)

lemma unbind_bound: "idempotency (unbind lib now r) \<noteq> None \<Longrightarrow> idempotency r \<noteq> None"
  by (auto simp: unbind_def split: if_splits)

lemma bindings_unique_unbind:
  assumes "bindings_unique recs"
  shows "bindings_unique (map (unbind lib now) recs)"
  unfolding bindings_unique_def
proof (intro ballI impI)
  fix r q
  assume mem: "r \<in> set (map (unbind lib now) recs)" "q \<in> set (map (unbind lib now) recs)"
    and b: "idempotency r \<noteq> None" "idempotency q \<noteq> None" and s: "same_slot r q"
  then obtain r0 q0 where "r = unbind lib now r0" "r0 \<in> set recs" "q = unbind lib now q0" "q0 \<in> set recs"
    by auto
  then show "inv_id r = inv_id q"
    using assms b s unbind_bound [of lib now r0] unbind_bound [of lib now q0]
    by (simp add: bindings_unique_def)
qed

lemma bindings_unique_subset:
  "bindings_unique recs \<Longrightarrow> set recs' \<subseteq> set recs \<Longrightarrow> bindings_unique recs'"
  unfolding bindings_unique_def by blast

lemma bindings_unique_maintained:
  "bindings_unique (records st) \<Longrightarrow> bindings_unique (maintained lib now st)"
  unfolding maintained_def by (rule bindings_unique_unbind, erule bindings_unique_subset) auto

text \<open>A slot that binds nothing live binds nothing at all after maintenance.\<close>

lemma slot_free_after_maintenance:
  assumes free: "bound_record lib now c (Some reg) (records st) = None"
    and r: "r \<in> set (maintained lib now st)" and b: "idempotency r \<noteq> None"
    and slot: "inv_tenant_id r = tenant_id c" "inv_project_id r = project_id c"
      "inv_actor_id r = actor_id c" "idempotency_key r = Some (reg_key reg)"
  shows False
proof -
  obtain q where q: "q \<in> set (records st)" "r = unbind lib now q"
    using set_maintained [OF r] by blast
  obtain b' where "idempotency q = Some b'" "is_live lib b' now"
    using b q(2) unbind_binding by blast
  then have "binds_key lib c (reg_key reg) now q"
    using slot q(2) by (simp add: binds_key_def has_live_binding_def is_in_scope_def)
  then show False
    using free q(1) by (auto simp: bound_record_def find_None_iff)
qed

section \<open>Preservation\<close>

lemma fresh_record_fields [simp]:
  "inv_id (fresh_record lib cfg i now c new) = i"
  "inv_tenant_id (fresh_record lib cfg i now c new) = tenant_id c"
  "inv_project_id (fresh_record lib cfg i now c new) = project_id c"
  "inv_actor_id (fresh_record lib cfg i now c new) = actor_id c"
  "state (fresh_record lib cfg i now c new) = Queued"
  "revision (fresh_record lib cfg i now c new) = 1"
  "idempotency_key (fresh_record lib cfg i now c new) = map_option reg_key (new_idempotency new)"
  "idempotency (fresh_record lib cfg i now c new) = map_option (\<lambda>reg.
     \<lparr>fingerprint = reg_fingerprint reg,
      expires_at = to_rfc3339_micros lib (now + idempotency_ttl cfg)\<rparr>) (new_idempotency new)"
  by (simp_all add: fresh_record_def Let_def)

lemma keyed_fresh: "keyed (fresh_record lib cfg i now c new)"
  by (simp add: keyed_def)

lemma is_active_fresh: "is_active_in d (fresh_record lib cfg i now c new) \<longleftrightarrow>
    tenant_id c = tenant_id d \<and> project_id c = project_id d"
  by (simp add: is_active_in_def is_in_scope_def)

lemma is_active_in_scope_eq:
  "tenant_id c = tenant_id d \<Longrightarrow> project_id c = project_id d \<Longrightarrow> is_active_in c = is_active_in d"
  by (rule ext) (simp add: is_active_in_def is_in_scope_def)

lemma within_active_limit_create:
  assumes "within_active_limit (store_config st) (records st)"
    and "length (filter (is_active_in c) (records st)) < max_active_per_scope (store_config st)"
  shows "within_active_limit (store_config st)
    (maintained lib now st @ [fresh_record lib (store_config st) i now c new])"
  unfolding within_active_limit_def
proof
  fix d
  have "length (filter (is_active_in d) (maintained lib now st)) \<le> length (filter (is_active_in d) (records st))"
    by (rule active_maintained)
  then show "length (filter (is_active_in d)
      (maintained lib now st @ [fresh_record lib (store_config st) i now c new]))
      \<le> max_active_per_scope (store_config st)"
    using assms is_active_in_scope_eq [of c d]
    by (fastforce simp: is_active_fresh within_active_limit_def dest: spec [of _ d])
qed

lemma bindings_unique_create:
  assumes uniq: "bindings_unique (records st)"
    and free: "bound_record lib now c (new_idempotency new) (records st) = None"
  shows "bindings_unique (maintained lib now st @ [fresh_record lib (store_config st) i now c new])"
proof -
  let ?f = "fresh_record lib (store_config st) i now c new"
  have new_slot: "\<not> (same_slot r ?f \<or> same_slot ?f r)"
    if r: "r \<in> set (maintained lib now st)" "idempotency r \<noteq> None" "idempotency ?f \<noteq> None" for r
  proof -
    from r(3) obtain reg where reg: "new_idempotency new = Some reg" by auto
    show ?thesis
      using slot_free_after_maintenance [OF free [unfolded reg] r(1,2)]
      by (auto simp: same_slot_def reg)
  qed
  show ?thesis
    using bindings_unique_maintained [OF uniq, of lib now] new_slot
    unfolding bindings_unique_def by auto
qed

lemma store_ok_create [invs]:
  assumes ok: "store_ok st" and fresh: "new_id \<notin> inv_id ` set (records st)"
    and step: "create_idempotent_for_claims lib fs new_id now c new st = (res, st')"
  shows "store_ok st'"
proof (cases "\<exists>r. res = Inr (Created r)")
  case False
  then show ?thesis using create_not_Created [OF step] ok by blast
next
  case True
  then obtain r where r: "res = Inr (Created r)" by blast
  note f = create_Created [OF step [unfolded r]]
  have recs: "\<forall>q \<in> set (maintained lib now st @ [r]). record_ok q \<and> keyed q"
    using ok f(4)
    by (auto simp: store_ok_def dest!: set_maintained
        intro!: record_ok_fresh record_ok_unbind keyed_unbind keyed_fresh)
  have ids: "distinct (map inv_id (maintained lib now st @ [r]))"
    using ok fresh f(4) distinct_ids_maintained [of st lib now] id_in_maintained [of new_id lib now st]
    by (auto simp: store_ok_def)
  show ?thesis
    unfolding store_ok_def f(5)
    using recs ids f(3) within_active_limit_create [of st c lib now new_id new]
      bindings_unique_create [of st lib now c new new_id] ok f(1,2,4)
    by (auto simp: store_ok_def file_current_def)
qed

text \<open>The part of a record that the slot condition looks at.\<close>

definition bind_view :: "invocation \<Rightarrow> bool \<times> string \<times> string \<times> string \<times> string option \<times> string" where
  "bind_view r = (idempotency r \<noteq> None, inv_tenant_id r, inv_project_id r, inv_actor_id r,
     idempotency_key r, inv_id r)"

lemma bindings_unique_view:
  "bindings_unique recs \<longleftrightarrow> (\<forall>(b, t, p, a, k, i) \<in> bind_view ` set recs.
     \<forall>(b', t', p', a', k', i') \<in> bind_view ` set recs.
       b \<longrightarrow> b' \<longrightarrow> (t, p, a, k) = (t', p', a', k') \<longrightarrow> i = i')"
  by (auto simp: bindings_unique_def bind_view_def same_slot_def)

lemma bindings_unique_cong:
  assumes "map bind_view recs = map bind_view recs'"
  shows "bindings_unique recs = bindings_unique recs'"
  using assms unfolding bindings_unique_view set_map [symmetric] by (rule arg_cong)

lemma within_active_limit_subset:
  "within_active_limit cfg recs \<Longrightarrow> within_active_limit cfg (filter P recs)"
  unfolding within_active_limit_def using length_filter_filter_le order_trans by blast

lemma store_ok_transition [invs]:
  assumes ok: "store_ok st"
    and step: "transition_outcome_for_claims lib fs now c i expected t patch st = (res, st')"
  shows "store_ok st'"
proof (cases "\<exists>out. res = Inr out \<and> changed out")
  case False
  then have "st' = st"
    by (rule transition_no_change [OF step])
  with ok show ?thesis by simp
next
  case True
  then obtain out where out: "res = Inr out" "changed out" by blast
  from transition_changed [OF step [unfolded out(1)] out(2)] obtain k r where
    k: "k < length (records st)" "r = records st ! k" and r: "permits_with (state r) t (patch_error patch)"
      "\<not> is_terminal (state r)"
    and use: "\<And>u. patch_usage patch = Some u \<Longrightarrow> usage_ok u"
    and st'_eq: "st' = st\<lparr>disk := Some ((records st)[k := apply_transition lib now c t patch r]),
      records := (records st)[k := apply_transition lib now c t patch r]\<rparr>"
    by blast
  let ?u = "apply_transition lib now c t patch r"
  have st': "records st' = (records st)[k := ?u]" "disk st' = Some (records st')"
    "store_config st' = store_config st"
    by (simp_all add: st'_eq)
  have mem: "r \<in> set (records st)" using k by simp
  have same_ids: "map inv_id (records st') = map inv_id (records st)"
    unfolding st'(1) using k by (intro map_update_same) simp
  have view: "map bind_view (records st') = map bind_view (records st)"
    unfolding st'(1) using k by (intro map_update_same) (simp add: bind_view_def)
  have recs: "\<forall>q \<in> set (records st'). record_ok q \<and> keyed q"
  proof
    fix q assume "q \<in> set (records st')"
    then consider "q = ?u" | "q \<in> set (records st)"
      using set_update_subset_insert [of "records st" k ?u] st'(1) by auto
    then show "record_ok q \<and> keyed q"
      using ok mem r use by cases (auto simp: store_ok_def record_ok_transition keyed_def)
  qed
  have "within_active_limit (store_config st) (records st')"
    unfolding within_active_limit_def
  proof
    fix d
    have "length (filter (is_active_in d) (records st')) \<le> length (filter (is_active_in d) (records st))"
      unfolding st'(1) using k(2) r length_filter_update [OF k(1), of "is_active_in d" ?u]
      by (auto simp: is_active_in_def split: if_splits)
    then show "length (filter (is_active_in d) (records st')) \<le> max_active_per_scope (store_config st)"
      using ok order_trans unfolding store_ok_def within_active_limit_def by blast
  qed
  moreover have "length (records st') = length (records st)" by (simp add: st'(1))
  ultimately show ?thesis
    using ok st'(2,3) recs same_ids bindings_unique_cong [OF view] by (simp add: store_ok_def file_current_written)
qed

lemma store_ok_sweep [invs]:
  assumes "store_ok st" and "sweep_expired_at lib fs now st = (res, st')"
  shows "store_ok st'"
proof -
  let ?k = "keep_record lib (retention (store_config st)) now"
  have "bindings_unique (filter ?k (records st))"
    using assms(1) bindings_unique_subset [of "records st"] by (auto simp: store_ok_def)
  moreover have "length (filter ?k (records st)) \<le> MAX_STORED_INVOCATIONS"
    using assms(1) length_filter_le order_trans unfolding store_ok_def by blast
  ultimately show ?thesis
    using assms
    by (auto simp: store_ok_def sweep_expired_at_def sweep_expired_records_def Let_def file_current_def
        distinct_map_filter within_active_limit_subset split: if_splits dest!: commit_cases)
qed

lemma file_current_in_flight: "file_current (st\<lparr>in_flight := s\<rparr>) = file_current st"
  by (simp add: file_current_def)

lemma store_ok_in_flight [invs]: "store_ok st \<Longrightarrow> store_ok (st\<lparr>in_flight := s\<rparr>)"
  by (simp add: store_ok_def file_current_in_flight)

lemma store_ok_reserve [invs]:
  "store_ok st \<Longrightarrow> reserve_idempotency_key c key st = (res, st') \<Longrightarrow> store_ok st'"
  by (auto simp: reserve_idempotency_key_def store_ok_in_flight split: if_splits)

lemma store_ok_drop [invs]: "store_ok st \<Longrightarrow> store_ok (drop_reservation s st)"
  by (simp add: drop_reservation_def store_ok_in_flight)

end
