(* ===== verification/Store_System.thy ===== *)
theory Store_System
  imports Store_Invariants
begin

text \<open>
  The invocation store as a system: the operations as labels, the steps and the reachable
  states of a store over any number of process restarts, the invariant in every reachable
  state, and what one record's history can look like. Each label is one critical section of the
  write lock, so every interleaving of concurrent handlers is a sequence of labels.
\<close>

section \<open>Opening and recovery\<close>

lemma recover_record_fields [simp]:
  "inv_id (recover_record lib now r) = inv_id r"
  "inv_tenant_id (recover_record lib now r) = inv_tenant_id r"
  "inv_project_id (recover_record lib now r) = inv_project_id r"
  "inv_actor_id (recover_record lib now r) = inv_actor_id r"
  "idempotency_key (recover_record lib now r) = idempotency_key r"
  "idempotency (recover_record lib now r) = idempotency r"
  "is_terminal (state (recover_record lib now r))"
  by (simp_all add: recover_record_def Let_def)

lemma keyed_recover: "keyed r \<Longrightarrow> keyed (recover_record lib now r)"
  by (simp add: keyed_def)

definition reopened :: "chrono_lib \<Rightarrow> time \<Rightarrow> time \<Rightarrow> invocation_store_config \<Rightarrow> invocation list \<Rightarrow> invocation list" where
  "reopened lib now started cfg recs = map (unbind lib started)
     (filter (keep_record lib (retention cfg) started) (map (recover_record lib now) recs))"

lemma map_recover_id: "filter (\<lambda>r. \<not> is_terminal (state r)) recs = [] \<Longrightarrow> map (recover_record lib now) recs = recs"
  by (induction recs) (auto simp: recover_record_def split: if_splits)

lemma filter_same_length: "length (filter P xs) = length xs \<Longrightarrow> filter P xs = xs"
  by (metis filter_False filter_id_conv length_filter_less less_irrefl)

lemma map_unbind_id: "filter (binding_expired lib now) recs = [] \<Longrightarrow> map (unbind lib now) recs = recs"
  by (induction recs) (auto simp: unbind_def split: if_splits)

lemma sweep_none:
  "sweep_expired_records lib ret now recs = (kept, n) \<Longrightarrow> n = 0 \<Longrightarrow> kept = recs"
  using length_filter_le [of "keep_record lib ret now" recs]
  by (auto simp: sweep_expired_records_def Let_def intro!: filter_same_length)

lemma drop_bindings_eq:
  "drop_expired_bindings lib now recs = (map (unbind lib now) recs, length (filter (binding_expired lib now) recs))"
  by (simp add: drop_expired_bindings_def unbind_def [abs_def])

lemma drop_none: "drop_expired_bindings lib now recs = (kept, n) \<Longrightarrow> n = 0 \<Longrightarrow> kept = recs"
  by (auto simp: drop_bindings_eq intro!: map_unbind_id)

lemma open_result:
  assumes "open_with_config lib fs now started (FileRecords recs) cfg = Inr (st, rep)"
  shows "records st = reopened lib now started cfg recs" and "store_config st = cfg"
    and "file_current st" and "in_flight st = {}"
proof -
  define R1 where "R1 = map (recover_record lib now) recs"
  obtain R2 n2 where R2: "sweep_expired_records lib (retention cfg) started R1 = (R2, n2)" by fastforce
  obtain R3 n3 where R3: "drop_expired_bindings lib started R2 = (R3, n3)" by fastforce
  have new: "R3 = reopened lib now started cfg recs"
    using R2 R3 by (auto simp: reopened_def drop_bindings_eq sweep_expired_records_def R1_def Let_def)
  have same: "R3 = recs"
    if "filter (\<lambda>r. \<not> is_terminal (state r)) recs = []" and "n2 = 0" and "n3 = 0"
    using drop_none [OF R3 that(3)] sweep_none [OF R2 that(2)] map_recover_id [OF that(1), of lib now]
    by (simp add: R1_def)
  show "records st = reopened lib now started cfg recs" "store_config st = cfg"
    "file_current st" "in_flight st = {}"
    using assms same unfolding new [symmetric]
    by (auto simp: open_with_config_def R2 R3 R1_def [symmetric] Let_def persist_def file_current_def
        split: if_splits option.splits)
qed

lemma reopened_member:
  "q \<in> set (reopened lib now started cfg recs) \<Longrightarrow>
     \<exists>r \<in> set recs. q = unbind lib started (recover_record lib now r)"
  by (auto simp: reopened_def)

text \<open>What the records of a file must satisfy for the store opened on it to be well formed.\<close>

definition file_ok :: "invocation list \<Rightarrow> bool" where
  "file_ok recs \<longleftrightarrow> (\<forall>r \<in> set recs. record_ok r \<and> keyed r) \<and> distinct (map inv_id recs)
     \<and> length recs \<le> MAX_STORED_INVOCATIONS \<and> bindings_unique recs"

lemma store_ok_file: "store_ok st \<Longrightarrow> file_ok (records st)"
  by (simp add: store_ok_def file_ok_def)

lemma file_ok_Nil: "file_ok []"
  by (simp add: file_ok_def bindings_unique_def)

lemma store_ok_open [invs]:
  assumes ok: "file_ok recs"
    and op: "open_with_config lib fs now started (FileRecords recs) cfg = Inr (st, rep)"
  shows "store_ok st"
proof -
  let ?recs1 = "map (recover_record lib now) recs"
  let ?k = "keep_record lib (retention cfg) started"
  note o = open_result [OF op]
  have recs: "\<forall>q \<in> set (records st). record_ok q \<and> keyed q"
  proof
    fix q assume "q \<in> set (records st)"
    then obtain r where r: "r \<in> set recs" "q = unbind lib started (recover_record lib now r)"
      using reopened_member o(1) by metis
    then have "record_ok r" "keyed r" using ok by (auto simp: file_ok_def)
    then show "record_ok q \<and> keyed q"
      unfolding r(2) by (auto intro: record_ok_unbind record_ok_recover keyed_unbind keyed_recover)
  qed
  have ids: "map inv_id (records st) = map inv_id (filter (?k \<circ> recover_record lib now) recs)"
    by (simp add: o(1) reopened_def filter_map comp_def)
  have len: "length (records st) \<le> MAX_STORED_INVOCATIONS"
    using ok order_trans [OF length_filter_le [of "?k \<circ> recover_record lib now" recs]]
    by (simp add: o(1) reopened_def file_ok_def filter_map)
  have "filter (is_active_in c) (records st) = []" for c
    by (auto simp: o(1) filter_empty_conv is_active_in_def dest!: reopened_member)
  then have act: "within_active_limit (store_config st) (records st)"
    by (simp add: within_active_limit_def)
  have "bindings_unique ?recs1"
  proof -
    have "map bind_view ?recs1 = map bind_view recs"
      by (simp add: bind_view_def)
    from bindings_unique_cong [OF this] show ?thesis using ok by (simp add: file_ok_def)
  qed
  then have "bindings_unique (filter ?k ?recs1)"
    by (rule bindings_unique_subset) auto
  then have "bindings_unique (records st)"
    unfolding o(1) reopened_def by (rule bindings_unique_unbind)
  then show ?thesis
    using recs len act o(3) ok by (simp add: store_ok_def ids distinct_map_filter file_ok_def)
qed

section \<open>Operations as labels\<close>

datatype store_op =
    CreateOp time string isolation_claims new_invocation
  | TransitionOp time isolation_claims string "u64 option" invocation_state transition_patch
  | SweepOp time
  | ReserveOp isolation_claims string
  | DropOp idempotency_slot
  | RestartOp time time invocation_store_config

fun op_id :: "store_op \<Rightarrow> string option" where
  "op_id (CreateOp now i c new) = Some i"
| "op_id _ = None"

definition file_content :: "invocation_store \<Rightarrow> file_read" where
  "file_content st = (case disk st of None \<Rightarrow> FileMissing | Some recs \<Rightarrow> FileRecords recs)"

fun run_op :: "chrono_lib \<Rightarrow> file_system \<Rightarrow> store_op \<Rightarrow> invocation_store \<Rightarrow> invocation_store" where
  "run_op lib fs (CreateOp now i c new) st = snd (create_idempotent_for_claims lib fs i now c new st)"
| "run_op lib fs (TransitionOp now c i expected t patch) st =
     snd (transition_outcome_for_claims lib fs now c i expected t patch st)"
| "run_op lib fs (SweepOp now) st = snd (sweep_expired_at lib fs now st)"
| "run_op lib fs (ReserveOp c key) st = snd (reserve_idempotency_key c key st)"
| "run_op lib fs (DropOp s) st = drop_reservation s st"
| "run_op lib fs (RestartOp now started cfg) st =
     (case open_with_config lib fs now started (file_content st) cfg of
        Inl _ \<Rightarrow> st
      | Inr (st', _) \<Rightarrow> st')"

lemma open_missing:
  "open_with_config lib fs now started FileMissing cfg = Inr (st, rep) \<longleftrightarrow>
     st = \<lparr>store_config = cfg, records = [], disk = None, in_flight = {}\<rparr>
     \<and> rep = \<lparr>loaded = 0, interrupted = 0, swept = 0, idempotency_expired = 0\<rparr>"
  by (auto simp: open_with_config_def Let_def sweep_expired_records_def drop_expired_bindings_def)

lemma store_ok_empty: "store_ok \<lparr>store_config = cfg, records = [], disk = None, in_flight = {}\<rparr>"
  by (simp add: store_ok_def within_active_limit_def bindings_unique_def file_current_def)

text \<open>What a restart does to the records of a well-formed store.\<close>

lemma restart_cases:
  assumes "file_current st" and "open_with_config lib fs now started (file_content st) cfg = Inr (st', rep)"
  shows "records st' = reopened lib now started cfg (records st)"
    and "file_ok (records st) \<Longrightarrow> store_ok st'"
  using assms open_result(1) store_ok_open store_ok_empty
  by (auto simp: file_content_def file_current_def open_missing reopened_def split: option.splits)

lemma store_ok_run_op [invs]:
  assumes "store_ok st" and "\<And>i. op_id op = Some i \<Longrightarrow> i \<notin> inv_id ` set (records st)"
  shows "store_ok (run_op lib fs op st)"
proof (cases op)
  case (CreateOp now i c new)
  then show ?thesis
    using assms store_ok_create [of st i lib fs now c new] by (simp add: prod_eq_iff)
next
  case (TransitionOp now c i expected t patch)
  then show ?thesis
    using assms store_ok_transition [of st lib fs now c i expected t patch] by (simp add: prod_eq_iff)
next
  case (SweepOp now)
  then show ?thesis using assms store_ok_sweep [of st lib fs now] by (simp add: prod_eq_iff)
next
  case (ReserveOp c key)
  then show ?thesis using assms store_ok_reserve [of st c key] by (simp add: prod_eq_iff)
next
  case (DropOp s)
  then show ?thesis using assms store_ok_drop by simp
next
  case (RestartOp now started cfg)
  then show ?thesis
    using assms restart_cases(2) [of st lib fs now started cfg] store_ok_file
    by (auto simp: store_ok_def split: sum.splits)
qed

text \<open>
  A step runs a label; a new identifier is one that was never used (\<open>Uuid::new_v4\<close>).
\<close>

inductive store_step :: "chrono_lib \<Rightarrow> invocation_store \<times> string set \<Rightarrow> invocation_store \<times> string set \<Rightarrow> bool"
  for lib where
  step: "(\<And>i. op_id op = Some i \<Longrightarrow> i \<notin> used) \<Longrightarrow>
    store_step lib (st, used) (run_op lib fs op st, used \<union> set_option (op_id op))"

inductive reachable :: "chrono_lib \<Rightarrow> invocation_store \<Rightarrow> string set \<Rightarrow> bool" for lib where
  opened: "open_with_config lib fs now started FileMissing cfg = Inr (st, rep) \<Longrightarrow> reachable lib st {}"
| stepped: "reachable lib st used \<Longrightarrow> store_step lib (st, used) (st', used') \<Longrightarrow> reachable lib st' used'"

inductive_cases store_stepE: "store_step lib (st, used) (st', used')"

lemma run_op_members:
  assumes ok: "store_ok st" and q: "q \<in> set (records (run_op lib fs op st))"
  obtains (created) now i c new where "op = CreateOp now i c new" and "inv_id q = i"
  | (kept) now where "q \<in> set (records st) \<or> (\<exists>r \<in> set (records st). q = unbind lib now r)"
  | (moved) r now c i expected t patch where "r \<in> set (records st)"
      and "op = TransitionOp now c i expected t patch"
      and "permits_with (state r) t (patch_error patch)" and "q = apply_transition lib now c t patch r"
  | (restarted) r now started cfg where "op = RestartOp now started cfg" and "r \<in> set (records st)"
      and "q = unbind lib started (recover_record lib now r)"
proof (cases op)
  case (CreateOp now i c new)
  obtain res st' where run: "create_idempotent_for_claims lib fs i now c new st = (res, st')" by fastforce
  show thesis
  proof (cases "\<exists>r. res = Inr (Created r)")
    case True
    then obtain r where r: "res = Inr (Created r)" by blast
    note f = create_Created [OF run [unfolded r]]
    from q CreateOp run f(5) have "q = r \<or> q \<in> set (maintained lib now st)" by simp
    then show thesis
      using f(4) CreateOp set_maintained created kept by (metis fresh_record_fields(1))
  next
    case False
    then show thesis using create_not_Created [OF run] q CreateOp run kept by auto
  qed
next
  case (TransitionOp now c i expected t patch)
  obtain res st' where run: "transition_outcome_for_claims lib fs now c i expected t patch st = (res, st')"
    by fastforce
  show thesis
  proof (cases "\<exists>out. res = Inr out \<and> changed out")
    case True
    then obtain out where out: "res = Inr out" "changed out" by blast
    from transition_changed [OF run [unfolded out(1)] out(2)] obtain k r where
      "k < length (records st)" "r = records st ! k" "permits_with (state r) t (patch_error patch)"
      "st' = st\<lparr>disk := Some ((records st)[k := apply_transition lib now c t patch r]),
        records := (records st)[k := apply_transition lib now c t patch r]\<rparr>"
      by blast
    moreover from this q TransitionOp run
    have "q \<in> set (records st) \<or> q = apply_transition lib now c t patch r"
      using set_update_subset_insert [of "records st" k "apply_transition lib now c t patch r"] by auto
    ultimately show thesis using kept moved [OF _ TransitionOp] by (metis nth_mem)
  next
    case False
    then show thesis using transition_no_change [OF run] q TransitionOp run kept by auto
  qed
next
  case (SweepOp now)
  then have "q \<in> set (records st)"
    using q by (auto simp: sweep_expired_at_def sweep_expired_records_def Let_def commit_def persist_def
        split: if_splits option.splits)
  then show thesis using kept by blast
next
  case (ReserveOp c key)
  then show thesis using q kept by (auto simp: reserve_idempotency_key_def split: if_splits)
next
  case (DropOp s)
  then show thesis using q kept by (auto simp: drop_reservation_def)
next
  case (RestartOp now started cfg)
  show thesis
  proof (cases "open_with_config lib fs now started (file_content st) cfg")
    case (Inl e)
    then show thesis using q RestartOp kept by auto
  next
    case (Inr p)
    then obtain st' rep where p: "p = (st', rep)" by fastforce
    with Inr have "records st' = reopened lib now started cfg (records st)"
      using restart_cases(1) [of st lib fs now started cfg st' rep] ok by (simp add: store_ok_def)
    moreover have "q \<in> set (records st')" using q RestartOp Inr p by simp
    ultimately have "q \<in> set (reopened lib now started cfg (records st))" by simp
    from reopened_member [OF this] show thesis using restarted [OF RestartOp] by blast
  qed
qed

text \<open>What a later version of a record keeps of an earlier one.\<close>

definition descends :: "invocation \<Rightarrow> invocation \<Rightarrow> bool" where
  "descends r q \<longleftrightarrow> inv_id q = inv_id r \<and> inv_tenant_id q = inv_tenant_id r
     \<and> inv_project_id q = inv_project_id r \<and> inv_actor_id q = inv_actor_id r
     \<and> inv_request q = inv_request r \<and> agent_definition q = agent_definition r
     \<and> idempotency_key q = idempotency_key r \<and> created_at q = created_at r
     \<and> stage (state r) \<le> stage (state q) \<and> unat (revision r) \<le> unat (revision q)
     \<and> (is_terminal (state r) \<longrightarrow> q = r \<or> q = r\<lparr>idempotency := None\<rparr>)"

lemma descends_refl [simp]: "descends r r"
  by (simp add: descends_def)

lemma descends_trans:
  assumes "descends p q" and "descends q r"
  shows "descends p r"
proof -
  have "r = p \<or> r = p\<lparr>idempotency := None\<rparr>" if "is_terminal (state p)"
  proof -
    from that assms(1) have q: "q = p \<or> q = p\<lparr>idempotency := None\<rparr>" by (simp add: descends_def)
    then have "is_terminal (state q)" using that by auto
    with assms(2) have "r = q \<or> r = q\<lparr>idempotency := None\<rparr>" by (simp add: descends_def)
    with q show ?thesis by auto
  qed
  moreover have "stage (state p) \<le> stage (state r)" "unat (revision p) \<le> unat (revision r)"
    using assms order_trans unfolding descends_def by blast+
  ultimately show ?thesis using assms by (simp add: descends_def)
qed

lemma descends_unbind: "descends r (unbind lib now r)"
  by (simp add: descends_def unbind_def)

lemma descends_recover: "descends r (recover_record lib now r)"
  using saturating_add_mono [of "revision r" 1] stage_le [of "state r"]
  by (simp add: descends_def recover_record_def Let_def)

lemma apply_transition_more [simp]:
  "inv_request (apply_transition lib now c t patch r) = inv_request r"
  "agent_definition (apply_transition lib now c t patch r) = agent_definition r"
  by (simp_all add: apply_transition_def Let_def split: option.split)

lemma descends_transition:
  assumes "permits_with (state r) t err"
  shows "descends r (apply_transition lib now c t patch r)"
  using permits_with_stage [OF assms] terminal_no_edge [of "state r" t err] assms
    saturating_add_mono [of "revision r" 1]
  by (auto simp: descends_def)

lemma run_op_origin:
  assumes "store_ok st" and "q \<in> set (records (run_op lib fs op st))"
  shows "op_id op = Some (inv_id q) \<or> (\<exists>r \<in> set (records st). descends r q)"
  using assms
proof (cases rule: run_op_members)
  case (created now i c new)
  then show ?thesis by simp
next
  case (kept now)
  then show ?thesis using descends_unbind descends_refl by blast
next
  case (moved r now c i expected t patch)
  then show ?thesis using descends_transition by blast
next
  case (restarted r now started cfg)
  then show ?thesis using descends_trans [OF descends_recover descends_unbind] by blast
qed

lemma store_step_inv:
  assumes "store_step lib (st, used) (st', used')" and "store_ok st" and "inv_id ` set (records st) \<subseteq> used"
  shows "store_ok st' \<and> inv_id ` set (records st') \<subseteq> used' \<and> used \<subseteq> used'"
proof -
  obtain op fs where op: "\<And>i. op_id op = Some i \<Longrightarrow> i \<notin> used" "st' = run_op lib fs op st"
    "used' = used \<union> set_option (op_id op)"
    using assms(1) by (rule store_stepE) blast
  have "store_ok (run_op lib fs op st)"
    using op(1) assms(2,3) by (intro store_ok_run_op) auto
  moreover have "inv_id q \<in> used'" if "q \<in> set (records (run_op lib fs op st))" for q
    using run_op_origin [OF assms(2) that] op(3) assms(3) by (auto simp: descends_def)
  ultimately show ?thesis using op by auto
qed

lemma reachable_inv: "reachable lib st used \<Longrightarrow> store_ok st \<and> inv_id ` set (records st) \<subseteq> used"
proof (induction rule: reachable.induct)
  case (opened fs now started cfg st rep)
  then show ?case using store_ok_empty by (simp add: open_missing)
next
  case (stepped st used st' used')
  then show ?case using store_step_inv [OF stepped.hyps(2)] by simp
qed

lemma reachable_steps:
  "(store_step lib)\<^sup>*\<^sup>* (st, used) (st', used') \<Longrightarrow> reachable lib st used \<Longrightarrow> reachable lib st' used' \<and> used \<subseteq> used'"
proof (induction rule: rtranclp_induct2)
  case refl
  then show ?case by simp
next
  case (step st1 used1 st2 used2)
  then have 1: "reachable lib st1 used1" "used \<subseteq> used1" by blast+
  then show ?case
    using reachable_inv [OF 1(1)] store_step_inv [OF step.hyps(2)]
      reachable.stepped [OF 1(1) step.hyps(2)] by auto
qed

lemma history_descends:
  assumes "(store_step lib)\<^sup>*\<^sup>* (st, used) (st', used')" and "reachable lib st used"
    and "r \<in> set (records st)" and "q \<in> set (records st')" and "inv_id q = inv_id r"
  shows "descends r q"
  using assms(1,4,5)
proof (induction arbitrary: q rule: rtranclp_induct2)
  case refl
  then show ?case
    using reachable_inv [OF assms(2)] assms(3) by (auto simp: store_ok_def distinct_map inj_on_def)
next
  case (step st1 used1 st2 used2)
  have 1: "store_ok st1" "used \<subseteq> used1"
    using reachable_steps [OF step.hyps(1) assms(2)] reachable_inv by blast+
  have id: "inv_id r \<in> used1"
    using reachable_inv [OF assms(2)] assms(3) 1(2) by blast
  obtain op fs where op: "\<And>i. op_id op = Some i \<Longrightarrow> i \<notin> used1" "st2 = run_op lib fs op st1"
    using step.hyps(2) by (rule store_stepE) blast
  from run_op_origin [OF 1(1), of q lib fs op] step.prems op id
  obtain p where p: "p \<in> set (records st1)" "descends p q" by auto
  then have "inv_id p = inv_id r" using step.prems by (simp add: descends_def)
  then show ?case using step.IH p descends_trans by blast
qed

end
