(* ===== verification/Idempotency.thy ===== *)
theory Idempotency
  imports Store_System
begin

text \<open>
  The idempotency contract of the store over whole histories: an accepted configuration never
  lets a binding outlive its record, so a live key keeps finding the record it created through
  sweeps, transitions, other creates and restarts.
\<close>

section \<open>The accepted configurations\<close>

lemma uint_saturating_mul_24:
  assumes "d \<le> (36500 :: u64)"
  shows "saturating_mul d 24 = d * 24" and "uint (d * 24) = uint d * 24"
proof -
  have d: "unat d \<le> 36500" using assms by (simp add: word_le_nat_alt)
  then show "saturating_mul d 24 = d * 24" by (simp add: saturating_mul_def)
  have "unat (d * 24) = unat d * 24" using d by (simp add: unat_word_ariths)
  then have "int (unat (d * 24)) = int (unat d) * 24" by (simp only: of_nat_mult of_nat_numeral)
  then show "uint (d * 24) = uint d * 24" by (simp only: int_eq_iff uint_nat)
qed

lemma ttl_within_retention:
  assumes "ttl \<le> saturating_mul d 24" and "d \<le> (36500 :: u64)"
  shows "uint (min ttl (2 ^ 63 - 1)) * ns_per_hour \<le> uint d * 24 * ns_per_hour"
proof -
  have "uint ttl \<le> uint d * 24"
    using assms uint_saturating_mul_24 [OF assms(2)] by (simp add: word_le_def)
  moreover have "uint (min ttl (2 ^ 63 - 1)) \<le> uint ttl"
    by (simp add: min_def word_le_def)
  ultimately show ?thesis by (simp add: ns_per_hour_def)
qed

definition config_ok :: "invocation_store_config \<Rightarrow> bool" where
  "config_ok cfg \<longleftrightarrow> idempotency_ttl cfg \<le> retention cfg \<and> retention cfg mod 1000 = 0"

lemma try_from_vars_cases:
  assumes "try_from_vars lookup = Inr cfg"
  obtains d ttl where "d \<le> 36500" and "ttl \<le> saturating_mul d 24"
    and "retention cfg = uint d * 24 * ns_per_hour"
    and "idempotency_ttl cfg = uint (min ttl (2 ^ 63 - 1)) * ns_per_hour"
proof -
  define d :: u64 where "d = (case positive_var lookup RETENTION_DAYS_ENV of None \<Rightarrow> 7 | Some days \<Rightarrow> min days 36500)"
  define C where "C = (case positive_var lookup RETENTION_DAYS_ENV of None \<Rightarrow> default_config
     | Some days \<Rightarrow> default_config\<lparr>retention := uint d * 24 * ns_per_hour\<rparr>)"
  define C' where "C' = (case positive_var lookup MAX_ACTIVE_ENV of None \<Rightarrow> C
     | Some limit \<Rightarrow> C\<lparr>max_active_per_scope := unat limit\<rparr>)"
  obtain ttl where ttl: "\<not> saturating_mul d 24 < ttl"
      "cfg = C'\<lparr>idempotency_ttl := uint (min ttl (2 ^ 63 - 1)) * ns_per_hour\<rparr>"
    using assms unfolding try_from_vars_def Let_def d_def [symmetric] C_def [symmetric] C'_def [symmetric]
    by (auto simp: and_then_Inr_iff split: if_splits)
  have "retention C' = uint d * 24 * ns_per_hour"
    by (simp add: C'_def C_def d_def default_config_def split: option.split)
  moreover have "d \<le> 36500" by (simp add: d_def split: option.split)
  ultimately show thesis using that [of d ttl] ttl by (simp add: not_less)
qed

lemma try_from_vars_ok: "try_from_vars lookup = Inr cfg \<Longrightarrow> config_ok cfg"
  using ttl_within_retention
  by (elim try_from_vars_cases) (simp add: config_ok_def ns_per_hour_def)

section \<open>A live binding and its record\<close>

text \<open>Times are written with microsecond precision.\<close>

definition micros :: "time \<Rightarrow> time" where
  "micros t = t - t mod 1000"

lemma micros_mono: "a \<le> b \<Longrightarrow> micros a \<le> micros b"
  unfolding micros_def by (simp add: minus_mod_eq_div_mult zdiv_mono1)

lemma micros_add: "d mod 1000 = 0 \<Longrightarrow> micros (a + d) = micros a + d"
  unfolding micros_def by (simp add: mod_add_right_eq [symmetric])

lemma parse_written: "chrono_roundtrips lib \<Longrightarrow> parse_from_rfc3339 lib (to_rfc3339_micros lib t) = Some (micros t)"
  by (simp add: chrono_roundtrips_def micros_def)

text \<open>
  \<open>bound_since lib cfg t0 fp r\<close>: the record holds the binding written when it was created at
  \<open>t0\<close>, and it finished, if it did, no earlier than that.
\<close>

definition bound_since ::
  "chrono_lib \<Rightarrow> invocation_store_config \<Rightarrow> time \<Rightarrow> string \<Rightarrow> invocation \<Rightarrow> bool" where
  "bound_since lib cfg t0 fp r \<longleftrightarrow>
     idempotency r = Some \<lparr>fingerprint = fp, expires_at = to_rfc3339_micros lib (t0 + idempotency_ttl cfg)\<rparr>
     \<and> (is_terminal (state r) \<longrightarrow>
          (\<exists>t1 \<ge> t0. completed_at r = Some (to_rfc3339_micros lib t1)))"

definition expiry :: "invocation_store_config \<Rightarrow> time \<Rightarrow> time" where
  "expiry cfg t0 = micros (t0 + idempotency_ttl cfg)"

lemma bound_since_unbind:
  "chrono_roundtrips lib \<Longrightarrow> bound_since lib cfg t0 fp r \<Longrightarrow> now < expiry cfg t0 \<Longrightarrow> unbind lib now r = r"
  by (simp add: bound_since_def unbind_def binding_expired_def is_live_def parse_written expiry_def)

lemma bound_since_kept:
  assumes "chrono_roundtrips lib" and "config_ok cfg" and "bound_since lib cfg t0 fp r" and "now < expiry cfg t0"
  shows "keep_record lib (retention cfg) now r"
proof (cases "is_terminal (state r)")
  case True
  then obtain t1 where t1: "t0 \<le> t1" "completed_at r = Some (to_rfc3339_micros lib t1)"
    using assms(3) by (auto simp: bound_since_def)
  have "expiry cfg t0 \<le> micros (t0 + retention cfg)"
    unfolding expiry_def using assms(2) by (intro micros_mono) (simp add: config_ok_def)
  also have "\<dots> \<le> micros t1 + retention cfg"
    using assms(2) t1(1) by (simp add: config_ok_def micros_add micros_mono)
  finally show ?thesis
    using assms(1,4) t1(2) by (simp add: keep_record_def Let_def parse_written)
qed (simp add: keep_record_def)

lemma bound_since_transition:
  "bound_since lib cfg t0 fp r \<Longrightarrow> \<not> is_terminal (state r) \<Longrightarrow> t0 \<le> now \<Longrightarrow>
     bound_since lib cfg t0 fp (apply_transition lib now c t patch r)"
  by (auto simp: bound_since_def apply_transition_def Let_def split: option.splits)

lemma bound_since_recover:
  "bound_since lib cfg t0 fp r \<Longrightarrow> t0 \<le> now \<Longrightarrow> bound_since lib cfg t0 fp (recover_record lib now r)"
  by (auto simp: bound_since_def recover_record_def Let_def)

section \<open>Histories with a clock\<close>

fun op_times :: "store_op \<Rightarrow> time list" where
  "op_times (CreateOp now i c new) = [now]"
| "op_times (TransitionOp now c i expected t patch) = [now]"
| "op_times (SweepOp now) = [now]"
| "op_times (RestartOp now started cfg) = [now, started]"
| "op_times _ = []"

fun op_config :: "invocation_store_config \<Rightarrow> store_op \<Rightarrow> invocation_store_config" where
  "op_config cfg (RestartOp now started cfg') = cfg'"
| "op_config cfg _ = cfg"

fun run_ops :: "chrono_lib \<Rightarrow> (file_system \<times> store_op) list \<Rightarrow> invocation_store \<Rightarrow> invocation_store" where
  "run_ops lib [] st = st"
| "run_ops lib ((fs, op) # ops) st = run_ops lib ops (run_op lib fs op st)"

fun op_ids :: "(file_system \<times> store_op) list \<Rightarrow> string list" where
  "op_ids [] = []"
| "op_ids ((fs, op) # ops) = (case op_id op of None \<Rightarrow> op_ids ops | Some i \<Rightarrow> i # op_ids ops)"

text \<open>The record \<open>i\<close> of a scope's actor and key is in the store with its binding.\<close>

definition holds_binding ::
  "chrono_lib \<Rightarrow> invocation_store_config \<Rightarrow> time \<Rightarrow> isolation_claims \<Rightarrow> string \<Rightarrow> string \<Rightarrow> string
   \<Rightarrow> invocation_store \<Rightarrow> bool" where
  "holds_binding lib cfg t0 c key fp i st \<longleftrightarrow>
     (\<exists>r \<in> set (records st). inv_id r = i \<and> is_in_scope r c \<and> inv_actor_id r = actor_id c
        \<and> idempotency_key r = Some key \<and> bound_since lib cfg t0 fp r)"

lemma holds_binding_mono:
  assumes "holds_binding lib cfg t0 c key fp i st"
    and "\<And>r. r \<in> set (records st) \<Longrightarrow> bound_since lib cfg t0 fp r \<Longrightarrow>
      \<exists>q \<in> set (records st'). inv_id q = inv_id r \<and> inv_tenant_id q = inv_tenant_id r
        \<and> inv_project_id q = inv_project_id r \<and> inv_actor_id q = inv_actor_id r
        \<and> idempotency_key q = idempotency_key r \<and> bound_since lib cfg t0 fp q"
  shows "holds_binding lib cfg t0 c key fp i st'"
proof -
  from assms(1) obtain r where r: "r \<in> set (records st)" "bound_since lib cfg t0 fp r" "inv_id r = i"
    "is_in_scope r c" "inv_actor_id r = actor_id c" "idempotency_key r = Some key"
    by (auto simp: holds_binding_def)
  with assms(2) [OF r(1,2)] show ?thesis
    unfolding holds_binding_def is_in_scope_def by force
qed

lemma commit_config [simp]: "store_config (snd (commit fs recs x st)) = store_config st"
  by (simp add: commit_def persist_def split: option.split)

lemma create_config [simp]:
  "store_config (snd (create_idempotent_for_claims lib fs i now c new st)) = store_config st"
  by (simp add: create_idempotent_for_claims_def Let_def split: option.split)

lemma transition_config [simp]:
  "store_config (snd (transition_outcome_for_claims lib fs now c i expected t patch st)) = store_config st"
  by (simp add: transition_outcome_for_claims_def Let_def split: option.split sum.split)

lemma sweep_config [simp]: "store_config (snd (sweep_expired_at lib fs now st)) = store_config st"
  by (simp add: sweep_expired_at_def split: prod.split)

lemma open_file_config:
  "open_with_config lib fs now started (file_content st) cfg = Inr (st', rep) \<Longrightarrow> store_config st' = cfg"
  using open_result(2) by (auto simp: file_content_def open_missing split: option.splits)

lemma run_op_config:
  "op_config (store_config st) op = store_config st \<Longrightarrow> store_config (run_op lib fs op st) = store_config st"
  using open_file_config
  by (cases op) (auto simp: reserve_idempotency_key_def drop_reservation_def split: sum.split)

lemma run_op_keeps_binding:
  assumes lib: "chrono_roundtrips lib" and cfg: "config_ok (store_config st)" and ok: "store_ok st"
    and op: "op_config (store_config st) op = store_config st"
    and times: "\<And>t. t \<in> set (op_times op) \<Longrightarrow> t0 \<le> t \<and> t < expiry (store_config st) t0"
    and b: "holds_binding lib (store_config st) t0 c key fp i st"
  shows "holds_binding lib (store_config st) t0 c key fp i (run_op lib fs op st)"
proof (rule holds_binding_mono [OF b])
  fix r
  assume r: "r \<in> set (records st)" and br: "bound_since lib (store_config st) t0 fp r"
  let ?cfg = "store_config st"
  let ?goal = "\<lambda>q. inv_id q = inv_id r \<and> inv_tenant_id q = inv_tenant_id r
    \<and> inv_project_id q = inv_project_id r \<and> inv_actor_id q = inv_actor_id r
    \<and> idempotency_key q = idempotency_key r \<and> bound_since lib ?cfg t0 fp q"
  note kept = bound_since_kept [OF lib cfg br] and live = bound_since_unbind [OF lib br]
  show "\<exists>q \<in> set (records (run_op lib fs op st)). ?goal q"
  proof (cases op)
    case (CreateOp now j d new)
    then have now: "now < expiry ?cfg t0" using times by simp
    have m: "r \<in> set (maintained lib now st)"
      unfolding maintained_def using r kept [OF now] live [OF now] by (force simp: image_iff)
    obtain res st' where run: "create_idempotent_for_claims lib fs j now d new st = (res, st')" by fastforce
    show ?thesis
    proof (cases "\<exists>x. res = Inr (Created x)")
      case True
      then obtain x where "res = Inr (Created x)" by blast
      from create_Created(5) [OF run [unfolded this]] show ?thesis using CreateOp run m br by auto
    next
      case False
      then show ?thesis using create_not_Created [OF run] CreateOp run r br by auto
    qed
  next
    case (TransitionOp now d j expected t patch)
    obtain res st' where run: "transition_outcome_for_claims lib fs now d j expected t patch st = (res, st')"
      by fastforce
    show ?thesis
    proof (cases "\<exists>out. res = Inr out \<and> changed out")
      case True
      then obtain out where out: "res = Inr out" "changed out" by blast
      from transition_changed [OF run [unfolded out(1)] out(2)] obtain k q where k:
        "k < length (records st)" "q = records st ! k" "\<not> is_terminal (state q)"
        "st' = st\<lparr>disk := Some ((records st)[k := apply_transition lib now d t patch q]),
          records := (records st)[k := apply_transition lib now d t patch q]\<rparr>"
        by blast
      let ?recs = "(records st)[k := apply_transition lib now d t patch q]"
      have recs: "records (run_op lib fs op st) = ?recs" using k(4) TransitionOp run by simp
      show ?thesis
      proof (cases "r = q")
        case True
        then have "?goal (apply_transition lib now d t patch q)"
          using br k(3) times TransitionOp bound_since_transition by simp
        moreover have "apply_transition lib now d t patch q \<in> set ?recs"
          using k(1) by (simp add: set_update_memI)
        ultimately show ?thesis unfolding recs by blast
      next
        case False
        from r obtain n where "n < length (records st)" "records st ! n = r" by (auto simp: in_set_conv_nth)
        with False k(1,2) have "r \<in> set ?recs" by (metis length_list_update nth_list_update_neq nth_mem)
        then show ?thesis unfolding recs using br by blast
      qed
    next
      case False
      then show ?thesis using transition_no_change [OF run] TransitionOp run r br by auto
    qed
  next
    case (SweepOp now)
    then have "keep_record lib (retention ?cfg) now r" using times kept by simp
    then show ?thesis
      using SweepOp r br by (auto simp: sweep_expired_at_def sweep_expired_records_def Let_def commit_def
          persist_def split: option.splits)
  next
    case (ReserveOp d k)
    then show ?thesis using r br by (auto simp: reserve_idempotency_key_def)
  next
    case (DropOp s)
    then show ?thesis using r br by (auto simp: drop_reservation_def)
  next
    case (RestartOp now started cfg')
    then have t: "t0 \<le> now" "started < expiry ?cfg t0" "cfg' = ?cfg" using times op by auto
    let ?q = "recover_record lib now r"
    have q: "bound_since lib ?cfg t0 fp ?q" by (rule bound_since_recover [OF br t(1)])
    show ?thesis
    proof (cases "open_with_config lib fs now started (file_content st) cfg'")
      case (Inl e)
      then show ?thesis using RestartOp r br by auto
    next
      case (Inr p)
      then obtain st' rep where p: "p = (st', rep)" by fastforce
      have recs: "records st' = reopened lib now started ?cfg (records st)"
        using restart_cases(1) [of st lib fs now started cfg' st' rep] ok Inr p t(3) by (simp add: store_ok_def)
      have "?q \<in> set (records st')"
        unfolding recs reopened_def
        using r bound_since_kept [OF lib cfg q t(2)] bound_since_unbind [OF lib q t(2)] by (force simp: image_iff)
      then show ?thesis using RestartOp Inr p q by (auto intro!: bexI [of _ ?q])
    qed
  qed
qed

lemma run_ops_keeps_binding:
  assumes lib: "chrono_roundtrips lib" and cfg: "config_ok (store_config st)" and ok: "store_ok st"
    and ops: "\<forall>(fs, op) \<in> set ops. op_config (store_config st) op = store_config st
      \<and> (\<forall>t \<in> set (op_times op). t0 \<le> t \<and> t < expiry (store_config st) t0)"
    and ids: "distinct (op_ids ops)" "set (op_ids ops) \<inter> used = {}" "inv_id ` set (records st) \<subseteq> used"
    and b: "holds_binding lib (store_config st) t0 c key fp i st"
  shows "holds_binding lib (store_config st) t0 c key fp i (run_ops lib ops st) \<and> store_ok (run_ops lib ops st)"
  using cfg ok ops ids b
proof (induction ops arbitrary: st used)
  case Nil
  then show ?case by simp
next
  case (Cons p ops)
  obtain fs op where p: "p = (fs, op)" by fastforce
  let ?st = "run_op lib fs op st" and ?used = "used \<union> set_option (op_id op)"
  have op: "op_config (store_config st) op = store_config st"
      "\<And>t. t \<in> set (op_times op) \<Longrightarrow> t0 \<le> t \<and> t < expiry (store_config st) t0"
    using Cons.prems(3) p by auto
  have c: "store_config ?st = store_config st" by (rule run_op_config [OF op(1)])
  have new: "i \<notin> used" if "op_id op = Some i" for i
    using Cons.prems(5) p that by auto
  have step: "store_step lib (st, used) (?st, ?used)" using new by (rule store_step.step)
  note inv = store_step_inv [OF step Cons.prems(2,6)]
  have ids: "distinct (op_ids ops)" "set (op_ids ops) \<inter> ?used = {}"
    using Cons.prems(4,5) p by (auto split: option.splits)
  have b: "holds_binding lib (store_config st) t0 c key fp i ?st"
    by (rule run_op_keeps_binding [OF lib Cons.prems(1,2) op Cons.prems(7)])
  show ?case
    using Cons.IH [of ?st ?used] inv ids b Cons.prems(1,3) by (simp add: c p)
qed

text \<open>A store that holds the binding answers every further create with that key from it.\<close>

lemma holds_binding_found:
  assumes lib: "chrono_roundtrips lib" and ok: "store_ok st"
    and b: "holds_binding lib cfg t0 c key fp i st" and now: "now < expiry cfg t0"
  shows "\<exists>r. inv_id r = i \<and> find (binds_key lib c key now) (records st) = Some r
    \<and> (\<forall>fp'. fingerprint_matches r fp' \<longleftrightarrow> fp = fp')"
proof -
  from b obtain r where r: "r \<in> set (records st)" "bound_since lib cfg t0 fp r" "inv_id r = i"
    "is_in_scope r c" "inv_actor_id r = actor_id c" "idempotency_key r = Some key"
    by (auto simp: holds_binding_def)
  have bind: "binds_key lib c key now r"
    using r now lib by (simp add: binds_key_def has_live_binding_def bound_since_def is_live_def
        parse_written expiry_def)
  have uniq: "q = r" if q: "q \<in> set (records st)" "binds_key lib c key now q" for q
  proof -
    have slot: "same_slot q r"
      using q(2) bind by (simp add: same_slot_def binds_key_def is_in_scope_def)
    have bound: "idempotency q \<noteq> None" "idempotency r \<noteq> None"
      using q(2) bind by (auto simp: binds_key_def has_live_binding_def split: option.splits)
    have "bindings_unique (records st)" and dist: "distinct (map inv_id (records st))"
      using ok by (simp_all add: store_ok_def)
    then have "inv_id q = inv_id r"
      using q(1) r(1) slot bound unfolding bindings_unique_def by blast
    then show ?thesis using dist q(1) r(1) by (simp add: distinct_map inj_on_def)
  qed
  have "find (binds_key lib c key now) (records st) = Some r"
    using uniq bind r(1) by (intro find_unique)
  then show ?thesis using r(2,3) by (auto simp: fingerprint_matches_def bound_since_def)
qed

lemma holds_binding_answers:
  assumes "chrono_roundtrips lib" and "store_ok st" and "holds_binding lib cfg t0 c key fp i st"
    and "now < expiry cfg t0" and new: "new_idempotency new = Some reg" "reg_key reg = key"
  shows "\<exists>r. inv_id r = i \<and> create_idempotent_for_claims lib fs j now c new st =
    (if reg_fingerprint reg = fp then Inr (Replayed r) else Inl IdempotencyKeyConflict, st)"
  using holds_binding_found [OF assms(1-4)] new
  by (auto simp: create_idempotent_for_claims_def bound_record_def)

lemma holds_binding_lookup:
  assumes "chrono_roundtrips lib" and "store_ok st" and "holds_binding lib cfg t0 c key fp i st"
    and "now < expiry cfg t0"
  shows "\<exists>r. inv_id r = i \<and> find_idempotent_at lib c key fp' now st = (if fp' = fp then Replay r else Conflict)"
  using holds_binding_found [OF assms] by (auto simp: find_idempotent_at_def)

lemma created_holds_binding:
  assumes "create_idempotent_for_claims lib fs i t0 c new st = (Inr (Created r), st')"
    and "new_idempotency new = Some reg"
  shows "holds_binding lib (store_config st) t0 c (reg_key reg) (reg_fingerprint reg) i st'
    \<and> store_config st' = store_config st"
  using create_Created(4,5) [OF assms(1)] assms(2)
  by (auto simp: holds_binding_def is_in_scope_def bound_since_def)

end
