(* ===== verification/Repository.thy ===== *)
theory Repository
  imports Store_System
begin

text \<open>
  What the clients of the invocation store (the HTTP handlers and the execution bridge) rely on
  when they move a record: the interface \<open>invocation_repository\<close>, the facts its clients derive
  for any run of requests, and the store as its provider.
\<close>

locale invocation_repository =
  fixes ok :: "'s \<Rightarrow> bool"
    and get :: "isolation_claims \<Rightarrow> string \<Rightarrow> 's \<Rightarrow> invocation option"
    and claims_of :: "'q \<Rightarrow> isolation_claims"
    and id_of :: "'q \<Rightarrow> string"
    and target_of :: "'q \<Rightarrow> invocation_state"
    and move :: "'q \<Rightarrow> 's \<Rightarrow> (invocation_store_error + transition_outcome) \<times> 's"
  assumes move_ok: "ok s \<Longrightarrow> ok (snd (move q s))"
    and move_get: "ok s \<Longrightarrow> move q s = (Inr out, s') \<Longrightarrow>
      get (claims_of q) (id_of q) s' = Some (outcome_invocation out)
      \<and> state (outcome_invocation out) = target_of q"
    and move_error: "move q s = (Inl e, s') \<Longrightarrow> s' = s"
    and move_known: "ok s \<Longrightarrow> move q s = (Inr out, s') \<Longrightarrow>
      \<exists>r. get (claims_of q) (id_of q) s = Some r
        \<and> (outcome_invocation out = r \<or> stage (state r) < stage (target_of q))"
    and get_scope: "get c i s = Some r \<Longrightarrow> is_in_scope r c \<and> inv_id r = i"
    and get_frame: "ok s \<Longrightarrow> get c i s = Some r \<Longrightarrow>
      i \<noteq> id_of q \<or> \<not> is_in_scope r (claims_of q) \<Longrightarrow> get c i (snd (move q s)) = Some r"
    and get_same_scope: "is_in_scope r c \<Longrightarrow> is_in_scope r d \<Longrightarrow> get c i s = get d i s"
begin

fun moves :: "'q list \<Rightarrow> 's \<Rightarrow> 's" where
  "moves [] s = s"
| "moves (q # qs) s = moves qs (snd (move q s))"

lemma moves_ok: "ok s \<Longrightarrow> ok (moves qs s)"
  by (induction qs arbitrary: s) (auto simp: move_ok)

text \<open>One request either leaves a record or moves it forward.\<close>

lemma move_forward:
  assumes "ok s" and "get c i s = Some r"
  shows "\<exists>r'. get c i (snd (move q s)) = Some r' \<and> (r' = r \<or> stage (state r) < stage (state r'))"
proof (cases "i \<noteq> id_of q \<or> \<not> is_in_scope r (claims_of q)")
  case True
  then show ?thesis using get_frame [OF assms] by blast
next
  case False
  then have i: "id_of q = i" and scope: "is_in_scope r (claims_of q)" "is_in_scope r c"
    using get_scope [OF assms(2)] by auto
  obtain res s' where m: "move q s = (res, s')" by fastforce
  show ?thesis
  proof (cases res)
    case (Inl e)
    then show ?thesis using move_error m assms(2) by force
  next
    case (Inr out)
    note m = m [unfolded Inr]
    have "get (claims_of q) i s = Some r"
      using get_same_scope [OF scope(2,1)] assms(2) by simp
    then have "outcome_invocation out = r \<or> stage (state r) < stage (target_of q)"
      using move_known [OF assms(1) m] i by simp
    moreover have "get c i s' = Some (outcome_invocation out)"
      using move_get [OF assms(1) m] get_same_scope [OF scope(2,1)] i by simp
    ultimately show ?thesis using move_get [OF assms(1) m] m by auto
  qed
qed

lemma moves_forward:
  "ok s \<Longrightarrow> get c i s = Some r \<Longrightarrow>
     \<exists>r'. get c i (moves qs s) = Some r' \<and> (r' = r \<or> stage (state r) < stage (state r'))"
proof (induction qs arbitrary: s r)
  case Nil
  then show ?case by simp
next
  case (Cons q qs)
  from move_forward [OF Cons.prems] obtain r1 where
    r1: "get c i (snd (move q s)) = Some r1" "r1 = r \<or> stage (state r) < stage (state r1)" by blast
  from Cons.IH [OF move_ok [OF Cons.prems(1)] r1(1)] r1(2) show ?case
    by (auto intro: less_trans)
qed

text \<open>A finished invocation never changes, whatever is requested of it.\<close>

lemma finished_stable:
  assumes "ok s" and "get c i s = Some r" and "is_terminal (state r)"
  shows "get c i (moves qs s) = Some r"
proof -
  from moves_forward [OF assms(1,2), of qs] obtain r' where
    r': "get c i (moves qs s) = Some r'" "r' = r \<or> stage (state r) < stage (state r')" by blast
  then show ?thesis
    using assms(3) stage_le [of "state r'"] by (auto simp: terminal_iff_stage)
qed

text \<open>Of two requests for different final states, the later one is refused.\<close>

lemma first_final_wins:
  assumes "ok s" and "move q s = (Inr out, s')" and "is_terminal (target_of q)"
    and "id_of p = id_of q" and "claims_of p = claims_of q" and "target_of p \<noteq> target_of q"
  shows "\<exists>e. move p (moves qs s') = (Inl e, moves qs s')"
proof -
  note g = move_get [OF assms(1,2)]
  have ok: "ok s'" using move_ok [OF assms(1), of q] assms(2) by simp
  from g have stable: "get (claims_of p) (id_of p) (moves qs s') = Some (outcome_invocation out)"
    using finished_stable [OF ok] assms(3-5) by simp
  obtain res s2 where m: "move p (moves qs s') = (res, s2)" by fastforce
  show ?thesis
  proof (cases res)
    case (Inl e)
    then show ?thesis using m move_error by auto
  next
    case (Inr out2)
    note m = m [unfolded Inr]
    from move_known [OF moves_ok [OF ok] m] stable move_get [OF moves_ok [OF ok] m]
    have "stage (state (outcome_invocation out)) < stage (target_of p)"
      using g assms(6) by auto
    then show ?thesis
      using g assms(3) stage_le [of "target_of p"] by (simp add: terminal_iff_stage)
  qed
qed

end

section \<open>The store as a repository\<close>

record transition_request =
  req_fs :: file_system
  req_now :: time
  req_claims :: isolation_claims
  req_id :: string
  req_expected :: "u64 option"
  req_target :: invocation_state
  req_patch :: transition_patch

definition run_transition ::
  "chrono_lib \<Rightarrow> transition_request \<Rightarrow> invocation_store \<Rightarrow> (invocation_store_error + transition_outcome) \<times> invocation_store" where
  "run_transition lib q st = transition_outcome_for_claims lib (req_fs q) (req_now q) (req_claims q)
     (req_id q) (req_expected q) (req_target q) (req_patch q) st"

definition lookup_invocation :: "isolation_claims \<Rightarrow> string \<Rightarrow> invocation_store \<Rightarrow> invocation option" where
  "lookup_invocation c i st = find (\<lambda>r. inv_id r = i \<and> is_in_scope r c) (records st)"

lemma lookup_member:
  assumes "distinct (map inv_id (records st))"
  shows "lookup_invocation c i st = Some r \<longleftrightarrow> r \<in> set (records st) \<and> inv_id r = i \<and> is_in_scope r c"
proof
  assume "lookup_invocation c i st = Some r"
  then show "r \<in> set (records st) \<and> inv_id r = i \<and> is_in_scope r c"
    unfolding lookup_invocation_def by (auto dest: find_SomeD)
next
  assume r: "r \<in> set (records st) \<and> inv_id r = i \<and> is_in_scope r c"
  then show "lookup_invocation c i st = Some r"
    unfolding lookup_invocation_def using assms
    by (intro find_unique) (auto simp: distinct_map inj_on_def)
qed

lemma member_update:
  assumes "k < length xs" and "distinct (map f xs)" and "f y = f (xs ! k)"
  shows "z \<in> set (xs[k := y]) \<longleftrightarrow> z = y \<or> (z \<in> set xs \<and> f z \<noteq> f y)"
proof -
  have xs: "xs = take k xs @ xs ! k # drop (Suc k) xs" by (rule id_take_nth_drop [OF assms(1)])
  have "distinct (map f (take k xs @ xs ! k # drop (Suc k) xs))"
    using assms(2) xs by simp
  then have "z \<in> set (take k xs) \<union> set (drop (Suc k) xs) \<Longrightarrow> f z \<noteq> f (xs ! k)"
    by (simp del: append_take_drop_id) (metis imageI)
  moreover have "z \<in> set (xs[k := y]) \<longleftrightarrow> z = y \<or> z \<in> set (take k xs) \<union> set (drop (Suc k) xs)"
    by (auto simp: upd_conv_take_nth_drop [OF assms(1)])
  moreover have "z \<in> set xs \<longleftrightarrow> z = xs ! k \<or> z \<in> set (take k xs) \<union> set (drop (Suc k) xs)"
    by (subst xs) auto
  ultimately show ?thesis using assms(3) by auto
qed

text \<open>What a transition that changed the store finds and leaves.\<close>

lemma transition_lookup:
  assumes "store_ok st" and "run_transition lib q st = (Inr out, st')" and "changed out"
  shows "\<exists>r. lookup_invocation (req_claims q) (req_id q) st = Some r
    \<and> permits_with (state r) (req_target q) (patch_error (req_patch q))
    \<and> outcome_invocation out = apply_transition lib (req_now q) (req_claims q) (req_target q) (req_patch q) r
    \<and> (\<forall>z. z \<in> set (records st') \<longleftrightarrow> z = outcome_invocation out
        \<or> (z \<in> set (records st) \<and> inv_id z \<noteq> req_id q))"
proof -
  from transition_changed [OF assms(2) [unfolded run_transition_def] assms(3)] obtain k r where k:
    "k < length (records st)" "r = records st ! k" "inv_id r = req_id q" "is_in_scope r (req_claims q)"
    "permits_with (state r) (req_target q) (patch_error (req_patch q))"
    "outcome_invocation out = apply_transition lib (req_now q) (req_claims q) (req_target q) (req_patch q) r"
    and eq: "st' = st\<lparr>disk := Some ((records st)[k := apply_transition lib (req_now q) (req_claims q)
        (req_target q) (req_patch q) r]),
      records := (records st)[k := apply_transition lib (req_now q) (req_claims q)
        (req_target q) (req_patch q) r]\<rparr>"
    by blast
  have st': "records st' = (records st)[k := outcome_invocation out]"
    by (simp add: eq k(6))
  have d: "distinct (map inv_id (records st))" using assms(1) by (simp add: store_ok_def)
  have "lookup_invocation (req_claims q) (req_id q) st = Some r"
    using k(1-4) by (simp add: lookup_member [OF d])
  then show ?thesis
    using k member_update [OF k(1) d, of "outcome_invocation out"] by (auto simp: st')
qed

lemma run_transition_same: "run_transition lib q st = (Inl e, st') \<Longrightarrow> st' = st"
  by (auto simp: run_transition_def dest: transition_error)

lemma run_transition_noop:
  "run_transition lib q st = (Inr out, st') \<Longrightarrow> \<not> changed out \<Longrightarrow> st' = st
     \<and> lookup_invocation (req_claims q) (req_id q) st = Some (outcome_invocation out)
     \<and> state (outcome_invocation out) = req_target q"
  using transition_unchanged [of lib "req_fs q" "req_now q" "req_claims q" "req_id q" "req_expected q"
      "req_target q" "req_patch q" st out st']
  by (simp add: run_transition_def get_for_claims_def lookup_invocation_def)

lemma store_ok_run_transition: "store_ok st \<Longrightarrow> run_transition lib q st = (res, st') \<Longrightarrow> store_ok st'"
  unfolding run_transition_def by (rule store_ok_transition)

lemma store_distinct: "store_ok st \<Longrightarrow> distinct (map inv_id (records st))"
  by (simp add: store_ok_def)

interpretation repo: invocation_repository store_ok lookup_invocation
  "req_claims :: transition_request \<Rightarrow> _" req_id req_target "run_transition lib" for lib
proof
  fix st q
  assume "store_ok st"
  then show "store_ok (snd (run_transition lib q st))"
    using store_ok_run_transition [of st lib q] by (metis prod.collapse)
next
  fix st q out st'
  assume a: "store_ok st" "run_transition lib q st = (Inr out, st')"
  note d' = store_distinct [OF store_ok_run_transition [OF a]]
  show "lookup_invocation (req_claims q) (req_id q) st' = Some (outcome_invocation out)
      \<and> state (outcome_invocation out) = req_target q"
    using transition_lookup [OF a] run_transition_noop [OF a(2)] lookup_member [OF store_distinct [OF a(1)]]
    by (cases "changed out") (auto simp: lookup_member [OF d'])
  show "\<exists>r. lookup_invocation (req_claims q) (req_id q) st = Some r
      \<and> (outcome_invocation out = r \<or> stage (state r) < stage (req_target q))"
    using transition_lookup [OF a] run_transition_noop [OF a(2)] permits_with_stage
    by (cases "changed out") blast+
next
  fix c i st r and q :: transition_request
  assume a: "store_ok st" "lookup_invocation c i st = Some r" "i \<noteq> req_id q \<or> \<not> is_in_scope r (req_claims q)"
  obtain res st' where m: "run_transition lib q st = (res, st')" by fastforce
  note d = store_distinct [OF a(1)] and d' = store_distinct [OF store_ok_run_transition [OF a(1) m]]
  have r: "r \<in> set (records st)" "inv_id r = i" "is_in_scope r c" using a(2) by (simp_all add: lookup_member [OF d])
  show "lookup_invocation c i (snd (run_transition lib q st)) = Some r"
  proof (cases "\<exists>out. res = Inr out \<and> changed out")
    case True
    then obtain out where out: "res = Inr out" "changed out" by blast
    from transition_lookup [OF a(1) m [unfolded out(1)] out(2)] obtain r0 where
      r0: "lookup_invocation (req_claims q) (req_id q) st = Some r0"
      and st': "\<forall>z. z \<in> set (records st') \<longleftrightarrow> z = outcome_invocation out
        \<or> (z \<in> set (records st) \<and> inv_id z \<noteq> req_id q)" by blast
    have "inv_id r \<noteq> req_id q"
      using a(3) r r0 d by (auto simp: lookup_member [OF d] distinct_map inj_on_def)
    then show ?thesis using r st' m by (simp add: lookup_member [OF d'])
  next
    case False
    then have "st' = st" using m transition_no_change unfolding run_transition_def by blast
    then show ?thesis using a(2) m by simp
  qed
qed (auto simp: run_transition_same lookup_invocation_def is_in_scope_def dest: find_SomeD)

end
