(* ===== verification/Store_Properties.thy ===== *)
theory Store_Properties
  imports Idempotency Repository "HOL-Library.Multiset"
begin

text \<open>
  The properties of the invocation store, each with a concrete history that satisfies its
  hypotheses.
\<close>

section \<open>A sample history\<close>

text \<open>A clock library: a sign and the number of microseconds.\<close>

definition sample_write :: "time \<Rightarrow> string" where
  "sample_write t = (let n = t div 1000 in
     if n < 0 then CHR ''-'' # show_nat (nat (- n)) else show_nat (nat n))"

definition sample_parse :: "string \<Rightarrow> time option" where
  "sample_parse s = (case s of
       c # cs \<Rightarrow> if c = CHR ''-'' then Some (- int (dec_value cs) * 1000)
                else Some (int (dec_value s) * 1000)
     | [] \<Rightarrow> None)"

definition sample_chrono :: chrono_lib where
  "sample_chrono = \<lparr>parse_from_rfc3339 = sample_parse, to_rfc3339_micros = sample_write\<rparr>"

lemma sample_chrono_roundtrips: "chrono_roundtrips sample_chrono"
proof -
  have "sample_parse (sample_write t) = Some (t div 1000 * 1000)" for t
  proof (cases "t div 1000 < 0")
    case True
    then show ?thesis by (simp add: sample_parse_def sample_write_def Let_def dec_value_show_nat)
  next
    case False
    obtain c cs where s: "show_nat (nat (t div 1000)) = c # cs"
      by (cases "show_nat (nat (t div 1000))") auto
    have "c \<noteq> CHR ''-''"
      using show_nat_digits [of "nat (t div 1000)"] s by (auto simp: is_ascii_digit_def)
    moreover have "dec_value (c # cs) = nat (t div 1000)"
      using dec_value_show_nat [of "nat (t div 1000)"] s by simp
    ultimately show ?thesis
      using False by (simp add: sample_parse_def sample_write_def Let_def s)
  qed
  then show ?thesis
    by (simp add: chrono_roundtrips_def sample_chrono_def minus_mod_eq_div_mult)
qed

definition sample_claims :: isolation_claims where
  "sample_claims = \<lparr>tenant_id = ''t1'', project_id = ''p1'', actor_id = ''a1'',
     provenance = VerifiedExplicit, missing_scope_field = None\<rparr>"

definition sample_request :: invocation_request where
  "sample_request = \<lparr>prompt = Some ''go'', agent_id = None, agent_revision = None, input = None,
     input_ref = None, budget = None, deadline = None, metadata = []\<rparr>"

definition sample_new :: new_invocation where
  "sample_new = \<lparr>new_request = sample_request, new_agent_definition = None, new_task_iri = None,
     new_idempotency = Some \<lparr>reg_key = ''k'', reg_fingerprint = ''f''\<rparr>\<rparr>"

definition no_fault :: file_system where
  "no_fault recs = None"

definition sample_empty :: invocation_store where
  "sample_empty = \<lparr>store_config = default_config, records = [], disk = None, in_flight = {}\<rparr>"

definition sample_record :: invocation where
  "sample_record = fresh_record sample_chrono default_config ''i1'' 0 sample_claims sample_new"

definition sample_store :: invocation_store where
  "sample_store = sample_empty\<lparr>disk := Some [sample_record], records := [sample_record]\<rparr>"

lemma sample_create:
  "create_idempotent_for_claims sample_chrono no_fault ''i1'' 0 sample_claims sample_new sample_empty
   = (Inr (Created sample_record), sample_store)"
  by (simp add: create_idempotent_for_claims_def sample_empty_def sample_new_def bound_record_def
      sweep_expired_records_def drop_expired_bindings_def Let_def commit_def persist_def no_fault_def
      sample_store_def sample_record_def default_config_def MAX_STORED_INVOCATIONS_def)

lemma sample_reachable: "reachable sample_chrono sample_store {''i1''}"
proof -
  have "reachable sample_chrono sample_empty {}"
    by (rule reachable.opened [where fs = no_fault and now = 0 and started = 0 and cfg = default_config])
      (simp add: open_missing sample_empty_def)
  moreover have "store_step sample_chrono (sample_empty, {}) (sample_store, {''i1''})"
    using store_step.step [where op = "CreateOp 0 ''i1'' sample_claims sample_new" and used = "{}"
        and lib = sample_chrono and fs = no_fault and st = sample_empty]
    by (simp add: sample_create)
  ultimately show ?thesis by (rule reachable.stepped)
qed

lemma sample_store_ok: "store_ok sample_store"
  using reachable_inv [OF sample_reachable] by blast

lemma sample_members: "records sample_store = [sample_record]"
  by (simp add: sample_store_def)

definition sample_request_to :: "invocation_state \<Rightarrow> transition_request" where
  "sample_request_to t = \<lparr>req_fs = no_fault, req_now = 1000, req_claims = sample_claims, req_id = ''i1'',
     req_expected = None, req_target = t, req_patch = no_patch\<rparr>"

section \<open>The invariant\<close>

text \<open>
  C1: every store the program can reach, over any interleaving of creates, transitions, sweeps,
  key reservations and restarts with failing or succeeding writes, is well formed: records with
  distinct identifiers and consistent lifecycle fields, no scope over its active limit, no more
  records than the store may hold, at most one record bound to an idempotency slot, and the file
  equal to what memory publishes.
\<close>

theorem reachable_store_ok: "reachable lib st used \<Longrightarrow> store_ok st"
  using reachable_inv by blast

theorem reachable_store_ok_witness: "store_ok sample_store \<and> records sample_store \<noteq> []"
  using reachable_store_ok [OF sample_reachable] by (simp add: sample_store_def)

text \<open>
  C3: over any further history, restarts included, a record keeps its scope, request and
  creation, its state only moves forward in the lifecycle, its revision never decreases, and
  once it is terminal nothing of it changes but the removal of its idempotency binding.
\<close>

theorem record_history:
  assumes "reachable lib st used" and "(store_step lib)\<^sup>*\<^sup>* (st, used) (st', used')"
    and "r \<in> set (records st)" and "q \<in> set (records st')" and "inv_id q = inv_id r"
  shows "descends r q"
  using assms history_descends by blast

theorem record_history_witness:
  "descends sample_record (apply_transition sample_chrono 1000 sample_claims Running no_patch sample_record)"
proof -
  let ?op = "TransitionOp 1000 sample_claims ''i1'' None Running no_patch"
  let ?q = "apply_transition sample_chrono 1000 sample_claims Running no_patch sample_record"
  have "transition_outcome_for_claims sample_chrono no_fault 1000 sample_claims ''i1'' None Running no_patch sample_store
      = (Inr \<lparr>outcome_invocation = ?q, changed = True\<rparr>, sample_store\<lparr>disk := Some [?q], records := [?q]\<rparr>)"
    by (simp add: transition_outcome_for_claims_def patch_usage_def no_patch_def sample_members
        sample_record_def is_in_scope_def sample_claims_def permits_with_def Let_def commit_def
        persist_def no_fault_def)
  then have "store_step sample_chrono (sample_store, {''i1''})
      (sample_store\<lparr>disk := Some [?q], records := [?q]\<rparr>, {''i1''})"
    using store_step.step [where op = ?op and used = "{''i1''}" and lib = sample_chrono
        and fs = no_fault and st = sample_store] by simp
  then have "(store_step sample_chrono)\<^sup>*\<^sup>* (sample_store, {''i1''})
      (sample_store\<lparr>disk := Some [?q], records := [?q]\<rparr>, {''i1''})" by blast
  from record_history [OF sample_reachable this] show ?thesis
    by (simp add: sample_members)
qed



section \<open>Idempotent creation\<close>

text \<open>
  C2: under an accepted configuration, a create that is retried with the same key by the same
  actor of the same scope while its binding is live is answered from the invocation the first
  create made and changes nothing, whatever happened in between: other creates, transitions of
  any record, sweeps, and restarts with the same configuration, with failing or succeeding
  writes. The same key with another request is refused as a conflict.
\<close>

theorem idempotent_replay:
  assumes "chrono_roundtrips lib" and "try_from_vars lookup = Inr (store_config st)"
    and "reachable lib st used" and "i \<notin> used"
    and "create_idempotent_for_claims lib fs i t0 c new st = (Inr (Created r), st1)"
    and "new_idempotency new = Some reg"
    and "\<forall>(f, op) \<in> set ops. op_config (store_config st) op = store_config st
      \<and> (\<forall>t \<in> set (op_times op). t0 \<le> t \<and> t < expiry (store_config st) t0)"
    and "distinct (op_ids ops)" and "set (op_ids ops) \<inter> insert i used = {}"
    and "now < expiry (store_config st) t0"
    and "new_idempotency new' = Some reg'" and "reg_key reg' = reg_key reg"
  shows "\<exists>q. inv_id q = i
    \<and> create_idempotent_for_claims lib fs' j now c new' (run_ops lib ops st1)
      = (if reg_fingerprint reg' = reg_fingerprint reg then Inr (Replayed q)
         else Inl IdempotencyKeyConflict, run_ops lib ops st1)"
proof -
  have run: "st1 = run_op lib fs (CreateOp t0 i c new) st" using assms(5) by simp
  have "store_step lib (st, used) (st1, used \<union> set_option (op_id (CreateOp t0 i c new)))"
    unfolding run using assms(4) by (intro store_step.step) simp
  then have "store_ok st1" "inv_id ` set (records st1) \<subseteq> insert i used"
    using store_step_inv reachable_inv [OF assms(3)] by fastforce+
  moreover note h = created_holds_binding [OF assms(5,6)]
  moreover have "config_ok (store_config st)" by (rule try_from_vars_ok [OF assms(2)])
  ultimately have "holds_binding lib (store_config st) t0 c (reg_key reg) (reg_fingerprint reg) i (run_ops lib ops st1)
      \<and> store_ok (run_ops lib ops st1)"
    using run_ops_keeps_binding [OF assms(1), of st1 ops t0 "insert i used" c "reg_key reg" "reg_fingerprint reg" i]
      assms(7-9) by simp
  then show ?thesis
    using holds_binding_answers [OF assms(1) _ _ assms(10,11,12)] by blast
qed

lemma sample_config: "try_from_vars (\<lambda>_. None) = Inr default_config"
  by (simp add: try_from_vars_def positive_var_def default_config_def saturating_mul_def ns_per_hour_def)

lemma sample_new_key: "new_idempotency sample_new = Some \<lparr>reg_key = ''k'', reg_fingerprint = ''f''\<rparr>"
  by (simp add: sample_new_def)

lemma sample_ttl: "idempotency_ttl default_config = 86400000000000"
  by (simp add: default_config_def ns_per_hour_def)

theorem idempotent_replay_witness:
  "\<exists>q. inv_id q = ''i1''
    \<and> create_idempotent_for_claims sample_chrono no_fault ''i2'' 2000 sample_claims sample_new
        (run_ops sample_chrono [(no_fault, SweepOp 1000)] sample_store)
      = (Inr (Replayed q), run_ops sample_chrono [(no_fault, SweepOp 1000)] sample_store)"
proof -
  have "reachable sample_chrono sample_empty {}"
    by (rule reachable.opened [where fs = no_fault and now = 0 and started = 0 and cfg = default_config])
      (simp add: open_missing sample_empty_def)
  moreover have "store_config sample_empty = default_config" by (simp add: sample_empty_def)
  ultimately show ?thesis
    using idempotent_replay [OF sample_chrono_roundtrips, of "\<lambda>_. None" sample_empty "{}" "''i1''" no_fault 0
        sample_claims sample_new sample_record sample_store
        "\<lparr>reg_key = ''k'', reg_fingerprint = ''f''\<rparr>" "[(no_fault, SweepOp 1000)]" 2000 sample_new
        "\<lparr>reg_key = ''k'', reg_fingerprint = ''f''\<rparr>" no_fault "''i2''"]
    by (simp add: sample_config sample_create expiry_def micros_def sample_new_key sample_ttl
        del: run_ops.simps)
qed

section \<open>Restarts\<close>


lemma open_no_fault:
  "\<exists>st rep. open_with_config lib no_fault now started (FileRecords recs) cfg = Inr (st, rep)"
proof -
  obtain R2 n2 where R2: "sweep_expired_records lib (retention cfg) started (map (recover_record lib now) recs)
      = (R2, n2)" by fastforce
  obtain R3 n3 where R3: "drop_expired_bindings lib started R2 = (R3, n3)" by fastforce
  show ?thesis by (simp add: open_with_config_def R2 R3 Let_def persist_def no_fault_def)
qed


section \<open>Isolation of scopes\<close>

definition scope_view :: "isolation_claims \<Rightarrow> invocation_store \<Rightarrow> invocation list" where
  "scope_view c st = filter (\<lambda>r. is_in_scope r c) (records st)"

lemma lookup_scope_view: "lookup_invocation c i st = find (\<lambda>r. inv_id r = i) (scope_view c st)"
proof -
  have "find (\<lambda>r. P r \<and> Q r) xs = find P (filter Q xs)" for P Q and xs :: "invocation list"
    by (induction xs) auto
  then show ?thesis by (simp add: lookup_invocation_def scope_view_def)
qed

text \<open>The answer of a transition, as a function of the record the lookup finds.\<close>

lemma transition_answer:
  "fst (transition_outcome_for_claims lib (\<lambda>_. fault) now c i expected t patch st) =
     (case (case patch_usage patch of None \<Rightarrow> Inr () | Some u \<Rightarrow> map_err InvalidUsage (validate_usage u)) of
        Inl e \<Rightarrow> Inl e
      | Inr _ \<Rightarrow> (case lookup_invocation c i st of
          None \<Rightarrow> Inl NotFound
        | Some r \<Rightarrow>
            if state r = t then Inr \<lparr>outcome_invocation = r, changed = False\<rparr>
            else if (case expected of None \<Rightarrow> False | Some n \<Rightarrow> n \<noteq> revision r)
            then Inl (RevisionConflict (revision r))
            else if is_terminal (state r) \<or> \<not> permits_with (state r) t (patch_error patch)
            then Inl (IllegalTransition (state r) t)
            else (case fault of Some e \<Rightarrow> Inl (Persistence e)
              | None \<Rightarrow> Inr \<lparr>outcome_invocation = apply_transition lib now c t patch r, changed = True\<rparr>)))"
proof -
  let ?usage = "case patch_usage patch of None \<Rightarrow> Inr () | Some u \<Rightarrow> map_err InvalidUsage (validate_usage u)"
  let ?pos = "position (\<lambda>r. inv_id r = i \<and> is_in_scope r c) (records st)"
  show ?thesis
  proof (cases ?usage)
    case (Inl e)
    then show ?thesis unfolding transition_outcome_for_claims_def by simp
  next
    case (Inr v)
    then show ?thesis
      unfolding transition_outcome_for_claims_def lookup_invocation_def find_position
      by (cases ?pos; cases fault) (simp_all add: Let_def commit_def persist_def)
  qed
qed

text \<open>
  What one scope is answered depends only on the records of that scope: two stores that
  agree on them answer every read, list and transition of its claims alike, so an identifier of
  another scope is answered exactly as one that does not exist.
\<close>

theorem scope_noninterference:
  assumes "scope_view c st = scope_view c st'"
  shows "get_for_claims c i st = get_for_claims c i st'
    \<and> list_for_claims c wanted st = list_for_claims c wanted st'
    \<and> fst (transition_outcome_for_claims lib (\<lambda>_. fault) now c i expected t patch st)
      = fst (transition_outcome_for_claims lib (\<lambda>_. fault) now c i expected t patch st')"
proof -
  have l: "lookup_invocation c i st = lookup_invocation c i st'"
    using assms by (simp add: lookup_scope_view)
  then have "get_for_claims c i st = get_for_claims c i st'"
    by (simp add: get_for_claims_def lookup_invocation_def)
  moreover have "list_for_claims c wanted st = list_for_claims c wanted st'"
    using assms by (simp add: list_for_claims_def scope_view_def)
  ultimately show ?thesis unfolding transition_answer l by simp
qed

definition other_claims :: isolation_claims where
  "other_claims = sample_claims\<lparr>tenant_id := ''t2''\<rparr>"

theorem scope_noninterference_witness:
  "get_for_claims other_claims ''i1'' sample_store = get_for_claims other_claims ''i1'' sample_empty"
  using scope_noninterference [of other_claims sample_store sample_empty "''i1''"]
  by (simp add: scope_view_def sample_members sample_empty_def sample_record_def is_in_scope_def
      other_claims_def sample_claims_def)

text \<open>
  A transition under one scope's claims leaves every record of every other scope as it was,
  and within the scope touches only the record it names.
\<close>

theorem transition_confined:
  assumes "store_ok st" and "run_transition lib q st = (res, st')"
    and "r \<in> set (records st)" and "inv_id r \<noteq> req_id q \<or> \<not> is_in_scope r (req_claims q)"
  shows "r \<in> set (records st')"
proof -
  let ?own = "sample_claims\<lparr>tenant_id := inv_tenant_id r, project_id := inv_project_id r\<rparr>"
  have "lookup_invocation ?own (inv_id r) st = Some r"
    using assms(3) by (simp add: lookup_member [OF store_distinct [OF assms(1)]] is_in_scope_def)
  from repo.get_frame [OF assms(1) this assms(4), of lib] assms(2)
  have "lookup_invocation ?own (inv_id r) st' = Some r" by simp
  then show ?thesis
    using lookup_member store_distinct [OF store_ok_run_transition [OF assms(1,2)]] by blast
qed

theorem transition_confined_witness:
  "sample_record \<in> set (records (snd (run_transition sample_chrono
     ((sample_request_to Running)\<lparr>req_claims := other_claims\<rparr>) sample_store)))"
  using transition_confined [OF sample_store_ok surjective_pairing, of sample_record
      "(sample_request_to Running)\<lparr>req_claims := other_claims\<rparr>" sample_chrono]
  by (simp add: sample_members sample_record_def is_in_scope_def other_claims_def sample_claims_def)

section \<open>Transitions\<close>

lemma transition_conflict:
  assumes "lookup_invocation c i st = Some r" and "patch_usage patch = None" and "state r \<noteq> t"
    and "expected = Some n" and "n \<noteq> revision r"
  shows "transition_outcome_for_claims lib fs now c i expected t patch st
    = (Inl (RevisionConflict (revision r)), st)"
proof -
  from assms(1) obtain k where
    "position (\<lambda>r. inv_id r = i \<and> is_in_scope r c) (records st) = Some k" "records st ! k = r"
    by (auto simp: lookup_invocation_def find_position)
  then show ?thesis using assms(2-) by (simp add: transition_outcome_for_claims_def)
qed


definition sample_cas :: "invocation_state \<Rightarrow> transition_request" where
  "sample_cas t = (sample_request_to t)\<lparr>req_expected := Some 1\<rparr>"

definition sample_running :: invocation where
  "sample_running = apply_transition sample_chrono 1000 sample_claims Running no_patch sample_record"

definition sample_running_store :: invocation_store where
  "sample_running_store = sample_empty\<lparr>disk := Some [sample_running], records := [sample_running]\<rparr>"

lemma sample_cas_runs:
  "run_transition sample_chrono (sample_cas Running) sample_store
   = (Inr \<lparr>outcome_invocation = sample_running, changed = True\<rparr>, sample_running_store)"
  by (simp add: run_transition_def sample_cas_def sample_request_to_def transition_outcome_for_claims_def
      patch_usage_def no_patch_def sample_store_def sample_record_def is_in_scope_def sample_claims_def
      permits_with_def Let_def commit_def persist_def no_fault_def sample_running_def sample_running_store_def)


text \<open>
  A finished invocation is immutable: whatever requests are made after it reached a final
  state, a read by its scope returns the same record.
\<close>

theorem finished_invocation_immutable:
  assumes "store_ok st" and "lookup_invocation c i st = Some r" and "is_terminal (state r)"
  shows "lookup_invocation c i (fold (\<lambda>q s. snd (run_transition lib q s)) qs st) = Some r"
proof -
  have "fold (\<lambda>q s. snd (run_transition lib q s)) qs s = repo.moves lib qs s" for s
    by (induction qs arbitrary: s) auto
  then show ?thesis using repo.finished_stable [OF assms] by simp
qed

definition sample_cancelled :: invocation where
  "sample_cancelled = apply_transition sample_chrono 1000 sample_claims Cancelled no_patch sample_record"

definition sample_cancelled_store :: invocation_store where
  "sample_cancelled_store = sample_empty\<lparr>disk := Some [sample_cancelled], records := [sample_cancelled]\<rparr>"

lemma sample_cancels:
  "run_transition sample_chrono (sample_cas Cancelled) sample_store
   = (Inr \<lparr>outcome_invocation = sample_cancelled, changed = True\<rparr>, sample_cancelled_store)"
  by (simp add: run_transition_def sample_cas_def sample_request_to_def transition_outcome_for_claims_def
      patch_usage_def no_patch_def sample_store_def sample_record_def is_in_scope_def sample_claims_def
      permits_with_def Let_def commit_def persist_def no_fault_def sample_cancelled_def sample_cancelled_store_def)

lemma sample_cancelled_found:
  "lookup_invocation sample_claims ''i1'' sample_cancelled_store = Some sample_cancelled"
  by (simp add: lookup_invocation_def sample_cancelled_store_def sample_cancelled_def sample_record_def
      is_in_scope_def sample_claims_def)

theorem finished_invocation_immutable_witness:
  "lookup_invocation sample_claims ''i1'' (fold (\<lambda>q s. snd (run_transition sample_chrono q s))
     [sample_request_to Running, sample_request_to Failed] sample_cancelled_store) = Some sample_cancelled"
  by (rule finished_invocation_immutable [OF store_ok_run_transition [OF sample_store_ok sample_cancels]
        sample_cancelled_found]) (simp add: sample_cancelled_def)

text \<open>
  Of two requests that ask for different final states, the first to succeed wins: after any
  further requests the other one is refused and changes nothing.
\<close>

theorem first_final_state_wins:
  assumes "store_ok st" and "run_transition lib q st = (Inr out, st')" and "is_terminal (req_target q)"
    and "req_id p = req_id q" and "req_claims p = req_claims q" and "req_target p \<noteq> req_target q"
    and "st'' = fold (\<lambda>q s. snd (run_transition lib q s)) qs st'"
  shows "\<exists>e. run_transition lib p st'' = (Inl e, st'')"
proof -
  have "fold (\<lambda>q s. snd (run_transition lib q s)) qs s = repo.moves lib qs s" for s
    by (induction qs arbitrary: s) auto
  then show ?thesis
    using repo.first_final_wins [OF assms(1,2,3), of p qs] assms(4-7) by simp
qed

theorem first_final_state_wins_witness:
  "\<exists>e. run_transition sample_chrono (sample_request_to Failed) sample_cancelled_store
     = (Inl e, sample_cancelled_store)"
  by (rule first_final_state_wins [OF sample_store_ok sample_cancels, where qs = "[]"])
    (simp_all add: sample_cas_def sample_request_to_def)

text \<open>
  C7: an operation that returns an error, a failed write included, leaves the store and its file
  exactly as they were; a create that is answered by a replay does too.
\<close>

theorem failed_operation_changes_nothing:
  "(create_idempotent_for_claims lib fs i now c new st = (Inl e, st') \<longrightarrow> st' = st)
   \<and> (create_idempotent_for_claims lib fs i now c new st = (Inr (Replayed r), st') \<longrightarrow> st' = st)
   \<and> (transition_outcome_for_claims lib fs now c i expected t patch st = (Inl e, st') \<longrightarrow> st' = st)
   \<and> (sweep_expired_at lib fs now st = (Inl e, st') \<longrightarrow> st' = st)"
  using create_not_Created [of lib fs i now c new st _ st'] transition_error
  by (auto simp: sweep_expired_at_def sweep_expired_records_def Let_def commit_Inl split: if_splits)

definition write_fault :: file_system where
  "write_fault recs = Some ''disk full''"

theorem failed_operation_changes_nothing_witness:
  "create_idempotent_for_claims sample_chrono write_fault ''i1'' 0 sample_claims sample_new sample_empty
   = (Inl (Persistence ''disk full''), sample_empty)"
proof -
  obtain res st' where run:
    "create_idempotent_for_claims sample_chrono write_fault ''i1'' 0 sample_claims sample_new sample_empty = (res, st')"
    by fastforce
  moreover from this have "res = Inl (Persistence ''disk full'')"
    by (auto simp: create_idempotent_for_claims_def sample_empty_def sample_new_def bound_record_def
      sweep_expired_records_def drop_expired_bindings_def Let_def commit_def persist_def write_fault_def
      default_config_def MAX_STORED_INVOCATIONS_def)
  ultimately show ?thesis using failed_operation_changes_nothing by metis
qed

section \<open>Listing and the queue\<close>

lemma sort_desc_props:
  "mset (sort_desc key xs) = mset xs"
  "sorted_wrt (\<lambda>a b. key b \<le> key a) (sort_desc key xs)"
proof -
  show "mset (sort_desc key xs) = mset xs" by (simp add: sort_desc_def)
  have "sorted_wrt (\<lambda>a b. key a \<le> key b) (sort_key key (rev xs))"
    using sorted_sort_key [of key "rev xs"] by (simp add: sorted_map)
  then show "sorted_wrt (\<lambda>a b. key b \<le> key a) (sort_desc key xs)"
    by (simp add: sort_desc_def sorted_wrt_rev)
qed

text \<open>
  A listing is exactly the scope's records in the wanted state, each as often as it is
  stored, newest first, with the identifier deciding between equal creation times.
\<close>

theorem listing_exact:
  "mset (list_for_claims c wanted st)
     = filter_mset (\<lambda>r. is_in_scope r c \<and> (wanted = None \<or> wanted = Some (state r))) (mset (records st))
   \<and> sorted_wrt (\<lambda>a b. age_key b \<le> age_key a) (list_for_claims c wanted st)"
proof -
  have "filter (\<lambda>r. case wanted of None \<Rightarrow> True | Some s \<Rightarrow> state r = s) (filter (\<lambda>r. is_in_scope r c) recs)
      = filter (\<lambda>r. is_in_scope r c \<and> (wanted = None \<or> wanted = Some (state r))) recs" for recs
    by (induction recs) (auto split: option.splits)
  then show ?thesis
    unfolding list_for_claims_def by (simp add: sort_desc_props)
qed

text \<open>
  The queue head is a queued invocation that no queued invocation is older than, and there
  is none only when nothing is queued.
\<close>

theorem queue_head_oldest:
  "case oldest_queued_global st of
     None \<Rightarrow> \<not> (\<exists>r \<in> set (records st). state r = Queued)
   | Some r \<Rightarrow> r \<in> set (records st) \<and> state r = Queued
       \<and> \<not> (\<exists>q \<in> set (records st). state q = Queued \<and> age_key q < age_key r)"
proof (cases "oldest_queued_global st")
  case None
  then have "filter (\<lambda>r. state r = Queued) (records st) = []" by (simp add: oldest_queued_global_def)
  with None show ?thesis by (simp add: filter_empty_conv)
next
  case (Some r)
  then show ?thesis
    using min_by_key_Some [of age_key "filter (\<lambda>r. state r = Queued) (records st)" r]
    by (auto simp: oldest_queued_global_def not_less)
qed

end
