(* ===== verification/Identity.thy ===== *)
theory Identity
  imports Isolation Json Invocation_Record
begin

text \<open>
  Who is calling (\<open>src/api/http/iam.rs\<close>): the authentication profile, the verification of bearer tokens
  with its cache of key sets, the identity of a request, and the role gates of the control plane. Token
  decoding, the URL reader, base64 and the JSON reader are parameters, and the process environment is a
  function from names to values.
\<close>

section \<open>Identities\<close>

definition PLATFORM_ADMIN_ROLE :: string where
  "PLATFORM_ADMIN_ROLE = ''PLATFORM_ADMIN''"
definition PLATFORM_ADMIN_TENANT_ENV :: string where
  "PLATFORM_ADMIN_TENANT_ENV = ''AGENTOS_PLATFORM_ADMIN_TENANT''"

record jwt_claims =
  jwt_sub :: string
  jwt_tenant_id :: string
  jwt_project_id :: "string option"
  jwt_roles :: "string list"
  jwt_exp :: u64

datatype auth_method = Jwt | Base64Header | ApiKey | Anonymous

record user_identity =
  user_id :: string
  identity_tenant_id :: string
  roles :: "string list"
  auth_method_of :: auth_method
  isolation_claims_of :: "isolation_claims option"

definition anonymous :: user_identity where
  "anonymous = \<lparr>user_id = ''anonymous'', identity_tenant_id = ''default'', roles = [], auth_method_of = Anonymous,
     isolation_claims_of = None\<rparr>"

definition has_role :: "string \<Rightarrow> user_identity \<Rightarrow> bool" where
  "has_role role identity \<longleftrightarrow> role \<in> set (roles identity)"

definition claims_identity :: "jwt_claims \<Rightarrow> user_identity option" where
  "claims_identity claims =
     (if is_blank (jwt_tenant_id claims) then None
      else case (case jwt_project_id claims of
                   Some p \<Rightarrow> if is_blank p then (''default'', VerifiedDefaulted, Some ProjectId)
                             else (p, VerifiedExplicit, None)
                 | None \<Rightarrow> (''default'', VerifiedDefaulted, Some ProjectId)) of
             (project, prov, missing) \<Rightarrow>
               (case from_verified_jwt (jwt_tenant_id claims) project (jwt_sub claims) prov missing of
                  Inl _ \<Rightarrow> None
                | Inr c \<Rightarrow> Some \<lparr>user_id = jwt_sub claims, identity_tenant_id = jwt_tenant_id claims,
                             roles = jwt_roles claims, auth_method_of = Jwt, isolation_claims_of = Some c\<rparr>))"

section \<open>The authentication profile\<close>

type_synonym environment = "string \<Rightarrow> string option"

definition DEFAULT_HS256_SECRET :: string where
  "DEFAULT_HS256_SECRET = ''agentos-dev-secret-change-in-prod''"

definition auth_strict :: "environment \<Rightarrow> bool" where
  "auth_strict env \<longleftrightarrow> env ''AGENTOS_AUTH_STRICT'' = Some ''true''"

definition jwt_secret :: "environment \<Rightarrow> string" where
  "jwt_secret env = (case env ''AGENTOS_JWT_SECRET'' of Some v \<Rightarrow> v | None \<Rightarrow> DEFAULT_HS256_SECRET)"

datatype auth_mode = Hs256 | Oidc

definition auth_mode_of :: "(string \<Rightarrow> string) \<Rightarrow> environment \<Rightarrow> string + auth_mode" where
  "auth_mode_of show_debug env =
     (let value = (case env ''AGENTOS_AUTH_MODE'' of Some v \<Rightarrow> v | None \<Rightarrow> ''hs256'')
      in if value = ''hs256'' then Inr Hs256
         else if value = ''oidc'' then Inr Oidc
         else Inl (''unsupported AGENTOS_AUTH_MODE '' @ show_debug value))"

definition production_environment :: "environment \<Rightarrow> bool" where
  "production_environment env =
     (case env ''AGENTOS_ENV'' of None \<Rightarrow> False | Some v \<Rightarrow> eq_ignore_ascii_case v ''production'')"

definition required_env :: "environment \<Rightarrow> string \<Rightarrow> string + string" where
  "required_env env name =
     (case env name of
        Some v \<Rightarrow> if is_blank v then Inl (name @ '' must be configured for OIDC authentication'') else Inr v
      | None \<Rightarrow> Inl (name @ '' must be configured for OIDC authentication''))"

definition validate_hs256_secret :: "environment \<Rightarrow> string + unit" where
  "validate_hs256_secret env =
     and_then (required_env env ''AGENTOS_JWT_SECRET'') (\<lambda>secret.
       if secret = DEFAULT_HS256_SECRET
       then Inl ''AGENTOS_JWT_SECRET must be explicitly set to a non-default, randomly generated secret for HS256 authentication''
       else if length secret < 32
       then Inl ''AGENTOS_JWT_SECRET must be at least 32 bytes of securely generated secret material for HS256 authentication''
       else Inr ())"

record oidc_config =
  jwks_url :: string
  oidc_issuer :: string
  oidc_audience :: string

text \<open>A parsed URL, as far as the code looks at it: its scheme and its host.\<close>

record parsed_url =
  url_scheme :: string
  url_host :: "string option"

definition oidc_config_of :: "(string \<Rightarrow> parsed_url option) \<Rightarrow> environment \<Rightarrow> string + oidc_config" where
  "oidc_config_of parse_url env =
     and_then (required_env env ''AGENTOS_OIDC_JWKS_URL'') (\<lambda>text.
     and_then (ok_or ''AGENTOS_OIDC_JWKS_URL must be a valid HTTPS URL'' (parse_url text)) (\<lambda>url.
       let loopback_http = \<not> production_environment env \<and> url_scheme url = ''http''
             \<and> (case url_host url of None \<Rightarrow> False | Some h \<Rightarrow> h \<in> {''127.0.0.1'', ''localhost'', ''::1''})
       in if url_scheme url \<noteq> ''https'' \<and> \<not> loopback_http
          then Inl ''AGENTOS_OIDC_JWKS_URL must use HTTPS (HTTP is limited to loopback development and test fixtures)''
          else and_then (required_env env ''AGENTOS_OIDC_ISSUER'') (\<lambda>iss.
               and_then (required_env env ''AGENTOS_OIDC_AUDIENCE'') (\<lambda>aud.
                 Inr \<lparr>jwks_url = text, oidc_issuer = iss, oidc_audience = aud\<rparr>))))"

definition validate_startup_auth_configuration ::
  "(string \<Rightarrow> string) \<Rightarrow> (string \<Rightarrow> parsed_url option) \<Rightarrow> environment \<Rightarrow> string + unit" where
  "validate_startup_auth_configuration show_debug parse_url env =
     and_then (auth_mode_of show_debug env) (\<lambda>mode.
       case mode of
         Hs256 \<Rightarrow> if production_environment env
                  then Inl ''AGENTOS_AUTH_MODE=oidc is required when AGENTOS_ENV=production; HS256 is limited to local development''
                  else validate_hs256_secret env
       | Oidc \<Rightarrow> and_then (oidc_config_of parse_url env) (\<lambda>_. Inr ()))"

section \<open>Bearer tokens\<close>

datatype algorithm = RS256 | RS384 | RS512 | ES256 | ES384 | EdDSA | OtherAlgorithm

record jwt_header =
  jwt_alg :: algorithm
  jwt_kid :: "string option"

text \<open>
  The token library: decoding under a shared secret, reading a header, finding a key of a key set, and
  decoding under a public key of an issuer for an audience. A decoded token has been verified.
\<close>

record ('ks, 'j) jwt_lib =
  decode_hs256 :: "string \<Rightarrow> string \<Rightarrow> jwt_claims option"
  decode_header :: "string \<Rightarrow> jwt_header option"
  find_jwk :: "'ks \<Rightarrow> string \<Rightarrow> 'j option"
  decode_oidc :: "'j \<Rightarrow> algorithm \<Rightarrow> string \<Rightarrow> string \<Rightarrow> string \<Rightarrow> jwt_claims option"

record 'ks cached_jwks =
  cache_url :: string
  fetched_at :: time
  cache_keys :: 'ks

definition JWKS_CACHE_TTL :: time where
  "JWKS_CACHE_TTL = 300 * 1000000000"

text \<open>\<open>fetch\<close> is what the identity provider answers now; \<open>now\<close> is the monotonic clock.\<close>

definition jwks_for ::
  "(string \<Rightarrow> 'ks option) \<Rightarrow> time \<Rightarrow> oidc_config \<Rightarrow> bool \<Rightarrow> 'ks cached_jwks option
   \<Rightarrow> 'ks option \<times> 'ks cached_jwks option" where
  "jwks_for fetch now config refresh cache =
     (case (if refresh then None else cache) of
        Some cached \<Rightarrow>
          if cache_url cached = jwks_url config \<and> now - fetched_at cached < JWKS_CACHE_TTL
          then (Some (cache_keys cached), cache)
          else (case fetch (jwks_url config) of
                  None \<Rightarrow> (None, cache)
                | Some ks \<Rightarrow> (Some ks, Some \<lparr>cache_url = jwks_url config, fetched_at = now, cache_keys = ks\<rparr>))
      | None \<Rightarrow>
          (case fetch (jwks_url config) of
             None \<Rightarrow> (None, cache)
           | Some ks \<Rightarrow> (Some ks, Some \<lparr>cache_url = jwks_url config, fetched_at = now, cache_keys = ks\<rparr>)))"

definition verify_hs256_jwt :: "('ks, 'j) jwt_lib \<Rightarrow> environment \<Rightarrow> string \<Rightarrow> user_identity option" where
  "verify_hs256_jwt lib env token = Option.bind (decode_hs256 lib (jwt_secret env) token) claims_identity"

definition allowed_algorithms :: "algorithm set" where
  "allowed_algorithms = {RS256, RS384, RS512, ES256, ES384, EdDSA}"

definition verify_oidc_jwt ::
  "('ks, 'j) jwt_lib \<Rightarrow> (string \<Rightarrow> parsed_url option) \<Rightarrow> (string \<Rightarrow> 'ks option) \<Rightarrow> (string \<Rightarrow> 'ks option) \<Rightarrow> time
   \<Rightarrow> environment \<Rightarrow> string \<Rightarrow> 'ks cached_jwks option \<Rightarrow> user_identity option \<times> 'ks cached_jwks option" where
  "verify_oidc_jwt lib parse_url fetch refetch now env token cache =
     (case oidc_config_of parse_url env of
        Inl _ \<Rightarrow> (None, cache)
      | Inr config \<Rightarrow>
        (case decode_header lib token of
           None \<Rightarrow> (None, cache)
         | Some header \<Rightarrow>
           if jwt_alg header \<notin> allowed_algorithms then (None, cache)
           else (case jwt_kid header of
              None \<Rightarrow> (None, cache)
            | Some k \<Rightarrow>
              if k = [] then (None, cache)
              else (case jwks_for fetch now config False cache of
                 (None, cache) \<Rightarrow> (None, cache)
               | (Some keys, cache) \<Rightarrow>
                 (case (if find_jwk lib keys k \<noteq> None then (Some keys, cache)
                        else jwks_for refetch now config True cache) of
                    (None, cache) \<Rightarrow> (None, cache)
                  | (Some keys, cache) \<Rightarrow>
                    (case find_jwk lib keys k of
                       None \<Rightarrow> (None, cache)
                     | Some jwk \<Rightarrow>
                         (Option.bind (decode_oidc lib jwk (jwt_alg header) (oidc_issuer config) (oidc_audience config) token)
                            claims_identity, cache)))))))"

definition verify_jwt ::
  "('ks, 'j) jwt_lib \<Rightarrow> (string \<Rightarrow> string) \<Rightarrow> (string \<Rightarrow> parsed_url option) \<Rightarrow> (string \<Rightarrow> 'ks option)
   \<Rightarrow> (string \<Rightarrow> 'ks option) \<Rightarrow> time \<Rightarrow> environment \<Rightarrow> string \<Rightarrow> 'ks cached_jwks option
   \<Rightarrow> user_identity option \<times> 'ks cached_jwks option" where
  "verify_jwt lib show_debug parse_url fetch refetch now env token cache =
     (case auth_mode_of show_debug env of
        Inr Hs256 \<Rightarrow> (verify_hs256_jwt lib env token, cache)
      | Inr Oidc \<Rightarrow> verify_oidc_jwt lib parse_url fetch refetch now env token cache
      | Inl _ \<Rightarrow> (None, cache))"

text \<open>The blocking variant of the gRPC interceptor: the runtime it is called from, and whether one can be built.\<close>

datatype runtime_flavor = MultiThread | CurrentThread

definition verify_bearer_blocking ::
  "('ks, 'j) jwt_lib \<Rightarrow> (string \<Rightarrow> string) \<Rightarrow> (string \<Rightarrow> parsed_url option) \<Rightarrow> (string \<Rightarrow> 'ks option)
   \<Rightarrow> (string \<Rightarrow> 'ks option) \<Rightarrow> time \<Rightarrow> environment \<Rightarrow> runtime_flavor option \<Rightarrow> bool \<Rightarrow> string \<Rightarrow> 'ks cached_jwks option
   \<Rightarrow> user_identity option \<times> 'ks cached_jwks option" where
  "verify_bearer_blocking lib show_debug parse_url fetch refetch now env current can_build token cache =
     (case auth_mode_of show_debug env of
        Inr Hs256 \<Rightarrow> (verify_hs256_jwt lib env token, cache)
      | Inl _ \<Rightarrow> (None, cache)
      | Inr Oidc \<Rightarrow>
          (case current of
             Some MultiThread \<Rightarrow> verify_oidc_jwt lib parse_url fetch refetch now env token cache
           | Some CurrentThread \<Rightarrow> (None, cache)
           | None \<Rightarrow> if can_build then verify_oidc_jwt lib parse_url fetch refetch now env token cache
                     else (None, cache)))"

text \<open>It accepts nothing the asynchronous verification refuses.\<close>

lemma verify_bearer_blocking_sound:
  "verify_bearer_blocking lib dbg url fetch refetch now env current can_build token cache = (Some i, cache') \<Longrightarrow>
     verify_jwt lib dbg url fetch refetch now env token cache = (Some i, cache')"
  by (auto simp: verify_bearer_blocking_def verify_jwt_def split: sum.splits auth_mode.splits option.splits
      runtime_flavor.splits if_splits)

section \<open>The identity of a request\<close>

definition is_ascii_whitespace :: "char \<Rightarrow> bool" where
  "is_ascii_whitespace c \<longleftrightarrow> byte c \<in> {9, 10, 12, 13, 32}"

fun split_ascii_whitespace :: "string \<Rightarrow> string list" where
  "split_ascii_whitespace [] = []"
| "split_ascii_whitespace (c # s) =
     (if is_ascii_whitespace c then split_ascii_whitespace s
      else case s of
             [] \<Rightarrow> [[c]]
           | d # _ \<Rightarrow> if is_ascii_whitespace d then [c] # split_ascii_whitespace s
                      else (case split_ascii_whitespace s of
                              [] \<Rightarrow> [[c]] | w # ws \<Rightarrow> (c # w) # ws))"

definition str_field :: "json \<Rightarrow> string \<Rightarrow> string \<Rightarrow> string" where
  "str_field v key default_value = (case get_str v key of Some s \<Rightarrow> s | None \<Rightarrow> default_value)"

definition arr_field :: "json \<Rightarrow> string \<Rightarrow> string list" where
  "arr_field v key =
     (case Option.bind (json_get v key) as_array of None \<Rightarrow> [] | Some xs \<Rightarrow> List.map_filter as_str xs)"

text \<open>\<open>decode_identity\<close> is base64 followed by the JSON reader.\<close>

definition from_request_parts ::
  "(string \<Rightarrow> user_identity option \<times> 'c) \<Rightarrow> (string \<Rightarrow> json option) \<Rightarrow> environment \<Rightarrow> string option
   \<Rightarrow> string option \<Rightarrow> 'c \<Rightarrow> ((nat \<times> string) + user_identity) \<times> 'c" where
  "from_request_parts verify decode_identity env authorization x_identity cache =
     (let other =
        (case x_identity of
           None \<Rightarrow> Inr anonymous
         | Some hdr \<Rightarrow>
             if auth_strict env then Inl (401, ''X-Identity is not authorized'')
             else (case Option.bind (header_to_str hdr) decode_identity of
                     None \<Rightarrow> Inr anonymous
                   | Some claims \<Rightarrow>
                       Inr \<lparr>user_id = str_field claims ''user_id'' ''anonymous'',
                            identity_tenant_id = str_field claims ''tenant_id'' ''default'',
                            roles = arr_field claims ''roles'', auth_method_of = Base64Header,
                            isolation_claims_of = None\<rparr>))
      in case Option.bind authorization header_to_str of
           None \<Rightarrow> (other, cache)
         | Some val \<Rightarrow>
             (case split_ascii_whitespace val of
                [] \<Rightarrow> (other, cache)
              | scheme # rest \<Rightarrow>
                  if \<not> eq_ignore_ascii_case scheme ''bearer'' then (other, cache)
                  else (case rest of
                          [] \<Rightarrow> (Inl (401, ''Bearer token verification failed''), cache)
                        | token # _ \<Rightarrow>
                            (case verify token of
                               (Some identity, cache) \<Rightarrow> (Inr identity, cache)
                             | (None, cache) \<Rightarrow> (Inl (401, ''Bearer token verification failed''), cache)))))"

section \<open>Gates\<close>

record gate_error =
  gate_status :: nat
  gate_code :: string
  gate_detail :: string

definition require_verified_isolation_claims :: "string \<Rightarrow> user_identity \<Rightarrow> gate_error + unit" where
  "require_verified_isolation_claims resource identity =
     (if isolation_claims_of identity \<noteq> None then Inr ()
      else Inl \<lparr>gate_status = 401, gate_code = ''verified_isolation_claims_required'',
                gate_detail = ''verified isolation claims required for '' @ resource\<rparr>)"

definition require_role :: "environment \<Rightarrow> string \<Rightarrow> user_identity \<Rightarrow> gate_error + unit" where
  "require_role env role identity =
     (if has_role role identity then Inr ()
      else if \<not> auth_strict env \<and> auth_method_of identity = Anonymous then Inr ()
      else Inl \<lparr>gate_status = 403, gate_code = ''forbidden'', gate_detail = role\<rparr>)"

definition require_control_plane_da :: "environment \<Rightarrow> string \<Rightarrow> user_identity \<Rightarrow> gate_error + unit" where
  "require_control_plane_da env resource identity =
     and_then (require_verified_isolation_claims resource identity) (\<lambda>_.
     and_then (require_role env ''DA'' identity) (\<lambda>_.
       case isolation_claims_of identity of
         None \<Rightarrow> Inr ()
       | Some c \<Rightarrow>
           (case provenance c of
              VerifiedExplicit \<Rightarrow> Inr ()
            | VerifiedDefaulted \<Rightarrow>
                Inl \<lparr>gate_status = 403, gate_code = ''control_plane_claims_incomplete'',
                     gate_detail = (case missing_scope_field c of
                        None \<Rightarrow> ''project_id'' | Some f \<Rightarrow> isolation_scope_field_as_str f)\<rparr>
            | DeploymentConfig \<Rightarrow>
                Inl \<lparr>gate_status = 403, gate_code = ''control_plane_claims_unverified'', gate_detail = []\<rparr>)))"

definition require_platform_admin :: "environment \<Rightarrow> string \<Rightarrow> user_identity \<Rightarrow> gate_error + unit" where
  "require_platform_admin env resource identity =
     and_then (require_verified_isolation_claims resource identity) (\<lambda>_.
       let denied = Inl \<lparr>gate_status = 403, gate_code = ''platform_admin_required'',
                         gate_detail = ''platform administrator required for '' @ resource\<rparr>;
           tenant = trim (case env PLATFORM_ADMIN_TENANT_ENV of None \<Rightarrow> [] | Some v \<Rightarrow> v)
       in if auth_method_of identity \<noteq> Jwt then denied
          else case isolation_claims_of identity of
            None \<Rightarrow> denied
          | Some c \<Rightarrow>
              if provenance c \<noteq> VerifiedExplicit then denied
              else if \<not> has_role PLATFORM_ADMIN_ROLE identity then denied
              else if tenant = [] \<or> tenant = ''default'' \<or> tenant_id c \<noteq> tenant then denied
              else Inr ())"

definition require_control_plane_da_or_platform_admin ::
  "environment \<Rightarrow> string \<Rightarrow> user_identity \<Rightarrow> gate_error + unit" where
  "require_control_plane_da_or_platform_admin env resource identity =
     and_then (require_verified_isolation_claims resource identity) (\<lambda>_.
       if has_role PLATFORM_ADMIN_ROLE identity then require_platform_admin env resource identity
       else require_role env ''DA'' identity)"

end
