(* ===== verification/Rust_Text.thy ===== *)
theory Rust_Text
  imports Prelude
begin

text \<open>
  What several components use of \<open>str\<close> and \<open>String\<close> beyond the prelude: UTF-8 validity, the lossy reading of
  bytes, lines, and the trimming of a repeated prefix.
\<close>

section \<open>UTF-8\<close>

text \<open>The well-formed byte sequences that \<open>String::from_utf8\<close> accepts.\<close>

definition in_range :: "nat \<Rightarrow> nat \<Rightarrow> char \<Rightarrow> bool" where
  "in_range lo hi c \<longleftrightarrow> lo \<le> byte c \<and> byte c \<le> hi"

fun utf8_valid :: "string \<Rightarrow> bool" where
  "utf8_valid [] = True"
| "utf8_valid (a # s) =
     (if byte a < 128 then utf8_valid s
      else case s of
        [] \<Rightarrow> False
      | b # s2 \<Rightarrow>
          if in_range 194 223 a then in_range 128 191 b \<and> utf8_valid s2
          else case s2 of
            [] \<Rightarrow> False
          | c # s3 \<Rightarrow>
              if in_range 224 239 a
              then in_range (if byte a = 224 then 160 else 128) (if byte a = 237 then 159 else 191) b
                   \<and> in_range 128 191 c \<and> utf8_valid s3
              else case s3 of
                [] \<Rightarrow> False
              | d # s4 \<Rightarrow>
                  in_range 240 244 a
                  \<and> in_range (if byte a = 240 then 144 else 128) (if byte a = 244 then 143 else 191) b
                  \<and> in_range 128 191 c \<and> in_range 128 191 d \<and> utf8_valid s4)"

text \<open>
  \<open>String::from_utf8_lossy\<close>: the longest start of an ill-formed sequence becomes one replacement
  character. \<open>lossy_step\<close> tells whether the text starts with a well-formed character, and how many bytes
  that character or that start has.
\<close>

definition second_byte_ok :: "char \<Rightarrow> char \<Rightarrow> bool" where
  "second_byte_ok a b \<longleftrightarrow>
     in_range (if byte a = 224 then 160 else if byte a = 240 then 144 else 128)
              (if byte a = 237 then 159 else if byte a = 244 then 143 else 191) b"

fun lossy_step :: "string \<Rightarrow> bool \<times> nat" where
  "lossy_step [] = (False, 0)"
| "lossy_step (a # s) =
     (if byte a < 128 then (True, 1)
      else if in_range 194 223 a
      then (case s of b # _ \<Rightarrow> (in_range 128 191 b, if in_range 128 191 b then 2 else 1) | [] \<Rightarrow> (False, 1))
      else if in_range 224 239 a
      then (case s of
              b # t \<Rightarrow> if \<not> second_byte_ok a b then (False, 1)
                       else (case t of c # _ \<Rightarrow> (in_range 128 191 c, if in_range 128 191 c then 3 else 2) | [] \<Rightarrow> (False, 2))
            | [] \<Rightarrow> (False, 1))
      else if in_range 240 244 a
      then (case s of
              b # t \<Rightarrow> if \<not> second_byte_ok a b then (False, 1)
                       else (case t of
                               c # u \<Rightarrow> if \<not> in_range 128 191 c then (False, 2)
                                        else (case u of d # _ \<Rightarrow> (in_range 128 191 d, if in_range 128 191 d then 4 else 3)
                                              | [] \<Rightarrow> (False, 3))
                             | [] \<Rightarrow> (False, 2))
            | [] \<Rightarrow> (False, 1))
      else (False, 1))"

definition replacement_character :: string where
  "replacement_character = bytes_of [239, 191, 189]"

function from_utf8_lossy :: "string \<Rightarrow> string" where
  "from_utf8_lossy [] = []"
| "from_utf8_lossy (c # s) =
     (case lossy_step (c # s) of
        (True, n) \<Rightarrow> take n (c # s) @ from_utf8_lossy (drop (n - 1) s)
      | (False, n) \<Rightarrow> replacement_character @ from_utf8_lossy (drop (n - 1) s))"
  by pat_completeness auto
termination
  by (relation "measure length") auto

text \<open>Well-formed text is read as it is.\<close>

lemma valid_step:
  assumes "utf8_valid (a # s)"
  obtains n where "lossy_step (a # s) = (True, Suc n)" and "utf8_valid (drop n s)"
proof (cases "byte a < 128")
  case True
  then show thesis using that [of 0] assms by simp
next
  case ascii: False
  then obtain b s2 where s: "s = b # s2" using assms by (cases s) auto
  show thesis
  proof (cases "in_range 194 223 a")
    case True
    then show thesis using that [of 1] assms ascii s by auto
  next
    case two: False
    then obtain c s3 where s2: "s2 = c # s3" using assms ascii s by (cases s2) auto
    show thesis
    proof (cases "in_range 224 239 a")
      case True
      then have "byte a \<noteq> 240" "byte a \<noteq> 244" by (auto simp: in_range_def)
      then have "second_byte_ok a b" "in_range 128 191 c" "utf8_valid s3"
        using assms ascii s s2 two True by (auto simp: second_byte_ok_def split: if_splits)
      then show thesis using that [of 2] ascii s s2 two True by simp
    next
      case three: False
      then obtain d s4 where s3: "s3 = d # s4" using assms ascii s s2 two by (cases s3) auto
      have "in_range 240 244 a" using assms ascii s s2 s3 two three by simp
      moreover from this have "byte a \<noteq> 224" "byte a \<noteq> 237" by (auto simp: in_range_def)
      ultimately show thesis
        using that [of 3] assms ascii s s2 s3 two three by (simp add: second_byte_ok_def)
    qed
  qed
qed

lemma lossy_valid: "utf8_valid s \<Longrightarrow> from_utf8_lossy s = s"
proof (induction s rule: from_utf8_lossy.induct)
  case (2 a s)
  from "2.prems" obtain n where n: "lossy_step (a # s) = (True, Suc n)" "utf8_valid (drop n s)" by (rule valid_step)
  have "from_utf8_lossy (drop n s) = drop n s" using "2.IH"(1) [OF n(1) [symmetric]] n(2) by simp
  then show ?case using n(1) by simp
qed simp

lemma lossy_ascii: "list_all (\<lambda>c. byte c < 128) s \<Longrightarrow> from_utf8_lossy s = s"
  by (induction s) auto

section \<open>Lines and prefixes\<close>

text \<open>\<open>str::lines\<close>: an ended line loses its line feed and a carriage return before it.\<close>

definition str_lines :: "string \<Rightarrow> string list" where
  "str_lines s =
     (let parts = split_char (CHR 0x0A) s;
          ended = butlast parts;
          rest = last parts
      in map (\<lambda>l. case strip_suffix [CHR 0x0D] l of Some t \<Rightarrow> t | None \<Rightarrow> l) ended
         @ (if rest = [] then [] else [rest]))"

text \<open>\<open>str::trim_start_matches\<close> with a string: the prefix is removed as often as it is there.\<close>

fun trim_start_matches_fuel :: "nat \<Rightarrow> string \<Rightarrow> string \<Rightarrow> string" where
  "trim_start_matches_fuel 0 p s = s"
| "trim_start_matches_fuel (Suc k) p s =
     (if p = [] then s else case strip_prefix p s of None \<Rightarrow> s | Some t \<Rightarrow> trim_start_matches_fuel k p t)"

definition trim_start_matches :: "string \<Rightarrow> string \<Rightarrow> string" where
  "trim_start_matches p s = trim_start_matches_fuel (length s) p s"

text \<open>\<open>str::split_whitespace\<close>: the runs of characters between white space.\<close>

function split_words :: "string \<Rightarrow> string \<Rightarrow> string list" where
  "split_words w [] = (if w = [] then [] else [w])"
| "split_words w (c # cs) =
     (let n = ws_prefix_len (c # cs)
      in if n = 0 then split_words (w @ [c]) cs
         else (if w = [] then [] else [w]) @ split_words [] (drop n (c # cs)))"
  by pat_completeness auto
termination
  by (relation "measure (\<lambda>(w, s). length s)") auto

definition split_whitespace :: "string \<Rightarrow> string list" where
  "split_whitespace s = split_words [] s"

end
