(* ===== verification/Input_Ref.thy ===== *)
theory Input_Ref
  imports Isolation Lifecycle Rust_Text "HOL-Library.Multiset"
begin

text \<open>
  Input references (\<open>src/api/http/invocations_input_ref.rs\<close>): the URI shape check, the routing
  registry with its registration rules, the kernel's resolution under a deadline and a size cap,
  the digest check, and the built-in artifact resolver. A resolver is a record of functions; SHA-256,
  UUID parsing, the metadata query and the blob store are parameters.
\<close>

section \<open>Errors\<close>

datatype input_ref_error =
    RefNotFound
  | ScopeMismatch
  | Rejected
  | TooLarge
  | Timeout
  | Unavailable
  | NoResolver
  | DigestMismatch

datatype input_ref_uri_error =
    Shape
  | UppercaseScheme
  | ControlCharacter
  | NotPrintableAscii
  | PathTraversal
  | ReservedDelimiter

datatype input_ref_registration_error =
    InvalidScheme
  | InvalidPrefix
  | Duplicate
  | SchemeConflict
  | Frozen

section \<open>Characters\<close>

text \<open>\<open>char::is_control\<close> on UTF-8: U+0000 to U+001F, U+007F, U+0080 to U+009F.\<close>

fun has_control :: "string \<Rightarrow> bool" where
  "has_control [] = False"
| "has_control (c # cs) =
     (byte c < 32 \<or> byte c = 127
      \<or> (byte c = 194 \<and> (case cs of d # _ \<Rightarrow> 128 \<le> byte d \<and> byte d < 160 | [] \<Rightarrow> False))
      \<or> has_control cs)"

section \<open>The shape of a URI\<close>

definition scheme_char :: "char \<Rightarrow> bool" where
  "scheme_char c \<longleftrightarrow> is_ascii_lowercase c \<or> is_ascii_digit c \<or> c \<in> {CHR ''+'', CHR ''-'', CHR ''.''}"

definition valid_scheme :: "string \<Rightarrow> bool" where
  "valid_scheme s = (case s of [] \<Rightarrow> False | c # cs \<Rightarrow> is_ascii_lowercase c \<and> list_all scheme_char cs)"

definition check_input_ref_uri :: "string \<Rightarrow> input_ref_uri_error + unit" where
  "check_input_ref_uri u =
     (if has_control u then Inl ControlCharacter
      else if list_ex (\<lambda>c. \<not> is_visible_ascii c) u then Inl NotPrintableAscii
      else case split_once ''://'' u of
        None \<Rightarrow> Inl Shape
      | Some (scheme, rest) \<Rightarrow>
          if rest = [] then Inl Shape
          else if \<not> valid_scheme scheme
          then Inl (if list_ex is_ascii_uppercase scheme \<and> valid_scheme (to_ascii_lowercase scheme)
                    then UppercaseScheme else Shape)
          else if list_ex (\<lambda>c. c \<in> {CHR ''?'', CHR ''#'', CHR '';''}) u then Inl ReservedDelimiter
          else let lower = to_ascii_lowercase rest
               in if contains_sub ''%25'' lower then Inl ReservedDelimiter
                  else if CHR 0x5C \<in> set rest
                       \<or> list_ex (\<lambda>e. contains_sub e lower) [''%2e'', ''%2f'', ''%5c'']
                  then Inl PathTraversal
                  else if list_ex (\<lambda>seg. seg = [] \<or> seg = ''.'' \<or> seg = ''..'') (split_char CHR ''/'' rest)
                  then Inl PathTraversal
                  else Inr ())"

fun until_delimiter :: "string \<Rightarrow> string" where
  "until_delimiter [] = []"
| "until_delimiter (c # cs) =
     (if c \<in> {CHR ''/'', CHR ''?'', CHR ''#''} then [] else c # until_delimiter cs)"

definition uri_project_segment :: "string \<Rightarrow> string option" where
  "uri_project_segment u =
     (case split_once ''://'' u of
        None \<Rightarrow> None
      | Some (_, rest) \<Rightarrow>
          let segment = until_delimiter rest in if segment = [] then None else Some segment)"

definition check_project_segment :: "string \<Rightarrow> isolation_claims \<Rightarrow> input_ref_error + unit" where
  "check_project_segment u c =
     (case uri_project_segment u of
        None \<Rightarrow> Inl Rejected
      | Some project \<Rightarrow> if project = project_id c then Inr () else Inl ScopeMismatch)"

definition prefix_scheme :: "string \<Rightarrow> string option" where
  "prefix_scheme prefix =
     (case split_once ''://'' prefix of
        None \<Rightarrow> None
      | Some (scheme, rest) \<Rightarrow>
          if valid_scheme scheme \<and> length rest \<ge> 2 \<and> \<not> starts_with ''/'' rest \<and> ends_with ''/'' rest
          then Some scheme else None)"

definition scheme_of :: "string \<Rightarrow> string option" where
  "scheme_of u =
     (case split_once ''://'' u of
        None \<Rightarrow> None
      | Some (scheme, rest) \<Rightarrow> if scheme = [] \<or> rest = [] then None else Some scheme)"

section \<open>The registry\<close>

record input_ref_request =
  ref_uri :: string
  ref_scheme :: string
  ref_invocation_id :: string
  ref_claims :: isolation_claims
  ref_max_bytes :: nat
  ref_deadline :: time

text \<open>
  A resolver validates a URI and answers a request: \<open>None\<close> when it never does, otherwise the
  instant of its answer with the answer.
\<close>

record input_ref_resolver =
  resolver_validate :: "string \<Rightarrow> isolation_claims \<Rightarrow> input_ref_error + unit"
  resolver_resolve :: "input_ref_request \<Rightarrow> (time \<times> (input_ref_error + string)) option"

record input_ref_registry =
  by_scheme :: "string \<rightharpoonup> input_ref_resolver"
  by_prefix :: "(string \<times> input_ref_resolver) list"
  frozen :: bool
  registry_timeout :: int
  registry_max_bytes :: nat

definition MAX_INPUT_REF_MAX_BYTES :: nat where
  "MAX_INPUT_REF_MAX_BYTES = 1024 * 1024"

definition DEFAULT_INPUT_REF_MAX_BYTES :: nat where
  "DEFAULT_INPUT_REF_MAX_BYTES = 64 * 1024"

text \<open>Durations are in nanoseconds.\<close>

definition DEFAULT_INPUT_REF_TIMEOUT :: int where
  "DEFAULT_INPUT_REF_TIMEOUT = 10 * 1000000000"

definition MAX_INPUT_REF_TIMEOUT :: int where
  "MAX_INPUT_REF_TIMEOUT = 60 * 1000000000"

definition new_registry :: input_ref_registry where
  "new_registry = \<lparr>by_scheme = Map.empty, by_prefix = [], frozen = False,
     registry_timeout = DEFAULT_INPUT_REF_TIMEOUT, registry_max_bytes = DEFAULT_INPUT_REF_MAX_BYTES\<rparr>"

definition with_timeout :: "int \<Rightarrow> input_ref_registry \<Rightarrow> input_ref_registry" where
  "with_timeout t reg = reg\<lparr>registry_timeout := t\<rparr>"

definition with_max_bytes :: "nat \<Rightarrow> input_ref_registry \<Rightarrow> input_ref_registry" where
  "with_max_bytes n reg = reg\<lparr>registry_max_bytes := min (max n 1) MAX_INPUT_REF_MAX_BYTES\<rparr>"

definition freeze :: "input_ref_registry \<Rightarrow> input_ref_registry" where
  "freeze reg = reg\<lparr>frozen := True\<rparr>"

definition register_scheme ::
  "string \<Rightarrow> input_ref_resolver \<Rightarrow> input_ref_registry
   \<Rightarrow> (input_ref_registration_error + unit) \<times> input_ref_registry" where
  "register_scheme scheme r reg =
     (if \<not> valid_scheme scheme then (Inl InvalidScheme, reg)
      else if frozen reg then (Inl Frozen, reg)
      else if list_ex (\<lambda>(prefix, _). prefix_scheme prefix = Some scheme) (by_prefix reg)
      then (Inl SchemeConflict, reg)
      else if by_scheme reg scheme \<noteq> None then (Inl Duplicate, reg)
      else (Inr (), reg\<lparr>by_scheme := (by_scheme reg)(scheme \<mapsto> r)\<rparr>))"

text \<open>Longest prefix first, then in string order.\<close>

definition prefix_key :: "string \<times> input_ref_resolver \<Rightarrow> int \<times> string" where
  "prefix_key e = (- int (length (fst e)), fst e)"

definition register_prefix ::
  "string \<Rightarrow> input_ref_resolver \<Rightarrow> input_ref_registry
   \<Rightarrow> (input_ref_registration_error + unit) \<times> input_ref_registry" where
  "register_prefix prefix r reg =
     (case prefix_scheme prefix of
        None \<Rightarrow> (Inl InvalidPrefix, reg)
      | Some scheme \<Rightarrow>
          if frozen reg then (Inl Frozen, reg)
          else if by_scheme reg scheme \<noteq> None then (Inl SchemeConflict, reg)
          else if list_ex (\<lambda>(existing, _). existing = prefix) (by_prefix reg) then (Inl Duplicate, reg)
          else (Inr (), reg\<lparr>by_prefix := sort_key prefix_key (by_prefix reg @ [(prefix, r)])\<rparr>))"

text \<open>
  \<open>extend_from\<close>: the scheme entries of the other registry come in the order its hash map
  yields them, which is the argument \<open>schemes\<close>.
\<close>

definition register_or_skip ::
  "(string \<Rightarrow> input_ref_resolver \<Rightarrow> input_ref_registry
     \<Rightarrow> (input_ref_registration_error + unit) \<times> input_ref_registry)
   \<Rightarrow> string \<times> input_ref_resolver \<Rightarrow> string list \<times> input_ref_registry
   \<Rightarrow> string list \<times> input_ref_registry" where
  "register_or_skip f e acc =
     (case f (fst e) (snd e) (snd acc) of
        (Inl _, reg) \<Rightarrow> (fst acc @ [fst e], reg)
      | (Inr _, reg) \<Rightarrow> (fst acc, reg))"

definition extend_from ::
  "(string \<times> input_ref_resolver) list \<Rightarrow> input_ref_registry \<Rightarrow> input_ref_registry
   \<Rightarrow> string list \<times> input_ref_registry" where
  "extend_from schemes other reg =
     fold (register_or_skip register_prefix) (by_prefix other)
       (fold (register_or_skip register_scheme) schemes ([], reg))"

definition prefixes :: "input_ref_registry \<Rightarrow> string list" where
  "prefixes reg = map fst (by_prefix reg)"

definition matching :: "string \<Rightarrow> input_ref_registry \<Rightarrow> input_ref_resolver option" where
  "matching u reg =
     (case find (\<lambda>(prefix, _). starts_with prefix u) (by_prefix reg) of
        Some (_, r) \<Rightarrow> Some r
      | None \<Rightarrow> Option.bind (scheme_of u) (by_scheme reg))"

definition has_resolver_for :: "string \<Rightarrow> input_ref_registry \<Rightarrow> bool" where
  "has_resolver_for u reg \<longleftrightarrow> matching u reg \<noteq> None"

definition registry_validate ::
  "string \<Rightarrow> isolation_claims \<Rightarrow> input_ref_registry \<Rightarrow> input_ref_error + unit" where
  "registry_validate u c reg =
     and_then (map_err (\<lambda>_. Rejected) (check_input_ref_uri u)) (\<lambda>_.
     and_then (ok_or NoResolver (matching u reg)) (\<lambda>r.
       map_err (\<lambda>e. if e = ScopeMismatch then ScopeMismatch else Rejected)
         (resolver_validate r u c)))"

text \<open>\<open>now\<close> is the instant of the call; an answer after the deadline is abandoned.\<close>

definition registry_resolve ::
  "time \<Rightarrow> isolation_claims \<Rightarrow> string \<Rightarrow> string \<Rightarrow> time option \<Rightarrow> input_ref_registry
   \<Rightarrow> input_ref_error + string" where
  "registry_resolve now c i u invocation_deadline reg =
     and_then (map_err (\<lambda>_. Rejected) (check_input_ref_uri u)) (\<lambda>_.
     and_then (ok_or NoResolver (matching u reg)) (\<lambda>r.
     and_then (ok_or NoResolver (scheme_of u)) (\<lambda>scheme.
     and_then (resolver_validate r u c) (\<lambda>_.
       let limit = now + registry_timeout reg;
           limit = (case invocation_deadline of None \<Rightarrow> limit | Some d \<Rightarrow> min limit d);
           req = \<lparr>ref_uri = u, ref_scheme = scheme, ref_invocation_id = i, ref_claims = c,
                  ref_max_bytes = registry_max_bytes reg, ref_deadline = limit\<rparr>
       in and_then
            (case resolver_resolve r req of
               Some (t, answer) \<Rightarrow> if t \<le> limit then answer else Inl Timeout
             | None \<Rightarrow> Inl Timeout)
            (\<lambda>bytes. if length bytes > registry_max_bytes reg then Inl TooLarge else Inr bytes)))))"

definition INPUT_REF_FETCH_FAILED_MESSAGE :: string where
  "INPUT_REF_FETCH_FAILED_MESSAGE = ''input_ref could not be resolved''"

definition INPUT_DIGEST_MISMATCH_MESSAGE :: string where
  "INPUT_DIGEST_MISMATCH_MESSAGE = ''input_ref content does not match sha256''"

definition fetch_and_verify_input_ref ::
  "(string \<Rightarrow> string) \<Rightarrow> time \<Rightarrow> input_ref_registry \<Rightarrow> isolation_claims \<Rightarrow> string \<Rightarrow> string \<Rightarrow> string
   \<Rightarrow> time option \<Rightarrow> (string \<times> string) + string" where
  "fetch_and_verify_input_ref sha256_hex now reg c i u expected_sha256 invocation_deadline =
     (let fetch_failed = (INPUT_REF_FETCH_FAILED_ERROR_CODE, INPUT_REF_FETCH_FAILED_MESSAGE);
          mismatch = (INPUT_DIGEST_MISMATCH_ERROR_CODE, INPUT_DIGEST_MISMATCH_MESSAGE)
      in case registry_resolve now c i u invocation_deadline reg of
           Inl DigestMismatch \<Rightarrow> Inl mismatch
         | Inl _ \<Rightarrow> Inl fetch_failed
         | Inr bytes \<Rightarrow>
             if sha256_hex bytes \<noteq> expected_sha256 then Inl mismatch
             else if utf8_valid bytes then Inr bytes else Inl fetch_failed)"

section \<open>Configuration\<close>

definition artifact_resolver_enabled_from_vars :: "(string \<Rightarrow> string option) \<Rightarrow> bool" where
  "artifact_resolver_enabled_from_vars lookup =
     (case lookup ''AGENTOS_INVOCATION_INPUT_REF_ARTIFACTS_ENABLED'' of
        None \<Rightarrow> False
      | Some v \<Rightarrow> to_ascii_lowercase (trim v) \<in> {''1'', ''true'', ''yes'', ''on''})"

definition input_ref_timeout_from_vars :: "(string \<Rightarrow> string option) \<Rightarrow> int" where
  "input_ref_timeout_from_vars lookup =
     (case lookup ''AGENTOS_INVOCATION_INPUT_REF_TIMEOUT_MS'' of
        None \<Rightarrow> DEFAULT_INPUT_REF_TIMEOUT
      | Some raw \<Rightarrow>
          (case parse_u64 (trim raw) of
             Some ms \<Rightarrow> if ms \<ge> 1 \<and> uint ms * 1000000 \<le> MAX_INPUT_REF_TIMEOUT
                        then uint ms * 1000000 else DEFAULT_INPUT_REF_TIMEOUT
           | None \<Rightarrow> DEFAULT_INPUT_REF_TIMEOUT))"

definition input_ref_max_bytes_from_vars :: "(string \<Rightarrow> string option) \<Rightarrow> nat" where
  "input_ref_max_bytes_from_vars lookup =
     (case lookup ''AGENTOS_INVOCATION_INPUT_REF_MAX_BYTES'' of
        None \<Rightarrow> DEFAULT_INPUT_REF_MAX_BYTES
      | Some raw \<Rightarrow>
          (case parse_u64 (trim raw) of
             Some n \<Rightarrow> if 1 \<le> unat n \<and> unat n \<le> MAX_INPUT_REF_MAX_BYTES then unat n
                       else DEFAULT_INPUT_REF_MAX_BYTES
           | None \<Rightarrow> DEFAULT_INPUT_REF_MAX_BYTES))"

section \<open>The artifact resolver\<close>

datatype artifact_kind = Patch | RunTranscript | ReproduceScript | InputSnapshot

fun artifact_extension :: "artifact_kind \<Rightarrow> string" where
  "artifact_extension Patch = ''patch''"
| "artifact_extension RunTranscript = ''log''"
| "artifact_extension ReproduceScript = ''sh''"
| "artifact_extension InputSnapshot = ''json''"

record artifact_metadata =
  meta_id :: string
  meta_kind :: artifact_kind
  meta_blob_key :: string
  meta_size_bytes :: nat
  meta_sha256 :: string

definition artifact_key :: "string \<Rightarrow> artifact_kind \<Rightarrow> string" where
  "artifact_key i k = ''artifacts/'' @ i @ ''.'' @ artifact_extension k"

definition is_canonical_blob_key :: "artifact_metadata \<Rightarrow> bool" where
  "is_canonical_blob_key m \<longleftrightarrow> meta_blob_key m = artifact_key (meta_id m) (meta_kind m)"

text \<open>
  What the resolver is given: the canonical form of a UUID (\<open>None\<close> when the text is not one),
  the digest, the claims-scoped metadata query and the claims-scoped blob store.
\<close>

record artifact_backend =
  hyphenated_uuid :: "string \<Rightarrow> string option"
  sha256_hex_of :: "string \<Rightarrow> string"
  load_artifact_metadata :: "isolation_claims \<Rightarrow> string \<Rightarrow> unit + artifact_metadata option"
  blob_get :: "isolation_claims \<Rightarrow> string \<Rightarrow> unit + string"

definition artifact_parse :: "artifact_backend \<Rightarrow> string \<Rightarrow> (string \<times> string) option" where
  "artifact_parse b u =
     Option.bind (strip_prefix ''wao-artifact://'' u) (\<lambda>rest.
     Option.bind (split_once ''/'' rest) (\<lambda>(project, i).
       if project = [] then None
       else Option.bind (hyphenated_uuid b i) (\<lambda>text.
         if text = i then Some (project, i) else None)))"

definition artifact_validate ::
  "artifact_backend \<Rightarrow> string \<Rightarrow> isolation_claims \<Rightarrow> input_ref_error + unit" where
  "artifact_validate b u c =
     and_then (ok_or Rejected (artifact_parse b u)) (\<lambda>(project, _).
       if project \<noteq> project_id c then Inl ScopeMismatch else Inr ())"

definition artifact_resolve :: "artifact_backend \<Rightarrow> input_ref_request \<Rightarrow> input_ref_error + string" where
  "artifact_resolve b req =
     and_then (ok_or RefNotFound (artifact_parse b (ref_uri req))) (\<lambda>(project, i).
       if project \<noteq> project_id (ref_claims req) then Inl RefNotFound
       else and_then (map_err (\<lambda>_. Unavailable) (load_artifact_metadata b (ref_claims req) i)) (\<lambda>found.
         and_then (ok_or RefNotFound found) (\<lambda>m.
           if meta_kind m \<noteq> InputSnapshot then Inl RefNotFound
           else if meta_size_bytes m > ref_max_bytes req then Inl TooLarge
           else if \<not> is_canonical_blob_key m then Inl RefNotFound
           else and_then (map_err (\<lambda>_. RefNotFound) (blob_get b (ref_claims req) (meta_blob_key m))) (\<lambda>bytes.
             if length bytes > ref_max_bytes req then Inl TooLarge
             else if sha256_hex_of b bytes \<noteq> meta_sha256 m then Inl DigestMismatch
             else Inr bytes))))"

text \<open>As a resolver; \<open>when\<close> is the instant its local reads finish.\<close>

definition artifact_resolver ::
  "artifact_backend \<Rightarrow> (input_ref_request \<Rightarrow> time) \<Rightarrow> input_ref_resolver" where
  "artifact_resolver b when =
     \<lparr>resolver_validate = artifact_validate b,
      resolver_resolve = (\<lambda>req. Some (when req, artifact_resolve b req))\<rparr>"

definition ARTIFACT_INPUT_REF_SCHEME :: string where
  "ARTIFACT_INPUT_REF_SCHEME = ''wao-artifact''"

definition startup_input_ref_registry ::
  "input_ref_resolver option \<Rightarrow> bool \<Rightarrow> (string \<times> input_ref_resolver) list \<Rightarrow> input_ref_registry
   \<Rightarrow> string list \<times> input_ref_registry" where
  "startup_input_ref_registry builtin artifacts_enabled schemes embedders =
     (let reg = new_registry;
          reg = (if artifacts_enabled
                 then (case builtin of
                         Some r \<Rightarrow> snd (register_scheme ARTIFACT_INPUT_REF_SCHEME r reg)
                       | None \<Rightarrow> reg)
                 else reg)
      in extend_from schemes embedders reg)"

section \<open>Facts about the URI check\<close>

lemma split_once_first:
  assumes "p = d # ds" and "d \<notin> set a"
  shows "split_once p (a @ p @ b) = Some (a, b)"
  using assms(2)
proof (induction a)
  case Nil
  then show ?case using assms(1) by (simp add: starts_with_def)
next
  case (Cons c a)
  then have "\<not> starts_with p (c # a @ p @ b)" using assms(1) by (auto simp: starts_with_def)
  then show ?case using Cons by simp
qed

lemma valid_scheme_chars: "valid_scheme s \<Longrightarrow> c \<in> set s \<Longrightarrow> scheme_char c"
  by (cases s) (auto simp: valid_scheme_def list_all_iff scheme_char_def)

lemma valid_scheme_no_colon: "valid_scheme s \<Longrightarrow> CHR '':'' \<notin> set s"
  using valid_scheme_chars [of s "CHR '':''"]
  by (auto simp: scheme_char_def is_ascii_lowercase_def is_ascii_digit_def)

lemma valid_scheme_nonempty: "valid_scheme s \<Longrightarrow> s \<noteq> []"
  by (auto simp: valid_scheme_def)

lemma split_valid_scheme:
  "valid_scheme s \<Longrightarrow> split_once ''://'' (s @ ''://'' @ rest) = Some (s, rest)"
  by (rule split_once_first [OF refl valid_scheme_no_colon])

lemma visible_no_control: "list_all is_visible_ascii s \<Longrightarrow> \<not> has_control s"
  by (induction s) (auto simp: is_visible_ascii_def)

text \<open>The shape an accepted reference has.\<close>

definition safe_parts :: "string \<Rightarrow> string \<Rightarrow> string \<Rightarrow> bool" where
  "safe_parts scheme rest u \<longleftrightarrow> (u = scheme @ ''://'' @ rest \<and> valid_scheme scheme
     \<and> (\<forall>c \<in> set u. is_visible_ascii c)
     \<and> (\<forall>c \<in> set u. c \<noteq> CHR ''?'' \<and> c \<noteq> CHR ''#'' \<and> c \<noteq> CHR '';'')
     \<and> CHR 0x5C \<notin> set rest
     \<and> (\<forall>e \<in> {''%25'', ''%2e'', ''%2f'', ''%5c''}. \<not> contains_sub e (to_ascii_lowercase rest))
     \<and> (\<forall>seg \<in> set (split_char CHR ''/'' rest). seg \<notin> {[], ''.'', ''..''}))"

lemma safe_partsD:
  "safe_parts scheme rest u \<Longrightarrow> u = scheme @ ''://'' @ rest"
  "safe_parts scheme rest u \<Longrightarrow> valid_scheme scheme"
  "safe_parts scheme rest u \<Longrightarrow> \<forall>c \<in> set u. is_visible_ascii c"
  "safe_parts scheme rest u \<Longrightarrow> \<forall>seg \<in> set (split_char CHR ''/'' rest). seg \<notin> {[], ''.'', ''..''}"
  by (unfold safe_parts_def) (elim conjE, assumption)+

definition safe_uri :: "string \<Rightarrow> bool" where
  "safe_uri u \<longleftrightarrow> (\<exists>scheme rest. safe_parts scheme rest u)"

lemma if_chain_Inr:
  "(if A then Inl a else if B then Inl b else if C then Inl c else if \<not> D then Inl d
     else if E then Inl e else if F then Inl f else if G \<or> H then Inl g else if I then Inl h
     else Inr ()) = Inr () \<longleftrightarrow>
   \<not> A \<and> \<not> B \<and> \<not> C \<and> D \<and> \<not> E \<and> \<not> F \<and> \<not> G \<and> \<not> H \<and> \<not> I"
  by simp

lemma check_uri_split:
  assumes "split_once ''://'' u = Some (scheme, rest)"
  shows "check_input_ref_uri u = Inr () \<longleftrightarrow> \<not> has_control u \<and> (\<forall>c \<in> set u. is_visible_ascii c)
    \<and> rest \<noteq> [] \<and> valid_scheme scheme
    \<and> (\<forall>c \<in> set u. c \<noteq> CHR ''?'' \<and> c \<noteq> CHR ''#'' \<and> c \<noteq> CHR '';'')
    \<and> CHR 0x5C \<notin> set rest
    \<and> (\<forall>e \<in> {''%25'', ''%2e'', ''%2f'', ''%5c''}. \<not> contains_sub e (to_ascii_lowercase rest))
    \<and> (\<forall>seg \<in> set (split_char CHR ''/'' rest). seg \<notin> {[], ''.'', ''..''})"
proof -
  have 1: "list_ex (\<lambda>c. c \<in> {CHR ''?'', CHR ''#'', CHR '';''}) u
      \<longleftrightarrow> \<not> (\<forall>c \<in> set u. c \<noteq> CHR ''?'' \<and> c \<noteq> CHR ''#'' \<and> c \<noteq> CHR '';'')"
    by (auto simp: list_ex_iff)
  have 2: "list_ex (\<lambda>seg. seg = [] \<or> seg = ''.'' \<or> seg = ''..'') (split_char CHR ''/'' rest)
      \<longleftrightarrow> \<not> (\<forall>seg \<in> set (split_char CHR ''/'' rest). seg \<notin> {[], ''.'', ''..''})"
    by (auto simp: list_ex_iff)
  have 3: "list_ex (\<lambda>c. \<not> is_visible_ascii c) u \<longleftrightarrow> \<not> (\<forall>c \<in> set u. is_visible_ascii c)"
    by (auto simp: list_ex_iff)
  have 4: "list_ex (\<lambda>e. contains_sub e l) [''%2e'', ''%2f'', ''%5c'']
      \<longleftrightarrow> \<not> (\<forall>e \<in> {''%2e'', ''%2f'', ''%5c''}. \<not> contains_sub e l)" for l
    by (simp only: list_ex_iff list.set) blast
  show ?thesis
    unfolding check_input_ref_uri_def assms Let_def option.case prod.case 1 2 3 4 if_chain_Inr
    by blast
qed

lemma check_input_ref_uri_iff: "check_input_ref_uri u = Inr () \<longleftrightarrow> safe_uri u"
proof
  assume ok: "check_input_ref_uri u = Inr ()"
  have "split_once ''://'' u \<noteq> None"
  proof
    assume "split_once ''://'' u = None"
    then have "check_input_ref_uri u \<in> {Inl ControlCharacter, Inl NotPrintableAscii, Inl Shape}"
      unfolding check_input_ref_uri_def by simp
    with ok show False by simp
  qed
  then obtain scheme rest where s: "split_once ''://'' u = Some (scheme, rest)" by auto
  have u: "u = scheme @ ''://'' @ rest" by (rule split_once_Some [OF s])
  note f = iffD1 [OF check_uri_split [OF s] ok]
  have "safe_parts scheme rest u"
    unfolding safe_parts_def by (insert u f, elim conjE, intro conjI; assumption)
  then show "safe_uri u" unfolding safe_uri_def by blast
next
  assume "safe_uri u"
  then obtain scheme rest where parts: "safe_parts scheme rest u" unfolding safe_uri_def by blast
  note u = safe_partsD(1,2) [OF parts] and c = safe_partsD(3) [OF parts] and r = safe_partsD(4) [OF parts]
  have s: "split_once ''://'' u = Some (scheme, rest)"
    using split_valid_scheme [OF u(2)] u(1) by simp
  have 1: "rest \<noteq> []"
  proof
    assume "rest = []"
    with r show False by simp
  qed
  have 2: "\<not> has_control u"
    using c by (intro visible_no_control) (simp add: list_all_iff)
  show "check_input_ref_uri u = Inr ()"
    unfolding check_uri_split [OF s]
    by (insert 1 2 parts [unfolded safe_parts_def], elim conjE, intro conjI; assumption)
qed

section \<open>Routing\<close>

lemma prefix_scheme_split:
  "prefix_scheme p = Some s \<Longrightarrow> valid_scheme s \<and> (\<exists>rest. rest \<noteq> [] \<and> p = s @ ''://'' @ rest)"
  by (auto simp: prefix_scheme_def split: option.splits if_splits dest!: split_once_Some)

lemma prefix_routes_scheme:
  assumes "prefix_scheme p = Some s" and "starts_with p u"
  shows "scheme_of u = Some s"
proof -
  from prefix_scheme_split [OF assms(1)] obtain rest where
    p: "valid_scheme s" "rest \<noteq> []" "p = s @ ''://'' @ rest" by blast
  moreover obtain t where "u = p @ t" using assms(2) by (auto simp: starts_with_iff)
  ultimately have "split_once ''://'' u = Some (s, rest @ t)"
    using split_valid_scheme [of s "rest @ t"] by simp
  then show ?thesis using p valid_scheme_nonempty by (simp add: scheme_of_def)
qed

definition registry_ok :: "input_ref_registry \<Rightarrow> bool" where
  "registry_ok reg \<longleftrightarrow> sorted (map prefix_key (by_prefix reg)) \<and> distinct (prefixes reg)
     \<and> (\<forall>(p, _) \<in> set (by_prefix reg). \<exists>s. prefix_scheme p = Some s \<and> by_scheme reg s = None)"

lemma registry_ok_entry:
  "registry_ok reg \<Longrightarrow> (p, x) \<in> set (by_prefix reg) \<Longrightarrow> \<exists>s. prefix_scheme p = Some s \<and> by_scheme reg s = None"
  by (fastforce simp: registry_ok_def)

lemma registry_ok_new [invs]: "registry_ok new_registry"
  by (simp add: registry_ok_def new_registry_def prefixes_def)

lemma registry_ok_scheme [invs]:
  assumes "registry_ok reg" and "register_scheme s r reg = (res, reg')"
  shows "registry_ok reg'"
  using assms
  by (fastforce simp: register_scheme_def registry_ok_def prefixes_def list_ex_iff split: if_splits)

lemma registered_prefix_iff:
  "list_ex (\<lambda>(existing, _). existing = p) (by_prefix reg) \<longleftrightarrow> p \<in> set (prefixes reg)"
  unfolding prefixes_def by (induction "by_prefix reg") (auto simp: list_ex_iff image_iff split: prod.splits intro: rev_bexI)

lemma registry_ok_prefix [invs]:
  assumes "registry_ok reg" and "register_prefix p r reg = (res, reg')"
  shows "registry_ok reg'"
proof (cases "res = Inr ()")
  case False
  then show ?thesis using assms by (auto simp: register_prefix_def split: option.splits if_splits)
next
  case True
  then obtain s where s: "prefix_scheme p = Some s" "by_scheme reg s = None" "p \<notin> set (prefixes reg)"
    and reg': "reg' = reg\<lparr>by_prefix := sort_key prefix_key (by_prefix reg @ [(p, r)])\<rparr>"
    using assms(2)
    by (auto simp: register_prefix_def registered_prefix_iff split: option.splits if_splits)
  have "distinct (map fst (sort_key prefix_key (by_prefix reg @ [(p, r)])))
      = distinct (map fst (by_prefix reg @ [(p, r)]))"
    by (metis mset_eq_imp_distinct_iff mset_map mset_sort)
  then show ?thesis
    using assms(1) s by (auto simp: registry_ok_def reg' prefixes_def)
qed

lemma sorted_find_least:
  assumes "sorted (map k xs)" and "find P xs = Some x"
  shows "x \<in> set xs \<and> P x \<and> (\<forall>y \<in> set xs. P y \<longrightarrow> k x \<le> k y)"
  using assms by (induction xs) (auto split: if_splits)

text \<open>The first match in the table is the longest one.\<close>

lemma matching_longest:
  assumes "registry_ok reg" and "matching u reg = Some r"
  shows "(\<exists>p. (p, r) \<in> set (by_prefix reg) \<and> starts_with p u
      \<and> (\<forall>q \<in> set (prefixes reg). starts_with q u \<longrightarrow> length q \<le> length p))
    \<or> (\<forall>q \<in> set (prefixes reg). \<not> starts_with q u)
      \<and> (\<exists>s. scheme_of u = Some s \<and> by_scheme reg s = Some r)"
proof (cases "find (\<lambda>(prefix, _). starts_with prefix u) (by_prefix reg)")
  case None
  then have "\<forall>q \<in> set (prefixes reg). \<not> starts_with q u"
    by (auto simp: find_None_iff prefixes_def)
  then show ?thesis using assms(2) None by (auto simp: matching_def bind_eq_Some_conv)
next
  case (Some e)
  then obtain p where e: "e = (p, r)" using assms(2) by (auto simp: matching_def split: prod.splits)
  have "sorted (map prefix_key (by_prefix reg))" using assms(1) by (simp add: registry_ok_def)
  from sorted_find_least [OF this Some]
  have "(p, r) \<in> set (by_prefix reg)" "starts_with p u"
    "\<forall>q \<in> set (prefixes reg). starts_with q u \<longrightarrow> length q \<le> length p"
    by (auto simp: e prefixes_def prefix_key_def)
  then show ?thesis by blast
qed

text \<open>A URI whose scheme has a scheme resolver is never captured by a prefix.\<close>

lemma scheme_routing:
  assumes "registry_ok reg" and "by_scheme reg s = Some r" and "scheme_of u = Some s"
  shows "matching u reg = Some r"
proof -
  have "\<not> starts_with p u" if entry: "(p, x) \<in> set (by_prefix reg)" for p x
  proof
    assume "starts_with p u"
    moreover obtain s' where "prefix_scheme p = Some s'" "by_scheme reg s' = None"
      using registry_ok_entry [OF assms(1) entry] by blast
    ultimately show False using prefix_routes_scheme [of p s' u] assms(2,3) by simp
  qed
  then have "find (\<lambda>(prefix, _). starts_with prefix u) (by_prefix reg) = None"
    by (auto simp: find_None_iff)
  then show ?thesis using assms(2,3) by (simp add: matching_def)
qed

lemma register_keeps_scheme:
  "by_scheme reg s = Some r \<Longrightarrow> by_scheme (snd (register_scheme s' r' reg)) s = Some r"
  "by_scheme (snd (register_prefix p r' reg)) = by_scheme reg"
  by (auto simp: register_scheme_def register_prefix_def split: option.split)

datatype registration =
    RegisterScheme string input_ref_resolver
  | RegisterPrefix string input_ref_resolver
  | FreezeRegistry

fun apply_registration :: "registration \<Rightarrow> input_ref_registry \<Rightarrow> input_ref_registry" where
  "apply_registration (RegisterScheme s r) reg = snd (register_scheme s r reg)"
| "apply_registration (RegisterPrefix p r) reg = snd (register_prefix p r reg)"
| "apply_registration FreezeRegistry reg = freeze reg"

lemma registry_ok_apply [invs]: "registry_ok reg \<Longrightarrow> registry_ok (apply_registration x reg)"
proof (cases x)
  case (RegisterScheme s r)
  then show "registry_ok reg \<Longrightarrow> ?thesis"
    using registry_ok_scheme [of reg s r "fst (register_scheme s r reg)"] by simp
next
  case (RegisterPrefix p r)
  then show "registry_ok reg \<Longrightarrow> ?thesis"
    using registry_ok_prefix [of reg p r "fst (register_prefix p r reg)"] by simp
next
  case FreezeRegistry
  then show "registry_ok reg \<Longrightarrow> ?thesis"
    by (simp add: freeze_def registry_ok_def prefixes_def)
qed

lemma registry_ok_history: "registry_ok reg \<Longrightarrow> registry_ok (fold apply_registration xs reg)"
  by (induction xs arbitrary: reg) (auto simp: registry_ok_apply)

lemma history_keeps_scheme:
  "by_scheme reg s = Some r \<Longrightarrow> by_scheme (fold apply_registration xs reg) s = Some r"
proof (induction xs arbitrary: reg)
  case (Cons x xs)
  then have "by_scheme (apply_registration x reg) s = Some r"
    by (cases x) (simp_all add: register_keeps_scheme freeze_def)
  then show ?case using Cons.IH by simp
qed simp

text \<open>Extending a registry is a history of registrations.\<close>

lemma fold_register_history:
  "snd (fold (register_or_skip register_scheme) es (l, reg))
     = fold apply_registration (map (\<lambda>e. RegisterScheme (fst e) (snd e)) es) reg"
  "snd (fold (register_or_skip register_prefix) es (l, reg))
     = fold apply_registration (map (\<lambda>e. RegisterPrefix (fst e) (snd e)) es) reg"
proof -
  have 1: "register_or_skip register_scheme e (l, reg)
      = (fst (register_or_skip register_scheme e (l, reg)), apply_registration (RegisterScheme (fst e) (snd e)) reg)"
    "register_or_skip register_prefix e (l, reg)
      = (fst (register_or_skip register_prefix e (l, reg)), apply_registration (RegisterPrefix (fst e) (snd e)) reg)"
    for e l reg
    by (simp_all add: register_or_skip_def split: prod.split sum.split)
  show "snd (fold (register_or_skip register_scheme) es (l, reg))
     = fold apply_registration (map (\<lambda>e. RegisterScheme (fst e) (snd e)) es) reg"
  proof (induction es arbitrary: l reg)
    case (Cons e es)
    show ?case by (simp only: fold_simps list.map) (subst 1(1), rule Cons.IH)
  qed simp
  show "snd (fold (register_or_skip register_prefix) es (l, reg))
     = fold apply_registration (map (\<lambda>e. RegisterPrefix (fst e) (snd e)) es) reg"
  proof (induction es arbitrary: l reg)
    case (Cons e es)
    show ?case by (simp only: fold_simps list.map) (subst 1(2), rule Cons.IH)
  qed simp
qed

lemma extend_from_history:
  "\<exists>xs. snd (extend_from schemes other reg) = fold apply_registration xs reg"
proof -
  let ?acc = "fold (register_or_skip register_scheme) schemes ([], reg)"
  have "snd (extend_from schemes other reg)
      = fold apply_registration (map (\<lambda>e. RegisterPrefix (fst e) (snd e)) (by_prefix other)) (snd ?acc)"
    unfolding extend_from_def using fold_register_history(2) [of "by_prefix other" "fst ?acc" "snd ?acc"] by simp
  also have "snd ?acc = fold apply_registration (map (\<lambda>e. RegisterScheme (fst e) (snd e)) schemes) reg"
    by (rule fold_register_history(1))
  finally have "snd (extend_from schemes other reg)
      = fold apply_registration (map (\<lambda>e. RegisterScheme (fst e) (snd e)) schemes
          @ map (\<lambda>e. RegisterPrefix (fst e) (snd e)) (by_prefix other)) reg"
    by (simp only: fold_append comp_apply)
  then show ?thesis by blast
qed

section \<open>Resolvers as an interface\<close>

text \<open>
  What the kernel relies on a resolver for, and what it does not: content is returned only when
  it is visible to the claims under the reference, and only for references the resolver accepts
  at creation. Size, digest and encoding are the kernel's own checks.
\<close>

locale resolver_contract =
  fixes validate :: "string \<Rightarrow> isolation_claims \<Rightarrow> input_ref_error + unit"
    and fetch :: "input_ref_request \<Rightarrow> input_ref_error + string"
    and visible :: "isolation_claims \<Rightarrow> string \<Rightarrow> string \<Rightarrow> bool"
  assumes fetch_visible: "fetch req = Inr b \<Longrightarrow> visible (ref_claims req) (ref_uri req) b"
    and visible_accepted: "visible c u b \<Longrightarrow> validate u c = Inr ()"
    and fetch_bounded: "fetch req = Inr b \<Longrightarrow> length b \<le> ref_max_bytes req"
begin

text \<open>Through the kernel: a resolved reference is visible to the caller, in bound and in time.\<close>

lemma kernel_resolve:
  assumes "matching u reg = Some \<lparr>resolver_validate = validate, resolver_resolve = (\<lambda>req. Some (finishes req, fetch req))\<rparr>"
    and "registry_resolve now c i u dl reg = Inr b"
  shows "visible c u b \<and> length b \<le> registry_max_bytes reg \<and> safe_uri u"
proof -
  have "check_input_ref_uri u = Inr ()"
    using assms(2) by (auto simp: registry_resolve_def and_then_Inr_iff)
  then show ?thesis
    using assms by (auto simp: registry_resolve_def and_then_Inr_iff Let_def check_input_ref_uri_iff
        dest!: fetch_visible split: if_splits)
qed

lemma not_accepted_not_resolved:
  assumes "validate u c \<noteq> Inr ()" and "ref_claims req = c" and "ref_uri req = u"
  shows "\<exists>e. fetch req = Inl e"
  using assms fetch_visible visible_accepted by (metis sum.exhaust)

end

definition artifact_visible :: "artifact_backend \<Rightarrow> isolation_claims \<Rightarrow> string \<Rightarrow> string \<Rightarrow> bool" where
  "artifact_visible b c u bytes \<longleftrightarrow> (\<exists>i m. artifact_parse b u = Some (project_id c, i)
     \<and> load_artifact_metadata b c i = Inr (Some m) \<and> meta_kind m = InputSnapshot
     \<and> is_canonical_blob_key m \<and> blob_get b c (meta_blob_key m) = Inr bytes
     \<and> sha256_hex_of b bytes = meta_sha256 m)"

lemma artifact_resolve_Inr:
  "artifact_resolve b req = Inr bytes \<Longrightarrow>
     artifact_visible b (ref_claims req) (ref_uri req) bytes \<and> length bytes \<le> ref_max_bytes req"
  by (auto simp: artifact_resolve_def artifact_visible_def and_then_Inr_iff split: prod.splits if_splits)

interpretation artifact: resolver_contract "artifact_validate b" "artifact_resolve b" "artifact_visible b" for b
proof (unfold_locales, goal_cases)
  case (1 req bytes)
  then show ?case using artifact_resolve_Inr by blast
next
  case (2 c u bytes)
  then show ?case by (auto simp: artifact_visible_def artifact_validate_def and_then_Inr_iff)
next
  case (3 req bytes)
  then show ?case using artifact_resolve_Inr by blast
qed

section \<open>Properties\<close>

text \<open>
  C8: the URI check accepts exactly the safe references: a lower-case scheme, only printable
  ASCII without query, fragment or parameter delimiters, and a path without backslashes, without
  encoded dots, slashes, backslashes or percent signs in any case, and without an empty, dot or
  dot-dot segment.
\<close>

theorem uri_check_exact: "check_input_ref_uri u = Inr () \<longleftrightarrow> safe_uri u"
  by (rule check_input_ref_uri_iff)

text \<open>
  After any history of registrations a reference is routed to the resolver of the longest
  registered prefix it starts with, and to a scheme resolver only when no prefix matches.
\<close>

theorem longest_prefix_routing:
  assumes "reg = fold apply_registration xs new_registry" and "matching u reg = Some r"
  shows "(\<exists>p. (p, r) \<in> set (by_prefix reg) \<and> starts_with p u
      \<and> (\<forall>q \<in> set (prefixes reg). starts_with q u \<longrightarrow> length q \<le> length p))
    \<or> (\<forall>q \<in> set (prefixes reg). \<not> starts_with q u)
      \<and> (\<exists>s. scheme_of u = Some s \<and> by_scheme reg s = Some r)"
  using matching_longest [OF _ assms(2)] registry_ok_history [OF registry_ok_new] assms(1) by blast

definition sample_resolver :: "string \<Rightarrow> input_ref_resolver" where
  "sample_resolver b = \<lparr>resolver_validate = (\<lambda>_ _. Inr ()), resolver_resolve = (\<lambda>_. Some (0, Inr b))\<rparr>"

definition sample_registrations :: "registration list" where
  "sample_registrations =
     [RegisterPrefix ''s3://a/'' (sample_resolver ''short''),
      RegisterPrefix ''s3://a/b/'' (sample_resolver ''long'')]"

lemma sample_registrations_table:
  "by_prefix (fold apply_registration sample_registrations new_registry)
     = [(''s3://a/b/'', sample_resolver ''long''), (''s3://a/'', sample_resolver ''short'')]"
  by (simp add: sample_registrations_def register_prefix_def prefix_scheme_def new_registry_def
      starts_with_def ends_with_def valid_scheme_def scheme_char_def is_ascii_lowercase_def
      is_ascii_digit_def prefix_key_def)

lemma sample_routing:
  "matching ''s3://a/b/c'' (fold apply_registration sample_registrations new_registry)
     = Some (sample_resolver ''long'')"
  by (simp add: matching_def sample_registrations_table starts_with_def)

theorem longest_prefix_routing_witness:
  "\<exists>p. starts_with p ''s3://a/b/c'' \<and> length p = 9
     \<and> (p, sample_resolver ''long'') \<in> set (by_prefix (fold apply_registration sample_registrations new_registry))"
  using longest_prefix_routing [OF refl sample_routing]
  by (auto simp: sample_registrations_table prefixes_def starts_with_def)

text \<open>
  A scheme that has a resolver cannot be captured: whatever is registered later, every
  reference of that scheme is still routed to it.
\<close>

theorem scheme_not_shadowed:
  assumes "reg = fold apply_registration xs new_registry"
    and "register_scheme s r reg = (Inr (), reg')" and "scheme_of u = Some s"
  shows "matching u (fold apply_registration ys reg') = Some r"
proof -
  have ok: "registry_ok reg'"
    using registry_ok_scheme registry_ok_history [OF registry_ok_new] assms(1,2) by blast
  have "by_scheme reg' s = Some r"
    using assms(2) by (auto simp: register_scheme_def split: if_splits)
  then show ?thesis
    using scheme_routing [OF registry_ok_history [OF ok] history_keeps_scheme assms(3)] by blast
qed

theorem scheme_not_shadowed_witness:
  "matching ''wao-artifact://p1/x'' (fold apply_registration
     [RegisterPrefix ''wao-artifact://p1/'' (sample_resolver ''evil'')]
     (snd (register_scheme ''wao-artifact'' (sample_resolver ''good'') new_registry)))
   = Some (sample_resolver ''good'')"
proof -
  have "register_scheme ''wao-artifact'' (sample_resolver ''good'') new_registry
      = (Inr (), snd (register_scheme ''wao-artifact'' (sample_resolver ''good'') new_registry))"
    by (simp add: register_scheme_def new_registry_def valid_scheme_def scheme_char_def
        is_ascii_lowercase_def is_ascii_digit_def)
  moreover have "scheme_of ''wao-artifact://p1/x'' = Some ''wao-artifact''"
    by (simp add: scheme_of_def starts_with_def)
  ultimately show ?thesis
    by (rule scheme_not_shadowed [where xs = "[]", OF fold_simps(1) [symmetric]])
qed


text \<open>
  With the built-in resolver enabled, whatever embedders register, a reference to a stored
  artifact resolves only to the bytes of an input snapshot of the caller's own project that the
  claims-scoped metadata and blob store give to the caller's claims, with the stored digest.
\<close>

theorem artifact_reference_scoped:
  assumes "reg = snd (startup_input_ref_registry (Some (artifact_resolver b finishes)) True schemes embedders)"
    and "scheme_of u = Some ARTIFACT_INPUT_REF_SCHEME"
    and "registry_resolve now c i u dl reg = Inr bytes"
  shows "artifact_visible b c u bytes"
proof -
  let ?r = "artifact_resolver b finishes"
  have vs: "valid_scheme ARTIFACT_INPUT_REF_SCHEME"
    by (simp add: ARTIFACT_INPUT_REF_SCHEME_def valid_scheme_def scheme_char_def is_ascii_lowercase_def
        is_ascii_digit_def)
  let ?reg1 = "snd (register_scheme ARTIFACT_INPUT_REF_SCHEME ?r new_registry)"
  have first: "by_scheme ?reg1 ARTIFACT_INPUT_REF_SCHEME = Some ?r"
    using vs by (simp add: register_scheme_def new_registry_def)
  have ok: "registry_ok ?reg1"
    using registry_ok_scheme [OF registry_ok_new surjective_pairing] .
  obtain xs where "reg = fold apply_registration xs ?reg1"
    using assms(1) extend_from_history [of schemes embedders ?reg1]
    by (auto simp: startup_input_ref_registry_def)
  then have "matching u reg = Some ?r"
    using scheme_routing [OF registry_ok_history [OF ok] history_keeps_scheme [OF first] assms(2)] by simp
  then show ?thesis
    using artifact.kernel_resolve [of u reg b finishes] assms(3) by (simp add: artifact_resolver_def)
qed

definition sample_backend :: artifact_backend where
  "sample_backend = \<lparr>hyphenated_uuid = Some, sha256_hex_of = (\<lambda>s. s),
     load_artifact_metadata = (\<lambda>c i. Inr (Some \<lparr>meta_id = i, meta_kind = InputSnapshot,
       meta_blob_key = ''artifacts/x.json'', meta_size_bytes = 2, meta_sha256 = ''{}''\<rparr>)),
     blob_get = (\<lambda>c k. Inr ''{}'')\<rparr>"

definition sample_caller :: isolation_claims where
  "sample_caller = \<lparr>tenant_id = ''t1'', project_id = ''p1'', actor_id = ''a1'',
     provenance = VerifiedExplicit, missing_scope_field = None\<rparr>"

theorem artifact_reference_scoped_witness:
  "artifact_visible sample_backend sample_caller ''wao-artifact://p1/x'' ''{}''"
proof -
  let ?reg = "snd (startup_input_ref_registry (Some (artifact_resolver sample_backend (\<lambda>_. 0))) True [] new_registry)"
  have vs: "valid_scheme ''wao-artifact''"
    by (simp add: valid_scheme_def scheme_char_def is_ascii_lowercase_def is_ascii_digit_def)
  have reg: "?reg = new_registry\<lparr>by_scheme := [''wao-artifact'' \<mapsto> artifact_resolver sample_backend (\<lambda>_. 0)]\<rparr>"
    using vs by (simp add: startup_input_ref_registry_def extend_from_def register_scheme_def new_registry_def
        ARTIFACT_INPUT_REF_SCHEME_def)
  have scheme: "scheme_of ''wao-artifact://p1/x'' = Some ''wao-artifact''"
    by (simp add: scheme_of_def starts_with_def)
  have "check_input_ref_uri ''wao-artifact://p1/x'' = Inr ()"
    by (simp add: check_input_ref_uri_def is_visible_ascii_def valid_scheme_def scheme_char_def
        is_ascii_lowercase_def is_ascii_digit_def starts_with_def to_ascii_lowercase_def
        to_ascii_lower_def is_ascii_uppercase_def)
  moreover have parse: "artifact_parse sample_backend ''wao-artifact://p1/x'' = Some (''p1'', ''x'')"
    by (simp add: artifact_parse_def sample_backend_def strip_prefix_def starts_with_def)
  ultimately have "registry_resolve 0 sample_caller ''i'' ''wao-artifact://p1/x'' None ?reg = Inr ''{}''"
    using scheme unfolding reg
    by (simp add: registry_resolve_def matching_def new_registry_def artifact_resolver_def
        artifact_validate_def artifact_resolve_def sample_caller_def Let_def DEFAULT_INPUT_REF_TIMEOUT_def
        DEFAULT_INPUT_REF_MAX_BYTES_def)
      (simp add: sample_backend_def is_canonical_blob_key_def artifact_key_def)
  from artifact_reference_scoped [OF refl _ this] scheme show ?thesis
    by (simp add: ARTIFACT_INPUT_REF_SCHEME_def)
qed

end
