(* ===== verification/Invocation_Routes.thy ===== *)
theory Invocation_Routes
  imports Identity Invocation_Store Input_Ref
begin

text \<open>
  The invocation routes (\<open>src/api/http/invocations.rs\<close>) over the store, the input reference
  registry and the cancellation registry (\<open>invocations_execution.rs\<close>): request validation, the
  idempotency key and the request fingerprint, and the create, get, list and cancel handlers as
  functions of the application state, with the definition lookup of \<open>agents.rs\<close>. The JSON
  reader and printer, the digest, base64 and the agent document decoder are the parameter
  \<open>route_lib\<close>; the clock, fresh identifiers and the outcome of file writes are arguments.
\<close>

section \<open>Responses\<close>

record http_error =
  err_status :: nat
  err_code :: string
  err_message :: string
  missing_field :: "string option"
  retry_after :: "nat option"
  current_revision :: "u64 option"

definition api_error :: "nat \<Rightarrow> string \<Rightarrow> string \<Rightarrow> http_error" where
  "api_error status c m = \<lparr>err_status = status, err_code = c, err_message = m, missing_field = None,
     retry_after = None, current_revision = None\<rparr>"

definition invalid_request :: "string \<Rightarrow> http_error" where
  "invalid_request m = api_error 400 ''invalid_request'' m"

definition payload_too_large :: "string \<Rightarrow> http_error" where
  "payload_too_large m = api_error 413 ''payload_too_large'' m"

definition not_found_error :: http_error where
  "not_found_error = api_error 404 ''not_found'' ''invocation not found''"

fun store_error_response :: "invocation_store_error \<Rightarrow> http_error" where
  "store_error_response NotFound = not_found_error"
| "store_error_response (RevisionConflict n) =
     (api_error 409 ''revision_conflict'' ''the invocation was modified; re-read and retry'')
       \<lparr>current_revision := Some n\<rparr>"
| "store_error_response (IllegalTransition s t) =
     api_error 409 ''illegal_transition''
       (''cannot move an invocation from '' @ state_as_str s @ '' to '' @ state_as_str t)"
| "store_error_response StoreFull =
     api_error 503 ''invocation_store_full'' ''invocation store capacity reached''"
| "store_error_response TooManyActive =
     (api_error 429 ''too_many_active'' ''too many active invocations; retry later'')\<lparr>retry_after := Some 5\<rparr>"
| "store_error_response (Persistence _) =
     api_error 500 ''persistence_failed'' ''failed to persist invocation''"
| "store_error_response IdempotencyKeyConflict =
     api_error 409 ''idempotency_key_conflict''
       ''this Idempotency-Key was already used with a different request body''"
| "store_error_response IdempotencyKeyInProgress =
     (api_error 409 ''idempotency_key_in_progress''
       ''a request with this Idempotency-Key is still being processed; retry later'')\<lparr>retry_after := Some 1\<rparr>"
| "store_error_response (InvalidUsage _) =
     api_error 400 ''invalid_usage'' ''invocation usage is invalid''"

definition invalid_if_match_error :: http_error where
  "invalid_if_match_error = api_error 400 ''invalid_if_match''
     ''If-Match must be a single strong tag \"<revision>\" or *''"

text \<open>
  A resource response carries its status, the public view of the record, its entity tag, the replay
  header and the location header. The view leaves out the internal members: they are blanked here.
\<close>

datatype response =
    ErrorResponse http_error
  | ResourceResponse nat invocation string bool "string option"
  | ListResponse "invocation list" bool "string option"

definition resource_view :: "invocation \<Rightarrow> invocation" where
  "resource_view r = r\<lparr>audit_events := [], idempotency := None, agent_definition := None\<rparr>"

definition resource_response :: "nat \<Rightarrow> invocation \<Rightarrow> response" where
  "resource_response status r = ResourceResponse status (resource_view r) (etag r) False None"

definition location_of :: "invocation \<Rightarrow> string option" where
  "location_of r = header_to_str (''/v1/invocations/'' @ inv_id r)"

definition replay_response :: "invocation \<Rightarrow> response" where
  "replay_response r = ResourceResponse 200 (resource_view r) (etag r) True (location_of r)"

section \<open>The caller\<close>

definition verified_scope :: "user_identity \<Rightarrow> http_error + isolation_claims" where
  "verified_scope identity =
     (case isolation_claims_of identity of
        None \<Rightarrow> Inl (api_error 401 ''verified_isolation_claims_required''
                  ''verified isolation claims required for invocations'')
      | Some c \<Rightarrow>
          if provenance c \<noteq> VerifiedExplicit
          then Inl ((api_error 403 ''claims_incomplete''
                  ''invocations require an explicit tenant and project in the token'')
                  \<lparr>missing_field := Some (case missing_scope_field c of
                     None \<Rightarrow> ''project_id'' | Some f \<Rightarrow> isolation_scope_field_as_str f)\<rparr>)
          else Inr c)"

section \<open>Request validation\<close>

record route_lib =
  chrono :: chrono_lib
  parse_json :: "string \<Rightarrow> json option"
  compact_json :: "json \<Rightarrow> string"
  show_scalar_json :: "json \<Rightarrow> string"
  digest_hex :: "string \<Rightarrow> string"
  encode_position :: "string \<times> string \<Rightarrow> string"
  decode_position :: "string \<Rightarrow> (string \<times> string) option"
  decode_definition :: "json \<Rightarrow> agent_definition_revision option"

definition MAX_CREATE_BODY_BYTES :: nat where "MAX_CREATE_BODY_BYTES = 64 * 1024"
definition MAX_INPUT_BYTES :: nat where "MAX_INPUT_BYTES = 8192"
definition MAX_METADATA_BYTES :: nat where "MAX_METADATA_BYTES = 16 * 1024"
definition MAX_METADATA_KEYS :: nat where "MAX_METADATA_KEYS = 64"
definition MAX_ID_BYTES :: nat where "MAX_ID_BYTES = 256"
definition MAX_IDEMPOTENCY_KEY_BYTES :: nat where "MAX_IDEMPOTENCY_KEY_BYTES = 255"
definition DEFAULT_LIST_LIMIT :: nat where "DEFAULT_LIST_LIMIT = 20"
definition MAX_LIST_LIMIT :: nat where "MAX_LIST_LIMIT = 100"

definition FORBIDDEN_FIELDS :: "string list" where
  "FORBIDDEN_FIELDS = [''tenant_id'', ''project_id'', ''actor_id'', ''id'', ''task_iri'', ''state'', ''revision'']"

definition CREATE_FIELDS :: "string list" where
  "CREATE_FIELDS = [''prompt'', ''agent_id'', ''agent_revision'', ''input'', ''input_ref'', ''budget'',
     ''deadline'', ''metadata'']"

definition FLOATING_REVISIONS :: "string list" where
  "FLOATING_REVISIONS = [''latest'', ''current'', ''head'', ''tip'', ''active'', ''default'', ''*'']"

definition empty_request :: invocation_request where
  "empty_request = \<lparr>prompt = None, agent_id = None, agent_revision = None, input = None,
     input_ref = None, budget = None, deadline = None, metadata = []\<rparr>"

definition optional :: "(string \<times> json) list \<Rightarrow> string \<Rightarrow> json option" where
  "optional body key =
     (case map_of body key of None \<Rightarrow> None | Some v \<Rightarrow> if v = JNull then None else Some v)"

definition bounded_id :: "json \<Rightarrow> string \<Rightarrow> http_error + string" where
  "bounded_id v field =
     (case as_str v of
        None \<Rightarrow> Inl (invalid_request (field @ '' must be a string''))
      | Some text \<Rightarrow>
          if trim text = [] \<or> length text > MAX_ID_BYTES
          then Inl (invalid_request (field @ '' must be 1-256 bytes''))
          else Inr text)"

fun uri_error_message :: "input_ref_uri_error \<Rightarrow> string" where
  "uri_error_message Shape = ''input_ref.uri must be <scheme>://...''"
| "uri_error_message UppercaseScheme = ''input_ref.uri scheme must be lowercase''"
| "uri_error_message ControlCharacter = ''input_ref.uri must not contain control characters or line breaks''"
| "uri_error_message NotPrintableAscii = ''input_ref.uri must contain only printable ASCII''"
| "uri_error_message PathTraversal =
     ''input_ref.uri must not contain empty, '' @ [CHR 0x27] @ ''.'' @ [CHR 0x27] @ '' or ''
       @ [CHR 0x27] @ ''..'' @ [CHR 0x27] @ '' segments, backslashes, or encoded '' @ [CHR 0x27] @ ''.''
       @ [CHR 0x27] @ '', '' @ [CHR 0x27] @ ''/'' @ [CHR 0x27] @ '' or '' @ [CHR 0x27] @ [CHR 0x5C] @ [CHR 0x27]"
| "uri_error_message ReservedDelimiter =
     ''input_ref.uri must not contain '' @ [CHR 0x27] @ ''?'' @ [CHR 0x27] @ '', '' @ [CHR 0x27] @ ''#''
       @ [CHR 0x27] @ '', '' @ [CHR 0x27] @ '';'' @ [CHR 0x27] @ '' or '' @ [CHR 0x27] @ ''%25'' @ [CHR 0x27]"

definition is_lower_hex :: "char \<Rightarrow> bool" where
  "is_lower_hex c \<longleftrightarrow> is_ascii_digit c \<or> (97 \<le> byte c \<and> byte c \<le> 102)"

definition parse_input_ref :: "json \<Rightarrow> http_error + invocation_input_ref" where
  "parse_input_ref v =
     (case as_object v of
        None \<Rightarrow> Inl (invalid_request ''input_ref must be an object'')
      | Some m \<Rightarrow>
          if list_ex (\<lambda>(k, _). k \<noteq> ''uri'' \<and> k \<noteq> ''sha256'') m
          then Inl (invalid_request ''input_ref accepts only uri and sha256'')
          else case (Option.bind (map_of m ''uri'') as_str, Option.bind (map_of m ''sha256'') as_str) of
            (Some u, Some digest) \<Rightarrow>
              (case check_input_ref_uri u of
                 Inl e \<Rightarrow> Inl (invalid_request (uri_error_message e))
               | Inr _ \<Rightarrow>
                   if length digest \<noteq> 64 \<or> \<not> list_all is_lower_hex digest
                   then Inl (invalid_request ''input_ref.sha256 must be 64 lowercase hex characters'')
                   else Inr \<lparr>uri = u, sha256 = digest\<rparr>)
          | _ \<Rightarrow> Inl (invalid_request ''input_ref requires uri and sha256 strings''))"

text \<open>\<open>*slot = Some(n)\<close> for the member the key names.\<close>

definition set_budget_member :: "string \<Rightarrow> u64 \<Rightarrow> invocation_budget \<Rightarrow> invocation_budget" where
  "set_budget_member key n b =
     (if key = ''max_tokens'' then b\<lparr>max_tokens := Some n\<rparr>
      else if key = ''max_tool_calls'' then b\<lparr>max_tool_calls := Some n\<rparr>
      else b\<lparr>max_cost := Some n\<rparr>)"

fun parse_budget_members ::
  "(string \<times> json) list \<Rightarrow> invocation_budget \<Rightarrow> http_error + invocation_budget" where
  "parse_budget_members [] b = Inr b"
| "parse_budget_members ((key, member) # m) b =
     (if key \<notin> {''max_tokens'', ''max_tool_calls'', ''max_cost''}
      then Inl (invalid_request ''budget has an unknown member'')
      else case as_u64 member of
        Some n \<Rightarrow>
          if 1 \<le> n then parse_budget_members m (set_budget_member key n b)
          else Inl (invalid_request ''budget members must be positive integers'')
      | None \<Rightarrow> Inl (invalid_request ''budget members must be positive integers''))"

definition parse_budget :: "json \<Rightarrow> http_error + invocation_budget" where
  "parse_budget v =
     (case as_object v of
        None \<Rightarrow> Inl (invalid_request ''budget must be an object'')
      | Some m \<Rightarrow> parse_budget_members m \<lparr>max_tokens = None, max_tool_calls = None, max_cost = None\<rparr>)"

definition parse_deadline :: "chrono_lib \<Rightarrow> time \<Rightarrow> json \<Rightarrow> http_error + string" where
  "parse_deadline lib now v =
     (case as_str v of
        None \<Rightarrow> Inl (invalid_request ''deadline must be an RFC 3339 string'')
      | Some text \<Rightarrow>
          (case parse_from_rfc3339 lib text of
             None \<Rightarrow> Inl (invalid_request ''deadline must be RFC 3339 with a UTC offset'')
           | Some t \<Rightarrow> if t \<le> now then Inl (invalid_request ''deadline must be in the future'') else Inr text))"

fun input_ref_create_error :: "input_ref_error \<Rightarrow> http_error" where
  "input_ref_create_error NoResolver = api_error 422 ''input_ref_unresolvable''
     ''no resolver is registered for the input_ref uri''"
| "input_ref_create_error ScopeMismatch = api_error 422 ''input_ref_scope_mismatch''
     ''input_ref uri is outside the caller's project''"
| "input_ref_create_error _ = api_error 422 ''input_ref_unresolvable''
     ''the input_ref uri is not accepted by its resolver''"

text \<open>\<open>if let Some(v) = optional(&body, key)\<close>: a rule that runs only when the field is there.\<close>

definition when_present ::
  "(string \<times> json) list \<Rightarrow> string \<Rightarrow> (json \<Rightarrow> 'a \<Rightarrow> http_error + 'a) \<Rightarrow> 'a \<Rightarrow> http_error + 'a" where
  "when_present body key f req = (case optional body key of None \<Rightarrow> Inr req | Some v \<Rightarrow> f v req)"

definition prompt_rule :: "json \<Rightarrow> invocation_request \<Rightarrow> http_error + invocation_request" where
  "prompt_rule v req =
     (case as_str v of
        None \<Rightarrow> Inl (invalid_request ''prompt must be a string'')
      | Some text \<Rightarrow> Inr (req\<lparr>prompt := Some text\<rparr>))"

definition agent_id_rule :: "json \<Rightarrow> invocation_request \<Rightarrow> http_error + invocation_request" where
  "agent_id_rule v req = and_then (bounded_id v ''agent_id'') (\<lambda>i. Inr (req\<lparr>agent_id := Some i\<rparr>))"

definition agent_revision_rule :: "json \<Rightarrow> invocation_request \<Rightarrow> http_error + invocation_request" where
  "agent_revision_rule v req =
     and_then (bounded_id v ''agent_revision'') (\<lambda>r.
       if list_ex (eq_ignore_ascii_case (trim r)) FLOATING_REVISIONS
       then Inl (invalid_request ''agent_revision must be an exact revision, not a floating name'')
       else if agent_id req = None
       then Inl (invalid_request ''agent_revision requires agent_id'')
       else Inr (req\<lparr>agent_revision := Some r\<rparr>))"

definition input_rule :: "route_lib \<Rightarrow> json \<Rightarrow> invocation_request \<Rightarrow> http_error + invocation_request" where
  "input_rule lib v req =
     (if length (compact_json lib v) > MAX_INPUT_BYTES
      then Inl (payload_too_large ''input exceeds 8192 bytes'')
      else Inr (req\<lparr>input := Some v\<rparr>))"

definition input_ref_rule :: "json \<Rightarrow> invocation_request \<Rightarrow> http_error + invocation_request" where
  "input_ref_rule v req =
     (if input req \<noteq> None
      then Inl (invalid_request ''input and input_ref are mutually exclusive'')
      else and_then (parse_input_ref v) (\<lambda>r. Inr (req\<lparr>input_ref := Some r\<rparr>)))"

definition budget_rule :: "json \<Rightarrow> invocation_request \<Rightarrow> http_error + invocation_request" where
  "budget_rule v req = and_then (parse_budget v) (\<lambda>b. Inr (req\<lparr>budget := Some b\<rparr>))"

definition deadline_rule ::
  "chrono_lib \<Rightarrow> time \<Rightarrow> json \<Rightarrow> invocation_request \<Rightarrow> http_error + invocation_request" where
  "deadline_rule lib now v req =
     and_then (parse_deadline lib now v) (\<lambda>d. Inr (req\<lparr>deadline := Some d\<rparr>))"

definition metadata_rule :: "route_lib \<Rightarrow> json \<Rightarrow> invocation_request \<Rightarrow> http_error + invocation_request" where
  "metadata_rule lib v req =
     (case as_object v of
        None \<Rightarrow> Inl (invalid_request ''metadata must be an object'')
      | Some m \<Rightarrow>
          if length m > MAX_METADATA_KEYS
          then Inl (payload_too_large ''metadata exceeds 64 top-level keys'')
          else if length (compact_json lib v) > MAX_METADATA_BYTES
          then Inl (payload_too_large ''metadata exceeds 16 KiB'')
          else Inr (req\<lparr>metadata := m\<rparr>))"

definition parse_fields ::
  "route_lib \<Rightarrow> time \<Rightarrow> (string \<times> json) list \<Rightarrow> http_error + invocation_request" where
  "parse_fields lib now body =
     and_then (when_present body ''prompt'' prompt_rule empty_request) (\<lambda>req.
     and_then (when_present body ''agent_id'' agent_id_rule req) (\<lambda>req.
     and_then (when_present body ''agent_revision'' agent_revision_rule req) (\<lambda>req.
     and_then (when_present body ''input'' (input_rule lib) req) (\<lambda>req.
     and_then (when_present body ''input_ref'' input_ref_rule req) (\<lambda>req.
     and_then (when_present body ''budget'' budget_rule req) (\<lambda>req.
     and_then (when_present body ''deadline'' (deadline_rule (chrono lib) now) req) (\<lambda>req.
     and_then (when_present body ''metadata'' (metadata_rule lib) req) (\<lambda>req.
     let has_prompt = (case prompt req of None \<Rightarrow> False | Some p \<Rightarrow> trim p \<noteq> [])
     in if \<not> has_prompt \<and> input req = None \<and> input_ref req = None
        then Inl (invalid_request ''prompt is required unless input or input_ref is set'')
        else Inr req))))))))"

definition parse_create_request :: "route_lib \<Rightarrow> time \<Rightarrow> string \<Rightarrow> http_error + invocation_request" where
  "parse_create_request lib now raw =
     (if length raw > MAX_CREATE_BODY_BYTES
      then Inl (payload_too_large ''request body exceeds 64 KiB'')
      else case Option.bind (parse_json lib raw) as_object of
        None \<Rightarrow> Inl (invalid_request ''request body must be a JSON object'')
      | Some body \<Rightarrow>
          if list_ex (\<lambda>(key, _). key \<in> set FORBIDDEN_FIELDS) body
          then Inl (api_error 400 ''field_not_allowed''
                 ''scope and server fields are taken from the token and the server'')
          else if list_ex (\<lambda>(key, _). key \<notin> set CREATE_FIELDS) body
          then Inl (invalid_request ''request body has an unknown field'')
          else parse_fields lib now body)"

definition parse_idempotency_key :: "string list \<Rightarrow> http_error + string option" where
  "parse_idempotency_key values =
     (let invalid = api_error 400 ''invalid_idempotency_key''
            ''Idempotency-Key must be 1-255 visible ASCII characters''
      in case values of
           [] \<Rightarrow> Inr None
         | [raw] \<Rightarrow>
             if raw = [] \<or> length raw > MAX_IDEMPOTENCY_KEY_BYTES \<or> \<not> list_all is_visible_ascii raw
             then Inl invalid else Inr (Some raw)
         | _ \<Rightarrow> Inl invalid)"

definition request_fingerprint :: "route_lib \<Rightarrow> string \<Rightarrow> string option" where
  "request_fingerprint lib raw =
     (if length raw > MAX_CREATE_BODY_BYTES then None
      else Option.bind (parse_json lib raw) (\<lambda>v.
        Some (digest_hex lib (write_canonical_json (show_scalar_json lib) v))))"

section \<open>Cancellation tokens\<close>

text \<open>
  A token is a number; \<open>fired\<close> holds the cancelled ones. The registry maps an invocation to the
  token of its latest registration.
\<close>

record cancellation_registry =
  tokens :: "string \<rightharpoonup> nat"
  fired :: "nat set"
  next_token :: nat

definition register_token :: "string \<Rightarrow> cancellation_registry \<Rightarrow> nat \<times> cancellation_registry" where
  "register_token i reg =
     (next_token reg, reg\<lparr>tokens := (tokens reg)(i \<mapsto> next_token reg), next_token := Suc (next_token reg)\<rparr>)"

definition cancel_token :: "string \<Rightarrow> cancellation_registry \<Rightarrow> bool \<times> cancellation_registry" where
  "cancel_token i reg =
     (case tokens reg i of
        Some t \<Rightarrow> (True, reg\<lparr>fired := insert t (fired reg)\<rparr>)
      | None \<Rightarrow> (False, reg))"

definition remove_token :: "string \<Rightarrow> cancellation_registry \<Rightarrow> cancellation_registry" where
  "remove_token i reg = reg\<lparr>tokens := (tokens reg)(i := None)\<rparr>"

section \<open>The application state\<close>

text \<open>
  \<open>dispatched\<close> is what the installed dispatcher received, in order; without one a create
  registers a token that nothing runs under.
\<close>

record app_state =
  route_store :: "invocation_store option"
  execution_enabled :: bool
  has_dispatcher :: bool
  dispatched :: "invocation list"
  cancellations :: cancellation_registry
  input_refs :: input_ref_registry
  user_agents :: "json list"

definition execution_enabled_from_env :: "string option \<Rightarrow> bool" where
  "execution_enabled_from_env v =
     (case v of None \<Rightarrow> False
      | Some raw \<Rightarrow> to_ascii_lowercase (trim raw) \<in> {''1'', ''true'', ''yes'', ''on''})"

definition store_of :: "app_state \<Rightarrow> http_error + invocation_store" where
  "store_of st = ok_or (api_error 503 ''invocation_store_unavailable'' ''invocation store is unavailable'')
     (route_store st)"

definition resolve_definition_revision ::
  "route_lib \<Rightarrow> json list \<Rightarrow> string \<Rightarrow> string \<Rightarrow> string \<Rightarrow> string option \<Rightarrow> agent_definition_revision option" where
  "resolve_definition_revision lib agents tenant project agent requested =
     Option.bind (find (\<lambda>a. get_str a ''id'' = Some agent \<and> get_str a ''tenant_id'' = Some tenant
        \<and> get_str a ''project_id'' = Some project) agents) (\<lambda>a.
     Option.bind (Option.bind (json_get a ''revisions'') as_array) (\<lambda>revisions.
     Option.bind (case requested of Some r \<Rightarrow> Some r | None \<Rightarrow> get_str a ''active_revision'') (\<lambda>wanted.
     Option.bind (find (\<lambda>v. get_str v ''revision'' = Some wanted) revisions) (\<lambda>v.
       decode_definition lib v))))"

definition resolve_agent ::
  "route_lib \<Rightarrow> json list \<Rightarrow> isolation_claims \<Rightarrow> invocation_request
   \<Rightarrow> http_error + (agent_definition_revision option \<times> invocation_request)" where
  "resolve_agent lib agents c req =
     (case agent_id req of
        None \<Rightarrow> Inr (None, req)
      | Some agent \<Rightarrow>
          (case resolve_definition_revision lib agents (tenant_id c) (project_id c) agent (agent_revision req) of
             None \<Rightarrow> Inl (api_error 422 ''agent_not_found''
               ''agent_id and agent_revision do not name an agent definition in this scope'')
           | Some d \<Rightarrow> Inr (Some d, req\<lparr>agent_revision := Some (def_revision d)\<rparr>)))"

section \<open>Create\<close>

text \<open>
  The part of a create that runs under the reservation, when there is one. The reservation is
  dropped when the handler returns.
\<close>

definition dispatch_created :: "invocation \<Rightarrow> app_state \<Rightarrow> app_state" where
  "dispatch_created r st =
     (if has_dispatcher st then st\<lparr>dispatched := dispatched st @ [r]\<rparr>
      else st\<lparr>cancellations := snd (register_token (inv_id r) (cancellations st))\<rparr>)"

definition create_validated ::
  "route_lib \<Rightarrow> file_system \<Rightarrow> string \<Rightarrow> time \<Rightarrow> isolation_claims \<Rightarrow> string \<Rightarrow> idempotency_registration option
   \<Rightarrow> app_state \<Rightarrow> response \<times> app_state" where
  "create_validated lib fs new_id now c body registration st =
     (case and_then (parse_create_request lib now body) (\<lambda>req.
             and_then (case input_ref req of
                 None \<Rightarrow> Inr ()
               | Some r \<Rightarrow> map_err input_ref_create_error (registry_validate (uri r) c (input_refs st))) (\<lambda>_.
             and_then (resolve_agent lib (user_agents st) c req) (\<lambda>(definition, req).
             and_then (store_of st) (\<lambda>store.
               if \<not> execution_enabled st
               then Inl (api_error 503 ''execution_disabled'' ''invocation execution is disabled on this server'')
               else Inr (\<lparr>new_request = req, new_agent_definition = definition, new_task_iri = None,
                          new_idempotency = registration\<rparr>, store))))) of
        Inl e \<Rightarrow> (ErrorResponse e, st)
      | Inr (new, store) \<Rightarrow>
          (case create_idempotent_for_claims (chrono lib) fs new_id now c new store of
             (Inr (Created r), store') \<Rightarrow>
               (ResourceResponse 202 (resource_view r) (etag r) False (location_of r),
                dispatch_created r (st\<lparr>route_store := Some store'\<rparr>))
           | (Inr (Replayed r), store') \<Rightarrow> (replay_response r, st\<lparr>route_store := Some store'\<rparr>)
           | (Inl e, store') \<Rightarrow> (ErrorResponse (store_error_response e), st\<lparr>route_store := Some store'\<rparr>)))"

definition drop_held :: "idempotency_slot \<Rightarrow> app_state \<Rightarrow> app_state" where
  "drop_held slot st = st\<lparr>route_store := map_option (drop_reservation slot) (route_store st)\<rparr>"

definition create_invocation_handler ::
  "route_lib \<Rightarrow> file_system \<Rightarrow> string \<Rightarrow> time \<Rightarrow> user_identity \<Rightarrow> string list \<Rightarrow> string \<Rightarrow> app_state
   \<Rightarrow> response \<times> app_state" where
  "create_invocation_handler lib fs new_id now identity key_headers body st =
     (case verified_scope identity of
        Inl e \<Rightarrow> (ErrorResponse e, st)
      | Inr c \<Rightarrow>
        (case parse_idempotency_key key_headers of
           Inl e \<Rightarrow> (ErrorResponse e, st)
         | Inr key \<Rightarrow>
           (case (key, request_fingerprint lib body) of
              (Some key, Some fp) \<Rightarrow>
                (case store_of st of
                   Inl e \<Rightarrow> (ErrorResponse e, st)
                 | Inr store \<Rightarrow>
                     (case find_idempotent_at (chrono lib) c key fp now store of
                        Replay r \<Rightarrow> (replay_response r, st)
                      | Conflict \<Rightarrow> (ErrorResponse (store_error_response IdempotencyKeyConflict), st)
                      | Miss \<Rightarrow>
                          (case reserve_idempotency_key c key store of
                             (Inl e, _) \<Rightarrow> (ErrorResponse (store_error_response e), st)
                           | (Inr slot, store') \<Rightarrow>
                               (case create_validated lib fs new_id now c body
                                       (Some \<lparr>reg_key = key, reg_fingerprint = fp\<rparr>)
                                       (st\<lparr>route_store := Some store'\<rparr>) of
                                  (resp, st') \<Rightarrow> (resp, drop_held slot st')))))
            | _ \<Rightarrow> create_validated lib fs new_id now c body None st)))"

section \<open>Get, list and cancel\<close>

definition get_invocation_handler :: "user_identity \<Rightarrow> string \<Rightarrow> app_state \<Rightarrow> response" where
  "get_invocation_handler identity i st =
     (case and_then (verified_scope identity) (\<lambda>c.
            and_then (store_of st) (\<lambda>store.
              map_err store_error_response (get_for_claims c i store))) of
        Inl e \<Rightarrow> ErrorResponse e
      | Inr r \<Rightarrow> resource_response 200 r)"

record list_query =
  query_limit :: "string option"
  query_after :: "string option"
  query_state :: "string option"

definition parse_limit :: "string option \<Rightarrow> http_error + nat" where
  "parse_limit raw =
     (case raw of
        None \<Rightarrow> Inr DEFAULT_LIST_LIMIT
      | Some s \<Rightarrow>
          (case parse_u64 s of
             Some n \<Rightarrow> if 1 \<le> unat n \<and> unat n \<le> MAX_LIST_LIMIT then Inr (unat n)
                       else Inl (invalid_request ''limit must be an integer from 1 to 100'')
           | None \<Rightarrow> Inl (invalid_request ''limit must be an integer from 1 to 100'')))"

definition parse_state_filter :: "string option \<Rightarrow> http_error + invocation_state option" where
  "parse_state_filter raw =
     (case raw of
        None \<Rightarrow> Inr None
      | Some s \<Rightarrow> map_err (\<lambda>_. invalid_request ''unknown state filter'')
          (ok_or () (map_option Some (find (\<lambda>t. state_as_str t = s) all_states))))"

definition parse_cursor :: "route_lib \<Rightarrow> string option \<Rightarrow> http_error + (string \<times> string) option" where
  "parse_cursor lib raw =
     (case raw of
        None \<Rightarrow> Inr None
      | Some s \<Rightarrow> ok_or (invalid_request ''invalid cursor'') (map_option Some (decode_position lib s)))"

definition page_start :: "(string \<times> string) option \<Rightarrow> invocation list \<Rightarrow> nat" where
  "page_start after listed =
     (case after of
        None \<Rightarrow> 0
      | Some p \<Rightarrow> (case position (\<lambda>r. age_key r < p) listed of Some k \<Rightarrow> k | None \<Rightarrow> length listed))"

definition list_page ::
  "route_lib \<Rightarrow> nat \<Rightarrow> (string \<times> string) option \<Rightarrow> invocation list \<Rightarrow> invocation list \<times> bool \<times> string option" where
  "list_page lib limit after listed =
     (let start = page_start after listed;
          page = take limit (drop start listed);
          has_more = start + length page < length listed
      in (page, has_more,
          if has_more then (if page = [] then None else Some (encode_position lib (age_key (last page))))
          else None))"

definition list_invocations_handler ::
  "route_lib \<Rightarrow> user_identity \<Rightarrow> list_query option \<Rightarrow> app_state \<Rightarrow> response" where
  "list_invocations_handler lib identity query st =
     (case and_then (verified_scope identity) (\<lambda>c.
            and_then (ok_or (invalid_request ''invalid query string'') query) (\<lambda>q.
            and_then (parse_limit (query_limit q)) (\<lambda>limit.
            and_then (parse_state_filter (query_state q)) (\<lambda>wanted.
            and_then (parse_cursor lib (query_after q)) (\<lambda>after.
            and_then (store_of st) (\<lambda>store.
              Inr (list_page lib limit after (list_for_claims c wanted store)))))))) of
        Inl e \<Rightarrow> ErrorResponse e
      | Inr (page, has_more, next) \<Rightarrow> ListResponse (map resource_view page) has_more next)"

text \<open>
  One attempt of the cancel loop: \<open>None\<close> asks for the second attempt. Between the read and the
  write other handlers may run: \<open>between\<close> is what they do to the store.
\<close>

definition cancel_attempt ::
  "chrono_lib \<Rightarrow> file_system \<Rightarrow> time \<Rightarrow> user_identity \<Rightarrow> isolation_claims \<Rightarrow> string \<Rightarrow> u64 option \<Rightarrow> bool
   \<Rightarrow> (invocation_store \<Rightarrow> invocation_store) \<Rightarrow> invocation_store \<Rightarrow> app_state
   \<Rightarrow> (response \<times> app_state) option \<times> invocation_store" where
  "cancel_attempt lib fs now identity c i expected retry between store st =
     (case get_for_claims c i store of
        Inl e \<Rightarrow> (Some (ErrorResponse (store_error_response e), st\<lparr>route_store := Some store\<rparr>), store)
      | Inr r \<Rightarrow>
          if inv_actor_id r \<noteq> actor_id c \<and> \<not> has_role ''DA'' identity
          then (Some (ErrorResponse (api_error 403 ''cancel_not_permitted''
                  ''only the creating actor or a DA may cancel this invocation''),
                  st\<lparr>route_store := Some store\<rparr>), store)
          else (case cancel_target (state r) of
             None \<Rightarrow> (Some (ErrorResponse (store_error_response (IllegalTransition (state r) Cancelled)),
                       st\<lparr>route_store := Some store\<rparr>), store)
           | Some target \<Rightarrow>
               (case transition_outcome_for_claims lib fs now c i expected target no_patch (between store) of
                  (Inr out, store') \<Rightarrow>
                    let reg = snd (cancel_token i (cancellations st));
                        reg = (if is_terminal (state (outcome_invocation out)) then remove_token i reg else reg)
                    in (Some (resource_response
                          (if state (outcome_invocation out) = Cancelled then 200 else 202)
                          (outcome_invocation out),
                        st\<lparr>route_store := Some store', cancellations := reg\<rparr>), store')
                | (Inl e, store') \<Rightarrow>
                    if retry \<and> (case e of IllegalTransition _ _ \<Rightarrow> True | _ \<Rightarrow> False)
                    then (None, store')
                    else (Some (ErrorResponse (store_error_response e), st\<lparr>route_store := Some store'\<rparr>), store'))))"

definition cancel_invocation_handler ::
  "chrono_lib \<Rightarrow> file_system \<Rightarrow> time \<Rightarrow> user_identity \<Rightarrow> string \<Rightarrow> string list
   \<Rightarrow> (invocation_store \<Rightarrow> invocation_store) \<Rightarrow> (invocation_store \<Rightarrow> invocation_store)
   \<Rightarrow> app_state \<Rightarrow> response \<times> app_state" where
  "cancel_invocation_handler lib fs now identity i if_match between1 between2 st =
     (case and_then (verified_scope identity) (\<lambda>c.
            and_then (map_err (\<lambda>_. invalid_if_match_error) (parse_if_match if_match)) (\<lambda>expected.
            and_then (store_of st) (\<lambda>store. Inr (c, expected, store)))) of
        Inl e \<Rightarrow> (ErrorResponse e, st)
      | Inr (c, expected, store) \<Rightarrow>
          (case cancel_attempt lib fs now identity c i expected True between1 store st of
             (Some answer, _) \<Rightarrow> answer
           | (None, store1) \<Rightarrow>
               (case cancel_attempt lib fs now identity c i expected False between2 store1 st of
                  (Some answer, _) \<Rightarrow> answer
                | (None, store2) \<Rightarrow> (ErrorResponse not_found_error, st\<lparr>route_store := Some store2\<rparr>))))"

section \<open>Event streams\<close>

text \<open>
  The server-sent events of one invocation. An event carries its identifier and the fields of its
  data; \<open>external:\<close> sources and terminal task events are not relayed.
\<close>

record bus_event =
  bus_task_iri :: string
  bus_event_type :: string
  bus_source :: string

definition invocation_progress_message :: "bus_event \<Rightarrow> string option" where
  "invocation_progress_message ev =
     (if starts_with ''external:'' (bus_source ev) then None
      else if bus_event_type ev = ''TASK_COMPLETED'' \<or> bus_event_type ev = ''TASK_FAILED'' then None
      else Some (bus_event_type ev))"

datatype sse_event =
    StateEvent string u64 string invocation_state "invocation_state option" "invocation option"
  | ResultEvent string u64 string "invocation_result option"
  | ErrorEvent string u64 string "invocation_error_info option" "invocation_usage option"
  | ProgressEvent string u64 string string
  | ResyncEvent string u64

fun event_id :: "sse_event \<Rightarrow> string" where
  "event_id (StateEvent i _ _ _ _ _) = i"
| "event_id (ResultEvent i _ _ _) = i"
| "event_id (ErrorEvent i _ _ _ _) = i"
| "event_id (ProgressEvent i _ _ _) = i"
| "event_id (ResyncEvent i _) = i"

definition sse_event_id :: "u64 \<Rightarrow> u64 \<Rightarrow> string \<times> u64" where
  "sse_event_id rev_no seq = (show_nat (unat rev_no) @ ''.'' @ show_nat (unat seq), saturating_add seq 1)"

definition sse_state_event ::
  "invocation \<Rightarrow> invocation_state option \<Rightarrow> bool \<Rightarrow> u64 \<Rightarrow> sse_event \<times> u64" where
  "sse_state_event r previous snapshot seq =
     (case sse_event_id (revision r) seq of
        (i, seq') \<Rightarrow> (StateEvent i (revision r) (updated_at r) (state r) previous
                       (if snapshot then Some (resource_view r) else None), seq'))"

definition sse_terminal_payload :: "invocation \<Rightarrow> u64 \<Rightarrow> sse_event option \<times> u64" where
  "sse_terminal_payload r seq =
     (case state r of
        Succeeded \<Rightarrow> (case sse_event_id (revision r) seq of
          (i, seq') \<Rightarrow> (Some (ResultEvent i (revision r) (updated_at r) (inv_result r)), seq'))
      | Failed \<Rightarrow> (case sse_event_id (revision r) seq of
          (i, seq') \<Rightarrow> (Some (ErrorEvent i (revision r) (updated_at r) (inv_error r)
                         (Option.bind (inv_result r) usage)), seq'))
      | _ \<Rightarrow> (None, seq))"

record sse_state =
  sse_open :: bool
  sse_seq :: u64
  sse_last_revision :: u64
  sse_last_state :: invocation_state
  sse_task_iri :: "string option"

text \<open>What the loop of the stream selects next: \<open>Poll\<close> carries what the store answers.\<close>

datatype sse_input =
    Shutdown
  | BusEvent bus_event
  | BusClosed
  | BusLagged
  | Poll "invocation_store_error + invocation"

definition sse_start :: "invocation \<Rightarrow> sse_event list \<times> sse_state" where
  "sse_start r =
     (case sse_state_event r None True 0 of
        (first, seq) \<Rightarrow>
          let st = \<lparr>sse_open = True, sse_seq = seq, sse_last_revision = revision r,
                    sse_last_state = state r, sse_task_iri = task_iri r\<rparr>
          in if is_terminal (state r)
             then (case sse_terminal_payload r seq of
                     (Some ev, seq') \<Rightarrow> ([first, ev], st\<lparr>sse_open := False, sse_seq := seq'\<rparr>)
                   | (None, seq') \<Rightarrow> ([first], st\<lparr>sse_open := False, sse_seq := seq'\<rparr>))
             else ([first], st))"

definition events_invocation_handler :: "user_identity \<Rightarrow> string \<Rightarrow> app_state \<Rightarrow> http_error + sse_event list \<times> sse_state" where
  "events_invocation_handler identity i st =
     and_then (verified_scope identity) (\<lambda>c.
     and_then (store_of st) (\<lambda>store.
     and_then (map_err store_error_response (get_for_claims c i store)) (\<lambda>r. Inr (sse_start r))))"

definition sse_step :: "sse_input \<Rightarrow> sse_state \<Rightarrow> sse_event list \<times> sse_state" where
  "sse_step inp st =
     (if \<not> sse_open st then ([], st)
      else case inp of
        Shutdown \<Rightarrow> ([], st\<lparr>sse_open := False\<rparr>)
      | BusEvent ev \<Rightarrow>
          (case sse_task_iri st of
             None \<Rightarrow> ([], st)
           | Some iri \<Rightarrow>
               if bus_task_iri ev \<noteq> iri then ([], st)
               else case invocation_progress_message ev of
                 None \<Rightarrow> ([], st)
               | Some msg \<Rightarrow>
                   (case sse_event_id (sse_last_revision st) (sse_seq st) of
                      (i, seq) \<Rightarrow> ([ProgressEvent i (sse_last_revision st) msg (bus_source ev)],
                                   st\<lparr>sse_seq := seq\<rparr>)))
      | BusClosed \<Rightarrow> ([], st)
      | BusLagged \<Rightarrow>
          (case sse_event_id (sse_last_revision st) (sse_seq st) of
             (i, seq) \<Rightarrow> ([ResyncEvent i (sse_last_revision st)], st\<lparr>sse_seq := seq\<rparr>))
      | Poll (Inl _) \<Rightarrow> ([], st\<lparr>sse_open := False\<rparr>)
      | Poll (Inr r) \<Rightarrow>
          let st = (if task_iri r \<noteq> None then st\<lparr>sse_task_iri := task_iri r\<rparr> else st)
          in if revision r \<noteq> sse_last_revision st \<or> state r \<noteq> sse_last_state st
             then (case sse_state_event r (Some (sse_last_state st)) False (sse_seq st) of
                     (ev, seq) \<Rightarrow>
                       let st = st\<lparr>sse_last_revision := revision r, sse_last_state := state r, sse_seq := seq\<rparr>
                       in if is_terminal (state r)
                          then (case sse_terminal_payload r seq of
                                  (Some payload, seq') \<Rightarrow>
                                    ([ev, payload], st\<lparr>sse_open := False, sse_seq := seq'\<rparr>)
                                | (None, seq') \<Rightarrow> ([ev], st\<lparr>sse_open := False, sse_seq := seq'\<rparr>))
                          else ([ev], st))
             else ([], st))"

fun sse_run :: "sse_input list \<Rightarrow> sse_state \<Rightarrow> sse_event list \<times> sse_state" where
  "sse_run [] st = ([], st)"
| "sse_run (x # xs) st =
     (case sse_step x st of (evs, st') \<Rightarrow> (case sse_run xs st' of (evs', st'') \<Rightarrow> (evs @ evs', st'')))"

section \<open>What an accepted request looks like\<close>

definition budget_ok :: "invocation_budget \<Rightarrow> bool" where
  "budget_ok b \<longleftrightarrow> (\<forall>n. max_tokens b = Some n \<or> max_tool_calls b = Some n \<or> max_cost b = Some n \<longrightarrow> 1 \<le> n)"

definition ref_ok :: "invocation_input_ref \<Rightarrow> bool" where
  "ref_ok r \<longleftrightarrow> safe_uri (uri r) \<and> length (sha256 r) = 64 \<and> list_all is_lower_hex (sha256 r)"

definition fields_ok :: "chrono_lib \<Rightarrow> time \<Rightarrow> invocation_request \<Rightarrow> bool" where
  "fields_ok lib now req \<longleftrightarrow>
     (input req = None \<or> input_ref req = None)
     \<and> (\<forall>i. agent_id req = Some i \<longrightarrow> \<not> is_blank i \<and> length i \<le> MAX_ID_BYTES)
     \<and> (\<forall>v. agent_revision req = Some v \<longrightarrow> agent_id req \<noteq> None
          \<and> \<not> list_ex (eq_ignore_ascii_case (trim v)) FLOATING_REVISIONS)
     \<and> (\<forall>r. input_ref req = Some r \<longrightarrow> ref_ok r)
     \<and> (\<forall>b. budget req = Some b \<longrightarrow> budget_ok b)
     \<and> (\<forall>d. deadline req = Some d \<longrightarrow> (\<exists>t. parse_from_rfc3339 lib d = Some t \<and> now < t))
     \<and> length (metadata req) \<le> MAX_METADATA_KEYS"

definition has_content :: "invocation_request \<Rightarrow> bool" where
  "has_content req \<longleftrightarrow> (\<exists>p. prompt req = Some p \<and> \<not> is_blank p) \<or> input req \<noteq> None \<or> input_ref req \<noteq> None"

lemma bounded_id_Inr: "bounded_id v field = Inr i \<Longrightarrow> \<not> is_blank i \<and> length i \<le> MAX_ID_BYTES"
  by (auto simp: bounded_id_def is_blank_def split: option.splits if_splits)

lemma parse_input_ref_Inr: "parse_input_ref v = Inr r \<Longrightarrow> ref_ok r"
  by (auto simp: parse_input_ref_def check_input_ref_uri_iff [symmetric] ref_ok_def
      split: option.splits if_splits sum.splits)

lemma budget_ok_member: "budget_ok b \<Longrightarrow> 1 \<le> n \<Longrightarrow> budget_ok (set_budget_member key n b)"
  by (simp add: budget_ok_def set_budget_member_def)

lemma parse_budget_members_ok:
  "parse_budget_members m b = Inr b' \<Longrightarrow> budget_ok b \<Longrightarrow> budget_ok b'"
proof (induction m arbitrary: b)
  case Nil
  then show ?case by simp
next
  case (Cons e m)
  obtain key member where e: "e = (key, member)" by fastforce
  from Cons.prems(1) obtain n where n: "1 \<le> n" "parse_budget_members m (set_budget_member key n b) = Inr b'"
    unfolding e parse_budget_members.simps
    by (cases "as_u64 member") (simp_all split: if_splits)
  show ?case by (rule Cons.IH [OF n(2) budget_ok_member [OF Cons.prems(2) n(1)]])
qed

lemma parse_budget_Inr: "parse_budget v = Inr b \<Longrightarrow> budget_ok b"
proof (cases "as_object v")
  case (Some m)
  moreover have "budget_ok \<lparr>max_tokens = None, max_tool_calls = None, max_cost = None\<rparr>"
    by (simp add: budget_ok_def)
  moreover assume "parse_budget v = Inr b"
  ultimately show ?thesis using parse_budget_members_ok by (simp add: parse_budget_def)
qed (simp add: parse_budget_def)

lemma parse_deadline_Inr:
  "parse_deadline lib now v = Inr d \<Longrightarrow> \<exists>t. parse_from_rfc3339 lib d = Some t \<and> now < t"
  by (auto simp: parse_deadline_def split: option.splits if_splits)

lemma when_present_Inr:
  "when_present body key f req = Inr req' \<longleftrightarrow>
     (optional body key = None \<and> req' = req) \<or> (\<exists>v. optional body key = Some v \<and> f v req = Inr req')"
  by (auto simp: when_present_def split: option.splits)

text \<open>Each rule keeps what the earlier ones established.\<close>

lemma when_present_keeps:
  assumes "when_present body key f req = Inr req'" and "P req"
    and "\<And>v req req'. f v req = Inr req' \<Longrightarrow> P req \<Longrightarrow> P req'"
  shows "P req'"
  using assms by (auto simp: when_present_Inr)

lemma rules_keep_fields_ok:
  "prompt_rule v req = Inr req' \<Longrightarrow> fields_ok lib now req \<Longrightarrow> fields_ok lib now req'"
  "agent_id_rule v req = Inr req' \<Longrightarrow> fields_ok lib now req \<Longrightarrow> fields_ok lib now req'"
  "agent_revision_rule v req = Inr req' \<Longrightarrow> fields_ok lib now req \<Longrightarrow> fields_ok lib now req'"
  "input_rule l v req = Inr req' \<Longrightarrow> fields_ok lib now req \<and> input_ref req = None \<Longrightarrow> fields_ok lib now req'"
  "input_ref_rule v req = Inr req' \<Longrightarrow> fields_ok lib now req \<Longrightarrow> fields_ok lib now req'"
  "budget_rule v req = Inr req' \<Longrightarrow> fields_ok lib now req \<Longrightarrow> fields_ok lib now req'"
  "deadline_rule lib now v req = Inr req' \<Longrightarrow> fields_ok lib now req \<Longrightarrow> fields_ok lib now req'"
  "metadata_rule l v req = Inr req' \<Longrightarrow> fields_ok lib now req \<Longrightarrow> fields_ok lib now req'"
  by (auto simp: prompt_rule_def agent_id_rule_def agent_revision_rule_def input_rule_def input_ref_rule_def
      budget_rule_def deadline_rule_def metadata_rule_def fields_ok_def and_then_Inr_iff
      dest: bounded_id_Inr parse_input_ref_Inr parse_budget_Inr parse_deadline_Inr
      split: option.splits if_splits)

lemma rules_keep_no_ref:
  "prompt_rule v req = Inr req' \<Longrightarrow> input_ref req = None \<Longrightarrow> input_ref req' = None"
  "agent_id_rule v req = Inr req' \<Longrightarrow> input_ref req = None \<Longrightarrow> input_ref req' = None"
  "agent_revision_rule v req = Inr req' \<Longrightarrow> input_ref req = None \<Longrightarrow> input_ref req' = None"
  by (auto simp: prompt_rule_def agent_id_rule_def agent_revision_rule_def and_then_Inr_iff
      split: option.splits if_splits)

lemma fields_ok_empty: "fields_ok lib now empty_request \<and> input_ref empty_request = None"
  by (simp add: fields_ok_def empty_request_def)

lemma parse_fields_ok:
  assumes "parse_fields lib now body = Inr req"
  shows "fields_ok (chrono lib) now req \<and> has_content req"
proof -
  let ?ok = "fields_ok (chrono lib) now"
  from assms obtain r1 r2 r3 r4 r5 r6 r7 where
    r: "when_present body ''prompt'' prompt_rule empty_request = Inr r1"
      "when_present body ''agent_id'' agent_id_rule r1 = Inr r2"
      "when_present body ''agent_revision'' agent_revision_rule r2 = Inr r3"
      "when_present body ''input'' (input_rule lib) r3 = Inr r4"
      "when_present body ''input_ref'' input_ref_rule r4 = Inr r5"
      "when_present body ''budget'' budget_rule r5 = Inr r6"
      "when_present body ''deadline'' (deadline_rule (chrono lib) now) r6 = Inr r7"
      "when_present body ''metadata'' (metadata_rule lib) r7 = Inr req"
    and content: "has_content req"
    unfolding parse_fields_def and_then_Inr_iff Let_def has_content_def is_blank_def
    by (auto split: if_splits option.splits)
  have 1: "?ok r1 \<and> input_ref r1 = None"
    by (rule when_present_keeps [where P = "\<lambda>q. ?ok q \<and> input_ref q = None", OF r(1) fields_ok_empty])
      (blast intro: rules_keep_fields_ok rules_keep_no_ref)
  have 2: "?ok r2 \<and> input_ref r2 = None"
    by (rule when_present_keeps [where P = "\<lambda>q. ?ok q \<and> input_ref q = None", OF r(2) 1])
      (blast intro: rules_keep_fields_ok rules_keep_no_ref)
  have 3: "?ok r3 \<and> input_ref r3 = None"
    by (rule when_present_keeps [where P = "\<lambda>q. ?ok q \<and> input_ref q = None", OF r(3) 2])
      (blast intro: rules_keep_fields_ok rules_keep_no_ref)
  have 4: "?ok r4"
    using r(4) 3 rules_keep_fields_ok(4) by (auto simp: when_present_Inr)
  have 5: "?ok r5" by (rule when_present_keeps [where P = ?ok, OF r(5) 4 rules_keep_fields_ok(5)])
  have 6: "?ok r6" by (rule when_present_keeps [where P = ?ok, OF r(6) 5 rules_keep_fields_ok(6)])
  have 7: "?ok r7" by (rule when_present_keeps [where P = ?ok, OF r(7) 6 rules_keep_fields_ok(7)])
  have "?ok req" by (rule when_present_keeps [where P = ?ok, OF r(8) 7 rules_keep_fields_ok(8)])
  with content show ?thesis by blast
qed

lemma parse_create_request_ok:
  "parse_create_request lib now raw = Inr req \<Longrightarrow> fields_ok (chrono lib) now req \<and> has_content req"
  by (auto simp: parse_create_request_def dest: parse_fields_ok split: if_splits option.splits)

end
