(* ===== verification/Route_Properties.thy ===== *)
theory Route_Properties
  imports Invocation_Routes Store_Properties
begin

text \<open>
  The properties of the invocation routes: what an accepted request looks like, what a create
  changes, retries through the handler, pages that tile a listing, who may cancel, the fingerprint,
  entity tags and event streams.
\<close>

section \<open>Pages\<close>

text \<open>A client that follows \<open>next_cursor\<close> until there is none, at most \<open>n\<close> pages.\<close>

fun follow_pages :: "nat \<Rightarrow> route_lib \<Rightarrow> user_identity \<Rightarrow> list_query \<Rightarrow> app_state \<Rightarrow> invocation list list" where
  "follow_pages 0 lib identity q st = []"
| "follow_pages (Suc n) lib identity q st =
     (case list_invocations_handler lib identity (Some q) st of
        ListResponse page _ (Some cursor) \<Rightarrow>
          page # follow_pages n lib identity (q\<lparr>query_after := Some cursor\<rparr>) st
      | ListResponse page _ None \<Rightarrow> [page]
      | _ \<Rightarrow> [])"

lemma listing_strict:
  assumes "store_ok st"
  shows "sorted_wrt (\<lambda>a b. age_key b < age_key a) (list_for_claims c wanted st)"
proof -
  let ?l = "list_for_claims c wanted st"
  have "distinct (map inv_id ?l)"
    using store_distinct [OF assms]
    by (auto simp: list_for_claims_def sort_desc_def rev_map [symmetric] distinct_map intro: inj_on_subset)
  moreover have "sorted_wrt (\<lambda>a b. age_key b \<le> age_key a) ?l"
    unfolding list_for_claims_def by (simp add: sort_desc_props)
  ultimately show ?thesis
    by (fastforce simp: sorted_wrt_iff_nth_less age_key_def nth_eq_iff_index_eq distinct_conv_nth less_le)
qed

lemma page_start_after:
  assumes "sorted_wrt (\<lambda>a b. age_key b < age_key a) xs" and "k < length xs"
  shows "page_start (Some (age_key (xs ! k))) xs = Suc k"
proof (cases "Suc k < length xs")
  case True
  have "position (\<lambda>r. age_key r < age_key (xs ! k)) xs = Some (Suc k)"
    using assms True by (intro position_SomeI) (auto simp: sorted_wrt_iff_nth_less less_Suc_eq dest: less_trans)
  then show ?thesis by (simp add: page_start_def)
next
  case False
  have "\<not> age_key r < age_key (xs ! k)" if r: "r \<in> set xs" for r
  proof -
    from r obtain j where j: "j < length xs" "r = xs ! j" by (auto simp: in_set_conv_nth)
    then have "j < k \<or> j = k" using False by auto
    then show ?thesis using assms j by (auto simp: sorted_wrt_iff_nth_less not_less intro: less_imp_le)
  qed
  then have "position (\<lambda>r. age_key r < age_key (xs ! k)) xs = None"
    by (simp add: position_None_iff)
  then show ?thesis using False assms(2) by (simp add: page_start_def)
qed

lemma follow_from:
  assumes id: "verified_scope identity = Inr c" "store_of st = Inr store"
    and ok: "store_ok store" and limit: "1 \<le> limit"
    and cursors: "\<And>p. decode_position lib (encode_position lib p) = Some p"
    and q: "parse_limit (query_limit q) = Inr limit" "parse_state_filter (query_state q) = Inr wanted"
      "parse_cursor lib (query_after q) = Inr after" "page_start after (list_for_claims c wanted store) = k"
    and n: "length (list_for_claims c wanted store) - k < n"
  shows "concat (follow_pages n lib identity q st) = map resource_view (drop k (list_for_claims c wanted store))"
  using q n
proof (induction n arbitrary: q after k)
  case 0
  then show ?case by simp
next
  case (Suc n)
  let ?l = "list_for_claims c wanted store"
  let ?page = "take limit (drop k ?l)"
  note handler = list_invocations_handler_def id and_then.simps ok_or.simps Suc.prems(1-4) list_page_def Let_def
  show ?case
  proof (cases "k + length ?page < length ?l")
    case True
    then have page: "k + limit < length ?l" "length ?page = limit" by auto
    have "last ?page = ?l ! (k + limit - 1)"
      using page limit by (subst last_conv_nth) auto
    then have start: "page_start (Some (age_key (last ?page))) ?l = k + limit"
      using page_start_after [OF listing_strict [OF ok], of "k + limit - 1" c wanted] page limit by simp
    have ne: "?page \<noteq> []" using page limit by auto
    let ?cursor = "encode_position lib (age_key (last ?page))"
    have resp: "list_invocations_handler lib identity (Some q) st = ListResponse (map resource_view ?page) True (Some ?cursor)"
      using True ne by (simp add: handler)
    have "concat (follow_pages n lib identity (q\<lparr>query_after := Some ?cursor\<rparr>) st)
        = map resource_view (drop (k + limit) ?l)"
      using Suc.prems(1,2,5) page limit start
      by (intro Suc.IH [where after = "Some (age_key (last ?page))"])
        (simp_all add: parse_cursor_def cursors)
    then show ?thesis
      by (simp add: resp) (metis append_take_drop_id drop_drop add.commute map_append)
  next
    case False
    then have "?page = drop k ?l" by (auto simp: min_def split: if_splits)
    moreover have "list_invocations_handler lib identity (Some q) st = ListResponse (map resource_view ?page) False None"
      using False by (simp add: handler)
    ultimately show ?thesis by simp
  qed
qed

text \<open>
  C13: a client that follows the cursors of a listing sees every invocation of its scope in the
  wanted state exactly once, in the order of the listing, whatever page size it asks for.
\<close>

theorem pages_tile_listing:
  assumes "verified_scope identity = Inr c" and "store_of st = Inr store" and "store_ok store"
    and "parse_limit (query_limit q) = Inr limit" and "parse_state_filter (query_state q) = Inr wanted"
    and "query_after q = None" and "\<And>p. decode_position lib (encode_position lib p) = Some p"
  shows "concat (follow_pages (Suc (length (list_for_claims c wanted store))) lib identity q st)
    = map resource_view (list_for_claims c wanted store)"
proof -
  have "1 \<le> limit"
    using assms(4) by (auto simp: parse_limit_def DEFAULT_LIST_LIMIT_def split: option.splits if_splits)
  then show ?thesis
    using follow_from [OF assms(1-3) _ assms(7,4,5), of None 0 "Suc (length (list_for_claims c wanted store))"] assms(6)
    by (simp add: parse_cursor_def page_start_def)
qed


section \<open>Create\<close>

lemma create_validated_cases:
  assumes "create_validated lib fs new_id now c body reg st = (resp, st')"
  obtains (refused) e where "resp = ErrorResponse e" and "st' = st"
  | (replayed) r where "resp = replay_response r" and "st' = st"
  | (created) store store' r new where "route_store st = Some store" and "execution_enabled st"
      and "create_idempotent_for_claims (chrono lib) fs new_id now c new store = (Inr (Created r), store')"
      and "new_idempotency new = reg"
      and "resp = ResourceResponse 202 (resource_view r) (etag r) False (location_of r)"
      and "st' = dispatch_created r (st\<lparr>route_store := Some store'\<rparr>)"
proof -
  have same: "st\<lparr>route_store := Some store\<rparr> = st" if "route_store st = Some store" for store
    using that by simp
  show thesis
  proof (cases "\<exists>e. resp = ErrorResponse e \<and> st' = st")
    case True
    then show thesis using refused by blast
  next
    case False
    with assms obtain req def store where new: "route_store st = Some store" "execution_enabled st"
      and run: "(case create_idempotent_for_claims (chrono lib) fs new_id now c
            \<lparr>new_request = req, new_agent_definition = def, new_task_iri = None, new_idempotency = reg\<rparr> store of
          (Inr (Created r), store') \<Rightarrow>
            (ResourceResponse 202 (resource_view r) (etag r) False (location_of r),
             dispatch_created r (st\<lparr>route_store := Some store'\<rparr>))
        | (Inr (Replayed r), store') \<Rightarrow> (replay_response r, st\<lparr>route_store := Some store'\<rparr>)
        | (Inl e, store') \<Rightarrow> (ErrorResponse (store_error_response e), st\<lparr>route_store := Some store'\<rparr>)) = (resp, st')"
      unfolding create_validated_def store_of_def
      by (auto split: sum.splits if_splits simp: and_then_Inr_iff)
    let ?new = "\<lparr>new_request = req, new_agent_definition = def, new_task_iri = None, new_idempotency = reg\<rparr>"
    obtain res store' where c: "create_idempotent_for_claims (chrono lib) fs new_id now c ?new store = (res, store')"
      by fastforce
    show thesis
    proof (cases "\<exists>r. res = Inr (Created r)")
      case True
      then obtain r where r: "res = Inr (Created r)" by blast
      show thesis using created [OF new c [unfolded r]] run c r by simp
    next
      case nc: False
      then have "store' = store" using create_not_Created [OF c] by blast
      then show thesis
        using run c nc same [OF new(1)] refused replayed
        by (cases res) (auto split: create_outcome.splits)
    qed
  qed
qed

lemma create_in_flight:
  "create_idempotent_for_claims lib fs i now c new (st\<lparr>in_flight := F\<rparr>)
   = (case create_idempotent_for_claims lib fs i now c new st of (res, st') \<Rightarrow> (res, st'\<lparr>in_flight := F\<rparr>))"
  by (simp add: create_idempotent_for_claims_def commit_def persist_def Let_def split: option.splits)

lemma create_keeps_in_flight:
  "create_idempotent_for_claims lib fs i now c new st = (res, st') \<Longrightarrow> in_flight st' = in_flight st"
  by (auto simp: create_idempotent_for_claims_def commit_def persist_def Let_def
      split: option.splits if_splits)

lemma dispatch_created_store [simp]: "route_store (dispatch_created r st) = route_store st"
  by (simp add: dispatch_created_def)

lemma drop_held_dispatch:
  "drop_held slot (dispatch_created r (st\<lparr>route_store := Some store\<rparr>))
     = dispatch_created r (st\<lparr>route_store := Some (drop_reservation slot store)\<rparr>)"
  by (simp add: drop_held_def dispatch_created_def)

text \<open>What a create leaves behind, with the reservation it held given back.\<close>

lemma create_handler_cases:
  assumes "create_invocation_handler lib fs new_id now identity keys body st = (resp, st')"
  obtains (refused) e where "resp = ErrorResponse e" and "st' = st"
  | (replayed) r where "resp = replay_response r" and "st' = st"
  | (created) c store r new new_store where "verified_scope identity = Inr c" and "route_store st = Some store"
      and "execution_enabled st"
      and "create_idempotent_for_claims (chrono lib) fs new_id now c new store = (Inr (Created r), new_store)"
      and "new_idempotency new = (case (parse_idempotency_key keys, request_fingerprint lib body) of
             (Inr (Some key), Some fp) \<Rightarrow> Some \<lparr>reg_key = key, reg_fingerprint = fp\<rparr> | _ \<Rightarrow> None)"
      and "resp = ResourceResponse 202 (resource_view r) (etag r) False (location_of r)"
      and "st' = dispatch_created r (st\<lparr>route_store := Some new_store\<rparr>)"
proof (cases "\<exists>e. resp = ErrorResponse e \<and> st' = st")
  case True
  then show thesis using refused by blast
next
  case False
  with assms obtain c key where c: "verified_scope identity = Inr c" and key: "parse_idempotency_key keys = Inr key"
    by (auto simp: create_invocation_handler_def split: sum.splits)
  let ?body = "\<lambda>k fp. create_validated lib fs new_id now c body (Some \<lparr>reg_key = k, reg_fingerprint = fp\<rparr>)"
  show thesis
  proof (cases "\<exists>k fp. key = Some k \<and> request_fingerprint lib body = Some fp")
    case plain: False
    then have "create_validated lib fs new_id now c body None st = (resp, st')"
      using assms c key by (auto simp: create_invocation_handler_def split: option.splits)
    then show thesis
      by (rule create_validated_cases) (use plain c key refused replayed created in \<open>auto split: option.splits\<close>)
  next
    case True
    then obtain k fp where k: "key = Some k" "request_fingerprint lib body = Some fp" by blast
    show thesis
    proof (cases "\<exists>r. resp = replay_response r \<and> st' = st")
      case True
      then show thesis using replayed by blast
    next
      case nr: False
      let ?slot = "slot_of c k"
      obtain store st2 where store: "route_store st = Some store" and free: "?slot \<notin> in_flight store"
        and run: "drop_held ?slot st2 = st'" and body: "?body k fp (st\<lparr>route_store :=
            Some (store\<lparr>in_flight := insert ?slot (in_flight store)\<rparr>)\<rparr>) = (resp, st2)"
      proof (cases "route_store st")
        case None
        then show ?thesis
          using assms c key k False by (auto simp: create_invocation_handler_def store_of_def)
      next
        case (Some store)
        have "find_idempotent_at (chrono lib) c k fp now store = Miss"
          using assms c key k False nr Some
          by (cases "find_idempotent_at (chrono lib) c k fp now store")
            (auto simp: create_invocation_handler_def store_of_def)
        then show ?thesis
          using assms c key k False Some that
          by (cases "?slot \<in> in_flight store")
            (auto simp: create_invocation_handler_def store_of_def reserve_idempotency_key_def
              split: prod.splits)
      qed
      let ?F = "insert ?slot (in_flight store)"
      have given_back: "drop_held ?slot (st\<lparr>route_store := Some (store\<lparr>in_flight := ?F\<rparr>)\<rparr>) = st"
        using store free by (simp add: drop_held_def drop_reservation_def)
      from body show thesis
      proof (cases rule: create_validated_cases)
        case (refused e)
        then show thesis using False run given_back by simp
      next
        case (replayed r)
        then have "st' = st" using run given_back by simp
        then show thesis using nr replayed(1) by blast
      next
        case (created held store' r new)
        then obtain new_store where cr: "create_idempotent_for_claims (chrono lib) fs new_id now c new store
            = (Inr (Created r), new_store)" and st': "store' = new_store\<lparr>in_flight := ?F\<rparr>"
          by (auto simp: create_in_flight split: prod.splits)
        have "drop_reservation ?slot store' = new_store"
          using create_keeps_in_flight [OF cr] free by (simp add: drop_reservation_def st')
        then have "st' = dispatch_created r (st\<lparr>route_store := Some new_store\<rparr>)"
          using run created(6) by (simp add: drop_held_dispatch)
        then show thesis
          using that(3) [OF c store _ cr] created(2,4,5) key k by simp
      qed
    qed
  qed
qed


section \<open>Retries through the handler\<close>

lemma handler_replays:
  assumes "verified_scope identity = Inr c" and "parse_idempotency_key keys = Inr (Some key)"
    and "request_fingerprint lib body = Some fp" and "route_store st = Some store"
    and "find_idempotent_at (chrono lib) c key fp now store = Replay r"
  shows "create_invocation_handler lib fs j now identity keys body st = (replay_response r, st)"
  using assms by (simp add: create_invocation_handler_def store_of_def)

text \<open>
  C11: a client that repeats an accepted create with the same key and an equivalent body gets its
  invocation back, marked as a replay, and nothing changes: not while the store was restarted,
  swept and used by others in between, not when execution has been switched off, the agent removed
  or the deadline passed since. A different body under the same key is refused as a conflict.
\<close>

theorem retried_create_replays:
  assumes "chrono_roundtrips (chrono lib)" and "try_from_vars lookup = Inr (store_config store)"
    and "reachable (chrono lib) store used" and "i \<notin> used" and "route_store st = Some store"
    and "verified_scope identity = Inr c" and "parse_idempotency_key keys = Inr (Some key)"
    and "request_fingerprint lib body = Some fp"
    and "create_invocation_handler lib fs i t0 identity keys body st = (ResourceResponse 202 v t False l, st1)"
    and "route_store st1 = Some store1" and "route_store st2 = Some (run_ops (chrono lib) ops store1)"
    and "\<forall>(f, op) \<in> set ops. op_config (store_config store) op = store_config store
      \<and> (\<forall>t \<in> set (op_times op). t0 \<le> t \<and> t < expiry (store_config store) t0)"
    and "distinct (op_ids ops)" and "set (op_ids ops) \<inter> insert i used = {}"
    and "now < expiry (store_config store) t0"
    and "verified_scope identity' = Inr c" and "parse_idempotency_key keys' = Inr (Some key)"
    and "request_fingerprint lib body' = Some fp'"
  shows "\<exists>r. inv_id r = i \<and> create_invocation_handler lib fs' j now identity' keys' body' st2
    = (if fp' = fp then replay_response r else ErrorResponse (store_error_response IdempotencyKeyConflict), st2)"
proof -
  let ?lib = "chrono lib" and ?cfg = "store_config store"
  from assms(9) obtain new r where cr: "create_idempotent_for_claims ?lib fs i t0 c new store = (Inr (Created r), store1)"
    and new: "new_idempotency new = Some \<lparr>reg_key = key, reg_fingerprint = fp\<rparr>"
    by (cases rule: create_handler_cases) (use assms(5-8,10) in \<open>auto simp: replay_response_def\<close>)
  have run: "store1 = run_op ?lib fs (CreateOp t0 i c new) store" using cr by simp
  have "store_step ?lib (store, used) (store1, used \<union> set_option (op_id (CreateOp t0 i c new)))"
    unfolding run using assms(4) by (intro store_step.step) simp
  then have "store_ok store1" "inv_id ` set (records store1) \<subseteq> insert i used"
    using store_step_inv reachable_inv [OF assms(3)] by fastforce+
  moreover note h = created_holds_binding [OF cr new]
  moreover have "config_ok ?cfg" by (rule try_from_vars_ok [OF assms(2)])
  ultimately have "holds_binding ?lib ?cfg t0 c key fp i (run_ops ?lib ops store1) \<and> store_ok (run_ops ?lib ops store1)"
    using run_ops_keeps_binding [OF assms(1), of store1 ops t0 "insert i used" c key fp i] assms(12-14) by simp
  then obtain q where "inv_id q = i" and "find_idempotent_at ?lib c key fp' now (run_ops ?lib ops store1)
      = (if fp' = fp then Replay q else Conflict)"
    using holds_binding_lookup [OF assms(1) _ _ assms(15)] by blast
  then show ?thesis
    using assms(11,16-18) by (auto simp: create_invocation_handler_def store_of_def)
qed

section \<open>Requests, fingerprints and entity tags\<close>


text \<open>
  The fingerprint of a body depends only on the document: two bodies that differ in layout or
  in the order of the members of their objects have the same fingerprint.
\<close>

theorem fingerprint_of_document:
  assumes "parse_json lib raw = Some v" and "parse_json lib raw' = Some w" and "same_document v w"
    and "length raw \<le> MAX_CREATE_BODY_BYTES" and "length raw' \<le> MAX_CREATE_BODY_BYTES"
  shows "request_fingerprint lib raw = request_fingerprint lib raw'"
  using assms canonical_same_document [OF assms(3), of "show_scalar_json lib"]
  by (simp add: request_fingerprint_def)

text \<open>
  An entity tag that a client sends back as \<open>If-Match\<close> names the revision of the record it was
  given.
\<close>

theorem etag_roundtrip: "parse_if_match [etag r] = Inr (Some (revision r))"
  by (simp add: etag_def parse_if_match_etag)


section \<open>Cancelling\<close>

text \<open>Transition requests of other handlers, run one after the other.\<close>

definition others :: "chrono_lib \<Rightarrow> transition_request list \<Rightarrow> invocation_store \<Rightarrow> invocation_store" where
  "others lib qs st = fold (\<lambda>q s. snd (run_transition lib q s)) qs st"

lemma run_transition_step:
  assumes "store_ok st" and "lookup_invocation c i st = Some r"
  shows "store_ok (snd (run_transition lib q st))
    \<and> (\<exists>r'. lookup_invocation c i (snd (run_transition lib q st)) = Some r' \<and> inv_actor_id r' = inv_actor_id r
         \<and> (r' = r \<or> (\<exists>e. permits_with (state r) (req_target q) e \<and> state r' = req_target q)))"
proof -
  obtain res st' where m: "run_transition lib q st = (res, st')" by fastforce
  note ok = store_ok_run_transition [OF assms(1) m]
  note d = lookup_member [OF store_distinct [OF assms(1)]] and d' = lookup_member [OF store_distinct [OF ok]]
  have r: "r \<in> set (records st)" "inv_id r = i" "is_in_scope r c" using assms(2) by (simp_all add: d)
  show ?thesis
  proof (cases "\<exists>out. res = Inr out \<and> changed out")
    case True
    then obtain out where out: "res = Inr out" "changed out" by blast
    from transition_lookup [OF assms(1) m [unfolded out(1)] out(2)] obtain r0 where
      r0: "r0 \<in> set (records st)" "inv_id r0 = req_id q"
      and p: "permits_with (state r0) (req_target q) (patch_error (req_patch q))"
      and o: "outcome_invocation out = apply_transition lib (req_now q) (req_claims q) (req_target q) (req_patch q) r0"
      and st': "\<forall>z. z \<in> set (records st') \<longleftrightarrow> z = outcome_invocation out
        \<or> (z \<in> set (records st) \<and> inv_id z \<noteq> req_id q)" by (auto simp: d)
    show ?thesis
    proof (cases "i = req_id q")
      case True
      then have "r0 = r" using r r0 store_distinct [OF assms(1)] by (simp add: distinct_map inj_on_def)
      then show ?thesis using o p r st' ok m True
        by (intro conjI exI [of _ "outcome_invocation out"] disjI2 exI [of _ "patch_error (req_patch q)"])
          (simp_all add: d')
    next
      case False
      then show ?thesis using r st' ok m by (intro conjI exI [of _ r]) (simp_all add: d')
    qed
  next
    case False
    then have "st' = st" using m transition_no_change unfolding run_transition_def by blast
    then show ?thesis using assms m by simp
  qed
qed

lemma run_transition_keeps:
  assumes "store_ok st" and "lookup_invocation c i st = Some r"
  shows "store_ok (snd (run_transition lib q st))
    \<and> (\<exists>r'. lookup_invocation c i (snd (run_transition lib q st)) = Some r' \<and> inv_actor_id r' = inv_actor_id r)"
  using run_transition_step [OF assms] by blast

lemma others_keep:
  "store_ok st \<Longrightarrow> lookup_invocation c i st = Some r \<Longrightarrow> store_ok (others lib qs st)
    \<and> (\<exists>r'. lookup_invocation c i (others lib qs st) = Some r' \<and> inv_actor_id r' = inv_actor_id r)"
proof (induction qs arbitrary: st r)
  case Nil
  then show ?case by (simp add: others_def)
next
  case (Cons q qs)
  from run_transition_keeps [OF Cons.prems] obtain r' where
    "store_ok (snd (run_transition lib q st))" "inv_actor_id r' = inv_actor_id r"
    "lookup_invocation c i (snd (run_transition lib q st)) = Some r'" by blast
  from Cons.IH [OF this(1,3)] this(2) show ?case by (simp add: others_def)
qed

lemma get_lookup: "get_for_claims c i st = Inr r \<longleftrightarrow> lookup_invocation c i st = Some r"
  by (simp add: get_for_claims_def lookup_invocation_def)

lemma transition_result:
  assumes "store_ok st" and "transition_outcome_for_claims lib fs now c i expected t patch st = (Inr out, st')"
  shows "lookup_invocation c i st' = Some (outcome_invocation out) \<and> state (outcome_invocation out) = t"
  using repo.move_get [of st lib "\<lparr>req_fs = fs, req_now = now, req_claims = c, req_id = i, req_expected = expected,
     req_target = t, req_patch = patch\<rparr>" out st'] assms
  by (simp add: run_transition_def)

lemma transition_keeps:
  assumes "store_ok st" and "transition_outcome_for_claims lib fs now c i expected t patch st = (res, st')"
    and "lookup_invocation c i st = Some r"
  shows "store_ok st' \<and> (\<exists>r'. lookup_invocation c i st' = Some r' \<and> inv_actor_id r' = inv_actor_id r)"
  using run_transition_keeps [OF assms(1,3), of lib "\<lparr>req_fs = fs, req_now = now, req_claims = c, req_id = i,
     req_expected = expected, req_target = t, req_patch = patch\<rparr>"] assms(2)
  by (simp add: run_transition_def)

text \<open>One attempt: either it answers, and then as it should, or the store is as good as before.\<close>

definition cancel_answer ::
  "isolation_claims \<Rightarrow> string \<Rightarrow> user_identity \<Rightarrow> string \<Rightarrow> app_state \<Rightarrow> response \<times> app_state \<Rightarrow> bool" where
  "cancel_answer c actor identity i st ans \<longleftrightarrow>
     (case fst ans of
        ResourceResponse status v t _ _ \<Rightarrow>
          (actor = actor_id c \<or> has_role ''DA'' identity)
          \<and> (\<exists>store r. route_store (snd ans) = Some store \<and> lookup_invocation c i store = Some r
               \<and> v = resource_view r \<and> t = etag r \<and> inv_actor_id r = actor
               \<and> (status, state r) \<in> {(200, Cancelled), (202, CancelRequested)})
          \<and> (\<forall>tok. tokens (cancellations st) i = Some tok \<longrightarrow> tok \<in> fired (cancellations (snd ans)))
      | ErrorResponse _ \<Rightarrow> cancellations (snd ans) = cancellations st
      | ListResponse _ _ _ \<Rightarrow> False)"

lemma cancel_attempt_answer:
  assumes ok: "store_ok store" and r: "lookup_invocation c i store = Some r"
    and a: "cancel_attempt lib fs now identity c i expected retry (others lib qs) store st = (ans, store')"
  shows "case ans of
      Some x \<Rightarrow> cancel_answer c (inv_actor_id r) identity i st x
    | None \<Rightarrow> retry \<and> store_ok store' \<and> (\<exists>r'. lookup_invocation c i store' = Some r' \<and> inv_actor_id r' = inv_actor_id r)"
proof -
  from others_keep [OF ok r] obtain r1 where
    o: "store_ok (others lib qs store)" "lookup_invocation c i (others lib qs store) = Some r1"
    and actor: "inv_actor_id r1 = inv_actor_id r" by blast
  have get: "get_for_claims c i store = Inr r" by (simp add: get_lookup r)
  consider (forbidden) "inv_actor_id r \<noteq> actor_id c \<and> \<not> has_role ''DA'' identity"
    | (final) "cancel_target (state r) = None"
    | (go) target where "inv_actor_id r = actor_id c \<or> has_role ''DA'' identity" "cancel_target (state r) = Some target"
    by fastforce
  then show ?thesis
  proof cases
    case forbidden
    then show ?thesis using a by (auto simp: cancel_attempt_def get cancel_answer_def)
  next
    case final
    then show ?thesis using a by (auto simp: cancel_attempt_def get cancel_answer_def split: if_splits)
  next
    case go
    have target: "target \<in> {Cancelled, CancelRequested}"
      using go(2) by (cases "state r") auto
    obtain res store2 where t: "transition_outcome_for_claims lib fs now c i expected target no_patch (others lib qs store)
        = (res, store2)" by fastforce
    from transition_keeps [OF o(1) t o(2)] obtain r2 where
      k: "store_ok store2" "lookup_invocation c i store2 = Some r2" "inv_actor_id r2 = inv_actor_id r"
      using actor by auto
    show ?thesis
    proof (cases res)
      case (Inr out)
      note res = transition_result [OF o(1) t [unfolded Inr]]
      then have r2: "r2 = outcome_invocation out" using k(2) by simp
      let ?reg = "snd (cancel_token i (cancellations st))"
      have fires: "tokens (cancellations st) i = Some tok \<Longrightarrow> tok \<in> fired ?reg" for tok
        by (simp add: cancel_token_def)
      have "ans = Some (resource_response (if state r2 = Cancelled then 200 else 202) r2,
          st\<lparr>route_store := Some store2, cancellations := if is_terminal (state r2) then remove_token i ?reg else ?reg\<rparr>)"
        using a go by (auto simp: cancel_attempt_def get t Inr Let_def r2)
      then show ?thesis
        using go(1) k(2,3) res target fires r2
        by (auto simp: cancel_answer_def resource_response_def remove_token_def)
    next
      case (Inl e)
      then show ?thesis
        using a go k by (auto simp: cancel_attempt_def get t cancel_answer_def split: if_splits)
    qed
  qed
qed

text \<open>
  Only the actor that created an invocation, or a caller with the DA role, is ever told that it
  is cancelled, whatever other handlers did between the reads and the writes. The answer is the
  stored record, 200 exactly when it is cancelled and 202 when the cancel is requested, and the
  token of a running execution has been fired. A refusal fires no token.
\<close>

theorem cancel_authorised:
  assumes "store_ok store" and "route_store st = Some store" and "verified_scope identity = Inr c"
    and "lookup_invocation c i store = Some r"
    and "cancel_invocation_handler lib fs now identity i if_match (others lib qs) (others lib qs') st = ans"
  shows "cancel_answer c (inv_actor_id r) identity i st ans"
proof (cases "parse_if_match if_match")
  case (Inl e)
  then show ?thesis using assms(3,5) by (auto simp: cancel_invocation_handler_def cancel_answer_def)
next
  case (Inr expected)
  obtain a1 store1 where a1: "cancel_attempt lib fs now identity c i expected True (others lib qs) store st = (a1, store1)"
    by fastforce
  note first = cancel_attempt_answer [OF assms(1,4) a1]
  show ?thesis
  proof (cases a1)
    case (Some x)
    then show ?thesis
      using first assms(2,3,5) Inr a1 by (auto simp: cancel_invocation_handler_def store_of_def)
  next
    case None
    with first obtain r1 where r1: "store_ok store1" "lookup_invocation c i store1 = Some r1"
      "inv_actor_id r1 = inv_actor_id r" by auto
    obtain a2 store2 where a2: "cancel_attempt lib fs now identity c i expected False (others lib qs') store1 st = (a2, store2)"
      by fastforce
    note second = cancel_attempt_answer [OF r1(1,2) a2]
    then obtain x where "a2 = Some x" by (cases a2) auto
    then show ?thesis
      using second assms(2,3,5) Inr a1 a2 None r1(3)
      by (auto simp: cancel_invocation_handler_def store_of_def)
  qed
qed


section \<open>Event streams\<close>

fun is_payload :: "sse_event \<Rightarrow> bool" where
  "is_payload (ResultEvent _ _ _ _) = True"
| "is_payload (ErrorEvent _ _ _ _ _) = True"
| "is_payload _ = False"

text \<open>The events carry the numbers from \<open>n\<close> on as the last part of their identifiers.\<close>

fun numbered :: "nat \<Rightarrow> sse_event list \<Rightarrow> bool" where
  "numbered n [] = True"
| "numbered n (e # es) = ((\<exists>k. event_id e = show_nat k @ CHR ''.'' # show_nat n) \<and> numbered (Suc n) es)"

lemma numbered_append: "numbered n (es @ fs) \<longleftrightarrow> numbered n es \<and> numbered (n + length es) fs"
  by (induction es arbitrary: n) auto

lemma show_nat_inject [simp]: "show_nat a = show_nat b \<longleftrightarrow> a = b"
  by (metis dec_value_show_nat)

lemma no_dot: "CHR ''.'' \<notin> set (show_nat k)"
  using show_nat_digits [of k] by (auto simp: list_all_iff is_ascii_digit_def)

lemma numbered_later: "numbered n es \<Longrightarrow> m < n \<Longrightarrow> show_nat k @ CHR ''.'' # show_nat m \<notin> event_id ` set es"
proof (induction es arbitrary: n)
  case Nil
  then show ?case by simp
next
  case (Cons e es)
  from Cons.prems obtain k' where e: "event_id e = show_nat k' @ CHR ''.'' # show_nat n" by auto
  have "event_id e \<noteq> show_nat k @ CHR ''.'' # show_nat m"
  proof
    assume "event_id e = show_nat k @ CHR ''.'' # show_nat m"
    then have "show_nat n = show_nat m"
      using append_sep_inject [OF no_dot no_dot, of k' "show_nat n" k "show_nat m"] e by simp
    then show False using Cons.prems(2) by simp
  qed
  then show ?case using Cons.IH [of "Suc n"] Cons.prems by auto
qed

lemma numbered_distinct: "numbered n es \<Longrightarrow> distinct (map event_id es)"
proof (induction es arbitrary: n)
  case Nil
  then show ?case by simp
next
  case (Cons e es)
  then obtain k where "event_id e = show_nat k @ CHR ''.'' # show_nat n" by auto
  then show ?case using Cons numbered_later [of "Suc n" es n k] by simp
qed

text \<open>A payload is the last event, and a stream that is closed says nothing more.\<close>

definition emits_well :: "sse_event list \<Rightarrow> sse_state \<Rightarrow> bool" where
  "emits_well es s \<longleftrightarrow> (\<forall>e \<in> set (butlast es). \<not> is_payload e)
     \<and> (es \<noteq> [] \<longrightarrow> is_payload (last es) \<longrightarrow> \<not> sse_open s)
     \<and> (sse_open s \<longrightarrow> \<not> is_terminal (sse_last_state s))"

definition advances :: "sse_state \<Rightarrow> sse_event list \<Rightarrow> sse_state \<Rightarrow> bool" where
  "advances s es s' \<longleftrightarrow> numbered (unat (sse_seq s)) es \<and> unat (sse_seq s') = unat (sse_seq s) + length es
     \<and> length es \<le> 2"

lemma unat_next: "unat (x :: u64) + 1 < 2 ^ 64 \<Longrightarrow> unat (saturating_add x 1) = unat x + 1"
  by (simp add: unat_saturating_add)

lemmas sse_defs = sse_state_event_def sse_terminal_payload_def sse_event_id_def Let_def

lemma sse_step_advances:
  assumes "sse_step x s = (es, s')" and "unat (sse_seq s) + 2 < 2 ^ 64"
  shows "advances s es s'"
  using assms
  by (auto simp: sse_step_def advances_def sse_defs unat_next
      split: if_splits sse_input.splits option.splits sum.splits invocation_state.splits)

lemma sse_step_emits:
  assumes "sse_step x s = (es, s')" and "sse_open s \<longrightarrow> \<not> is_terminal (sse_last_state s)"
  shows "emits_well es s' \<and> (\<not> sse_open s \<longrightarrow> es = [] \<and> s' = s)"
  using assms
  by (auto simp: sse_step_def emits_well_def sse_defs
      split: if_splits sse_input.splits option.splits sum.splits invocation_state.splits)



lemma emits_well_append:
  assumes "emits_well es s" and "sse_open s \<longrightarrow> emits_well fs s'" and "\<not> sse_open s \<longrightarrow> fs = [] \<and> s' = s"
  shows "emits_well (es @ fs) s'"
proof (cases "fs = [] \<or> \<not> sse_open s")
  case True
  then show ?thesis using assms by (auto simp: emits_well_def)
next
  case False
  then have "emits_well fs s'" and "\<forall>e \<in> set (butlast es). \<not> is_payload e"
    and "es \<noteq> [] \<Longrightarrow> \<not> is_payload (last es)" using assms(1,2) by (auto simp: emits_well_def)
  moreover from this(2,3) have "\<forall>e \<in> set es. \<not> is_payload e"
    by (cases es rule: rev_cases) auto
  ultimately show ?thesis using False by (auto simp: emits_well_def butlast_append)
qed

lemma sse_run_well:
  assumes "sse_run xs s = (es, s')" and "unat (sse_seq s) + 2 * length xs < 2 ^ 64"
    and "sse_open s \<longrightarrow> \<not> is_terminal (sse_last_state s)"
  shows "numbered (unat (sse_seq s)) es \<and> emits_well es s' \<and> (\<not> sse_open s \<longrightarrow> es = [] \<and> s' = s)"
  using assms
proof (induction xs arbitrary: s es)
  case Nil
  then show ?case by (simp add: emits_well_def)
next
  case (Cons x xs)
  from Cons.prems(1) obtain fs t gs where x: "sse_step x s = (fs, t)" and xs: "sse_run xs t = (gs, s')" "es = fs @ gs"
    by (auto split: prod.splits)
  have "unat (sse_seq s) + 2 < 2 ^ 64" using Cons.prems(2) by simp
  note a = sse_step_advances [OF x this] and e = sse_step_emits [OF x Cons.prems(3)]
  have "unat (sse_seq t) + 2 * length xs < 2 ^ 64"
    using a Cons.prems(2) by (simp add: advances_def)
  moreover have "sse_open t \<longrightarrow> \<not> is_terminal (sse_last_state t)" using e by (simp add: emits_well_def)
  ultimately have ih: "numbered (unat (sse_seq t)) gs \<and> emits_well gs s' \<and> (\<not> sse_open t \<longrightarrow> gs = [] \<and> s' = t)"
    using Cons.IH [OF xs(1)] by blast
  have "emits_well (fs @ gs) s'"
    by (rule emits_well_append [of fs t]) (use e ih in blast)+
  then show ?case
    using a e ih xs(2) by (auto simp: advances_def numbered_append)
qed

lemma sse_closed_stays: "\<not> sse_open s \<Longrightarrow> sse_run xs s = ([], s)"
  by (induction xs) (simp_all add: sse_step_def)

lemma sse_terminal_poll:
  "sse_open s \<longrightarrow> \<not> is_terminal (sse_last_state s) \<Longrightarrow> is_terminal (state q)
   \<Longrightarrow> \<not> sse_open (snd (sse_step (Poll (Inr q)) s))"
  by (auto simp: sse_step_def sse_defs split: invocation_state.splits)

lemma sse_run_closes:
  assumes "sse_open s \<longrightarrow> \<not> is_terminal (sse_last_state s)"
    and "Poll (Inr q) \<in> set xs" and "is_terminal (state q)"
  shows "\<not> sse_open (snd (sse_run xs s))"
  using assms(1,2)
proof (induction xs arbitrary: s)
  case Nil
  then show ?case by simp
next
  case (Cons x xs)
  obtain es t where x: "sse_step x s = (es, t)" by fastforce
  have t: "sse_open t \<longrightarrow> \<not> is_terminal (sse_last_state t)"
    using sse_step_emits [OF x Cons.prems(1)] by (simp add: emits_well_def)
  show ?case
  proof (cases "x = Poll (Inr q)")
    case True
    then have "\<not> sse_open t" using sse_terminal_poll [OF Cons.prems(1) assms(3)] x by simp
    then show ?thesis using x by (simp add: sse_closed_stays)
  next
    case False
    then show ?thesis using Cons.IH [OF t] Cons.prems(2) x by (auto split: prod.splits)
  qed
qed

text \<open>
  The event stream of an invocation starts with a snapshot of it, all its event identifiers are
  distinct, at most one result or error is sent and it is the last event, nothing follows the end of
  the stream, and a poll that sees a final state ends it.
\<close>

theorem event_stream_well_formed:
  assumes "sse_start r = (es, s)" and "sse_run xs s = (fs, s')" and "2 * length xs + 2 < 2 ^ 64"
  shows "(\<exists>i rest. es @ fs = StateEvent i (revision r) (updated_at r) (state r) None (Some (resource_view r)) # rest)
    \<and> distinct (map event_id (es @ fs))
    \<and> (\<forall>e \<in> set (butlast (es @ fs)). \<not> is_payload e)
    \<and> (is_terminal (state r) \<or> (\<exists>q. Poll (Inr q) \<in> set xs \<and> is_terminal (state q)) \<longrightarrow> \<not> sse_open s')"
proof -
  have head: "\<exists>i rest. es = StateEvent i (revision r) (updated_at r) (state r) None (Some (resource_view r)) # rest"
    using assms(1) by (auto simp: sse_start_def sse_defs split: if_splits option.splits prod.splits)
  have start: "numbered 0 es \<and> unat (sse_seq s) = length es \<and> length es \<le> 2 \<and> emits_well es s
      \<and> (sse_open s \<longrightarrow> \<not> is_terminal (sse_last_state s)) \<and> (is_terminal (state r) \<longrightarrow> \<not> sse_open s)"
    using assms(1)
    by (auto simp: sse_start_def sse_defs emits_well_def saturating_add_def
        split: if_splits invocation_state.splits)
  then have run: "numbered (unat (sse_seq s)) fs \<and> emits_well fs s' \<and> (\<not> sse_open s \<longrightarrow> fs = [] \<and> s' = s)"
    using sse_run_well [OF assms(2)] assms(3) by simp
  have "numbered 0 (es @ fs)" using start run by (simp add: numbered_append)
  then have "distinct (map event_id (es @ fs))" by (rule numbered_distinct)
  moreover have "emits_well (es @ fs) s'"
    by (rule emits_well_append [of es s]) (use start run in blast)+
  moreover have "\<not> sse_open s'" if "Poll (Inr q) \<in> set xs" "is_terminal (state q)" for q
    using sse_run_closes [OF _ that, of s] start assms(2) by simp
  ultimately show ?thesis
    using head start run by (auto simp: emits_well_def)
qed

section \<open>Concrete requests\<close>

text \<open>A library: every body is the same document, and cursors tag each character with its side.\<close>

fun sample_decode :: "string \<Rightarrow> string \<times> string" where
  "sample_decode (t # c # s) =
     (case sample_decode s of (a, b) \<Rightarrow> if t = CHR ''a'' then (c # a, b) else (a, c # b))"
| "sample_decode _ = ([], [])"

definition sample_encode :: "string \<times> string \<Rightarrow> string" where
  "sample_encode p = concat (map (\<lambda>c. [CHR ''a'', c]) (fst p)) @ concat (map (\<lambda>c. [CHR ''b'', c]) (snd p))"

lemma sample_decode_b: "sample_decode (concat (map (\<lambda>c. [CHR ''b'', c]) b)) = ([], b)"
  by (induction b) auto

lemma sample_cursor: "sample_decode (sample_encode p) = p"
proof -
  have "sample_decode (concat (map (\<lambda>c. [CHR ''a'', c]) a) @ concat (map (\<lambda>c. [CHR ''b'', c]) b)) = (a, b)" for a b
    by (induction a) (auto simp: sample_decode_b)
  then show ?thesis by (cases p) (simp add: sample_encode_def)
qed

definition sample_body :: json where
  "sample_body = JObject [(''prompt'', JString ''go'')]"

definition sample_lib :: route_lib where
  "sample_lib = \<lparr>chrono = sample_chrono,
     parse_json = (\<lambda>s. if s = ''b'' then Some (JObject [(''a'', JNull), (''b'', JNull)])
                       else if s = ''c'' then Some (JObject [(''b'', JNull), (''a'', JNull)]) else Some sample_body),
     compact_json = (\<lambda>_. []), show_scalar_json = (\<lambda>_. ''x''), digest_hex = (\<lambda>s. s),
     encode_position = sample_encode, decode_position = (\<lambda>s. Some (sample_decode s)),
     decode_definition = (\<lambda>_. None)\<rparr>"

definition sample_identity :: user_identity where
  "sample_identity = \<lparr>user_id = ''a1'', identity_tenant_id = ''t1'', roles = [], auth_method_of = Jwt,
     isolation_claims_of = Some sample_claims\<rparr>"

definition sample_app :: "invocation_store \<Rightarrow> app_state" where
  "sample_app store = \<lparr>route_store = Some store, execution_enabled = True, has_dispatcher = True, dispatched = [],
     cancellations = \<lparr>tokens = Map.empty, fired = {}, next_token = 0\<rparr>, input_refs = new_registry,
     user_agents = []\<rparr>"

lemma sample_scope: "verified_scope sample_identity = Inr sample_claims"
  by (simp add: verified_scope_def sample_identity_def sample_claims_def)

lemma sample_app_store: "store_of (sample_app store) = Inr store" "route_store (sample_app store) = Some store"
  by (simp_all add: store_of_def sample_app_def)

lemma sample_lib_chrono [simp]: "chrono sample_lib = sample_chrono"
  by (simp add: sample_lib_def)

lemma sample_key: "parse_idempotency_key [''k''] = Inr (Some ''k'')"
  by (simp add: parse_idempotency_key_def is_visible_ascii_def MAX_IDEMPOTENCY_KEY_BYTES_def)

lemma trim_go: "trim ''go'' = ''go''"
  using trim_visible [of "CHR ''g''" "CHR ''o''" "[]"] by (simp add: is_visible_ascii_def)

lemma sample_parse_request: "parse_create_request sample_lib now ''{}'' = Inr sample_request"
  by (simp add: parse_create_request_def MAX_CREATE_BODY_BYTES_def sample_lib_def sample_body_def FORBIDDEN_FIELDS_def
      CREATE_FIELDS_def parse_fields_def when_present_def optional_def prompt_rule_def empty_request_def Let_def
      trim_go sample_request_def)

definition sample_print :: string where
  "sample_print = write_canonical_json (\<lambda>_. ''x'') sample_body"

lemma sample_fingerprint: "request_fingerprint sample_lib ''{}'' = Some sample_print"
  by (simp add: request_fingerprint_def sample_lib_def MAX_CREATE_BODY_BYTES_def sample_print_def)

definition sample_keyed :: new_invocation where
  "sample_keyed = \<lparr>new_request = sample_request, new_agent_definition = None, new_task_iri = None,
     new_idempotency = Some \<lparr>reg_key = ''k'', reg_fingerprint = sample_print\<rparr>\<rparr>"

definition sample_accepted :: invocation where
  "sample_accepted = fresh_record sample_chrono default_config ''i1'' 0 sample_claims sample_keyed"

definition sample_after :: invocation_store where
  "sample_after = sample_empty\<lparr>disk := Some [sample_accepted], records := [sample_accepted]\<rparr>"

lemma sample_create_handler:
  "create_invocation_handler sample_lib no_fault ''i1'' 0 sample_identity [''k''] ''{}'' (sample_app sample_empty)
   = (ResourceResponse 202 (resource_view sample_accepted) (etag sample_accepted) False (location_of sample_accepted),
      (sample_app sample_after)\<lparr>dispatched := [sample_accepted]\<rparr>)"
proof -
  let ?held = "sample_empty\<lparr>in_flight := {slot_of sample_claims ''k''}\<rparr>"
  have "create_idempotent_for_claims sample_chrono no_fault ''i1'' 0 sample_claims sample_keyed ?held
      = (Inr (Created sample_accepted), sample_after\<lparr>in_flight := {slot_of sample_claims ''k''}\<rparr>)"
    by (simp add: create_idempotent_for_claims_def sample_empty_def sample_keyed_def bound_record_def
        sweep_expired_records_def drop_expired_bindings_def Let_def commit_def persist_def no_fault_def
        sample_after_def sample_accepted_def default_config_def MAX_STORED_INVOCATIONS_def)
  then have "create_validated sample_lib no_fault ''i1'' 0 sample_claims ''{}''
      (Some \<lparr>reg_key = ''k'', reg_fingerprint = sample_print\<rparr>) (sample_app ?held)
    = (ResourceResponse 202 (resource_view sample_accepted) (etag sample_accepted) False (location_of sample_accepted),
       (sample_app (sample_after\<lparr>in_flight := {slot_of sample_claims ''k''}\<rparr>))\<lparr>dispatched := [sample_accepted]\<rparr>)"
    by (simp add: create_validated_def sample_parse_request sample_request_def [symmetric] resolve_agent_def
        sample_app_def store_of_def sample_keyed_def dispatch_created_def)
      (simp add: sample_request_def store_of_def dispatch_created_def)
  then show ?thesis
    by (simp add: create_invocation_handler_def sample_scope sample_key sample_fingerprint store_of_def
        find_idempotent_at_def reserve_idempotency_key_def sample_empty_def drop_held_def drop_reservation_def
        sample_app_def sample_after_def)
qed



theorem retried_create_replays_witness:
  "\<exists>r. inv_id r = ''i1'' \<and> create_invocation_handler sample_lib no_fault ''i2'' 2000 sample_identity [''k''] ''{}''
      ((sample_app (run_ops sample_chrono [(no_fault, SweepOp 1000)] sample_after))\<lparr>execution_enabled := False\<rparr>)
    = (replay_response r, (sample_app (run_ops sample_chrono [(no_fault, SweepOp 1000)] sample_after))
         \<lparr>execution_enabled := False\<rparr>)"
proof -
  have "reachable sample_chrono sample_empty {}"
    by (rule reachable.opened [where fs = no_fault and now = 0 and started = 0 and cfg = default_config])
      (simp add: open_missing sample_empty_def)
  moreover have "store_config sample_empty = default_config" by (simp add: sample_empty_def)
  ultimately show ?thesis
    using retried_create_replays [where lookup = "\<lambda>_. None" and lib = sample_lib and store = sample_empty and used = "{}"
        and i = "''i1''" and key = "''k''" and fp = sample_print and fp' = sample_print and ops = "[(no_fault, SweepOp 1000)]"
        and ?store1.0 = sample_after and now = 2000 and body' = "''{}''" and keys' = "[''k'']"
        and identity' = sample_identity and fs' = no_fault and j = "''i2''"
        and ?st2.0 = "(sample_app (run_ops sample_chrono [(no_fault, SweepOp 1000)] sample_after))\<lparr>execution_enabled := False\<rparr>",
        OF _ _ _ _ sample_app_store(2) sample_scope sample_key sample_fingerprint sample_create_handler]
    by (simp add: sample_chrono_roundtrips sample_config expiry_def micros_def sample_ttl sample_scope sample_key
        sample_fingerprint sample_app_def del: run_ops.simps)
qed


theorem fingerprint_of_document_witness:
  "request_fingerprint sample_lib ''b'' = request_fingerprint sample_lib ''c''"
  by (rule fingerprint_of_document [where v = "JObject [(''a'', JNull), (''b'', JNull)]"
        and w = "JObject [(''b'', JNull), (''a'', JNull)]"])
    (simp_all add: sample_lib_def same_document.same_order add_mset_commute MAX_CREATE_BODY_BYTES_def)

lemma sample_after_ok: "store_ok sample_after"
proof -
  have "store_ok sample_empty" by (simp add: sample_empty_def store_ok_empty)
  moreover have "create_idempotent_for_claims sample_chrono no_fault ''i1'' 0 sample_claims sample_keyed sample_empty
      = (Inr (Created sample_accepted), sample_after)"
    by (simp add: create_idempotent_for_claims_def sample_empty_def sample_keyed_def bound_record_def
        sweep_expired_records_def drop_expired_bindings_def Let_def commit_def persist_def no_fault_def
        sample_after_def sample_accepted_def default_config_def MAX_STORED_INVOCATIONS_def)
  ultimately show ?thesis
    using store_ok_create by (force simp: sample_empty_def)
qed

theorem pages_tile_listing_witness:
  "concat (follow_pages 2 sample_lib sample_identity \<lparr>query_limit = None, query_after = None, query_state = None\<rparr>
     (sample_app sample_after)) = [resource_view sample_accepted]"
proof -
  have l: "list_for_claims sample_claims None sample_after = [sample_accepted]"
    by (simp add: list_for_claims_def sample_after_def sample_empty_def sample_accepted_def sort_desc_def is_in_scope_def)
  show ?thesis
    using pages_tile_listing [OF sample_scope sample_app_store(1) sample_after_ok,
        of "\<lparr>query_limit = None, query_after = None, query_state = None\<rparr>" DEFAULT_LIST_LIMIT None sample_lib]
    by (simp add: l parse_limit_def parse_state_filter_def sample_cursor sample_lib_def numeral_2_eq_2
        del: follow_pages.simps)
qed

theorem cancel_authorised_witness:
  "cancel_answer sample_claims ''a1'' sample_identity ''i1'' (sample_app sample_after)
     (cancel_invocation_handler sample_chrono no_fault 0 sample_identity ''i1'' [] (others sample_chrono [])
        (others sample_chrono []) (sample_app sample_after))"
proof -
  have "lookup_invocation sample_claims ''i1'' sample_after = Some sample_accepted"
    by (simp add: lookup_invocation_def sample_after_def sample_empty_def sample_accepted_def is_in_scope_def)
  from cancel_authorised [OF sample_after_ok sample_app_store(2) sample_scope this refl]
  show ?thesis by (simp add: sample_accepted_def sample_claims_def)
qed

theorem event_stream_well_formed_witness:
  "\<not> sse_open (snd (sse_run [Poll (Inr (sample_accepted\<lparr>state := Cancelled, revision := 2\<rparr>))]
      (snd (sse_start sample_accepted))))"
  using event_stream_well_formed [OF surjective_pairing surjective_pairing,
      of "[Poll (Inr (sample_accepted\<lparr>state := Cancelled, revision := 2\<rparr>))]" sample_accepted]
  by (auto simp del: sse_run.simps)

end
