(* ===== verification/Running_Slots.thy ===== *)
theory Running_Slots
  imports Invocation_Record
begin

text \<open>
  Admission control for running invocations (\<open>src/api/http/invocations_enforcement.rs\<close>): the
  three running caps, the ledger of running slots with its three counters, the scheduler around
  it, the budget check and the deadline arithmetic. The ledger is the provider of the interface
  \<open>slot_ledger\<close>; its invariant says that the counters always count exactly the admitted ids and
  never exceed their caps.
\<close>

section \<open>Limits\<close>

definition BUDGET_EXCEEDED_ERROR_CODE :: string where
  "BUDGET_EXCEEDED_ERROR_CODE = ''budget_exceeded''"
definition MAX_RUNNING_GLOBAL_ENV :: string where
  "MAX_RUNNING_GLOBAL_ENV = ''AGENTOS_INVOCATION_MAX_RUNNING_GLOBAL''"
definition MAX_RUNNING_PER_TENANT_ENV :: string where
  "MAX_RUNNING_PER_TENANT_ENV = ''AGENTOS_INVOCATION_MAX_RUNNING_PER_TENANT''"
definition MAX_RUNNING_PER_SCOPE_ENV :: string where
  "MAX_RUNNING_PER_SCOPE_ENV = ''AGENTOS_INVOCATION_MAX_RUNNING_PER_SCOPE''"

record running_limits =
  limit_global :: nat
  limit_per_tenant :: nat
  limit_per_scope :: nat

definition default_running_limits :: running_limits where
  "default_running_limits = \<lparr>limit_global = 64, limit_per_tenant = 16, limit_per_scope = 8\<rparr>"

definition running_limits_from_vars :: "(string \<Rightarrow> string option) \<Rightarrow> running_limits" where
  "running_limits_from_vars lookup =
     (let limits = default_running_limits;
          limits = (case positive_var lookup MAX_RUNNING_GLOBAL_ENV of
             None \<Rightarrow> limits | Some v \<Rightarrow> limits\<lparr>limit_global := unat v\<rparr>);
          limits = (case positive_var lookup MAX_RUNNING_PER_TENANT_ENV of
             None \<Rightarrow> limits | Some v \<Rightarrow> limits\<lparr>limit_per_tenant := unat v\<rparr>);
          limits = (case positive_var lookup MAX_RUNNING_PER_SCOPE_ENV of
             None \<Rightarrow> limits | Some v \<Rightarrow> limits\<lparr>limit_per_scope := unat v\<rparr>)
      in limits)"

lemma positive_var_ge_1: "positive_var lookup key = Some v \<Longrightarrow> 1 \<le> unat v"
  by (auto simp: positive_var_def word_le_nat_alt split: Option.bind_splits if_splits)

lemma running_limits_positive:
  "0 < limit_global (running_limits_from_vars lookup) \<and> 0 < limit_per_tenant (running_limits_from_vars lookup)
   \<and> 0 < limit_per_scope (running_limits_from_vars lookup)"
  by (auto simp: running_limits_from_vars_def default_running_limits_def Let_def dest!: positive_var_ge_1
      split: option.split)

section \<open>The ledger\<close>

record running_scope =
  scope_tenant_id :: string
  scope_project_id :: string

definition running_scope_from_invocation :: "invocation \<Rightarrow> running_scope" where
  "running_scope_from_invocation r =
     \<lparr>scope_tenant_id = inv_tenant_id r, scope_project_id = inv_project_id r\<rparr>"

record fifo_running_slots =
  slot_limits :: running_limits
  global :: nat
  per_tenant :: "string \<rightharpoonup> nat"
  per_scope :: "running_scope \<rightharpoonup> nat"
  admitted :: "string \<rightharpoonup> running_scope"

definition new_slots :: "running_limits \<Rightarrow> fifo_running_slots" where
  "new_slots limits = \<lparr>slot_limits = limits, global = 0, per_tenant = Map.empty,
     per_scope = Map.empty, admitted = Map.empty\<rparr>"

text \<open>\<open>get(..).copied().unwrap_or(0)\<close>, \<open>*entry(..).or_insert(0) += 1\<close> and the decrement.\<close>

definition count_of :: "('k \<rightharpoonup> nat) \<Rightarrow> 'k \<Rightarrow> nat" where
  "count_of m k = (case m k of None \<Rightarrow> 0 | Some n \<Rightarrow> n)"

definition increment :: "'k \<Rightarrow> ('k \<rightharpoonup> nat) \<Rightarrow> ('k \<rightharpoonup> nat)" where
  "increment k m = m(k \<mapsto> count_of m k + 1)"

definition decrement :: "'k \<Rightarrow> ('k \<rightharpoonup> nat) \<Rightarrow> ('k \<rightharpoonup> nat)" where
  "decrement k m =
     (case m k of None \<Rightarrow> m
      | Some n \<Rightarrow> (if n - 1 = 0 then m(k := None) else m(k \<mapsto> n - 1)))"

definition tenant_running :: "fifo_running_slots \<Rightarrow> string \<Rightarrow> nat" where
  "tenant_running s t = count_of (per_tenant s) t"

definition scope_running :: "fifo_running_slots \<Rightarrow> running_scope \<Rightarrow> nat" where
  "scope_running s sc = count_of (per_scope s) sc"

definition admitted_ids :: "fifo_running_slots \<Rightarrow> string set" where
  "admitted_ids s = dom (admitted s)"

definition try_acquire :: "running_scope \<Rightarrow> fifo_running_slots \<Rightarrow> bool \<times> fifo_running_slots" where
  "try_acquire sc s =
     (if global s \<ge> limit_global (slot_limits s)
         \<or> tenant_running s (scope_tenant_id sc) \<ge> limit_per_tenant (slot_limits s)
         \<or> scope_running s sc \<ge> limit_per_scope (slot_limits s)
      then (False, s)
      else (True, s\<lparr>global := global s + 1, per_tenant := increment (scope_tenant_id sc) (per_tenant s),
                    per_scope := increment sc (per_scope s)\<rparr>))"

definition slots_try_admit :: "running_scope \<Rightarrow> string \<Rightarrow> fifo_running_slots \<Rightarrow> bool \<times> fifo_running_slots" where
  "slots_try_admit sc i s =
     (if admitted s i \<noteq> None then (True, s)
      else case try_acquire sc s of
             (False, s') \<Rightarrow> (False, s')
           | (True, s') \<Rightarrow> (True, s'\<lparr>admitted := (admitted s')(i \<mapsto> sc)\<rparr>))"

definition slots_release :: "string \<Rightarrow> fifo_running_slots \<Rightarrow> bool \<times> fifo_running_slots" where
  "slots_release i s =
     (case admitted s i of
        None \<Rightarrow> (False, s)
      | Some sc \<Rightarrow> (True, s\<lparr>admitted := (admitted s)(i := None), global := global s - 1,
                        per_tenant := decrement (scope_tenant_id sc) (per_tenant s),
                        per_scope := decrement sc (per_scope s)\<rparr>))"

section \<open>The scheduler\<close>

text \<open>\<open>wakeups\<close> counts the calls of \<open>Notify::notify_waiters\<close>.\<close>

record fifo_scheduler =
  slots :: fifo_running_slots
  wakeups :: nat

definition new_scheduler :: "running_limits \<Rightarrow> fifo_scheduler" where
  "new_scheduler limits = \<lparr>slots = new_slots limits, wakeups = 0\<rparr>"

definition try_admit :: "running_scope \<Rightarrow> string \<Rightarrow> fifo_scheduler \<Rightarrow> bool \<times> fifo_scheduler" where
  "try_admit sc i d =
     (case slots_try_admit sc i (slots d) of
        (ok, s) \<Rightarrow> (ok, d\<lparr>slots := s, wakeups := wakeups d + (if ok then 1 else 0)\<rparr>))"

definition release_now :: "string \<Rightarrow> fifo_scheduler \<Rightarrow> bool \<times> fifo_scheduler" where
  "release_now i d =
     (case slots_release i (slots d) of
        (freed, s) \<Rightarrow> (freed, d\<lparr>slots := s, wakeups := wakeups d + (if freed then 1 else 0)\<rparr>))"

section \<open>Counting\<close>

definition count_where :: "('x \<Rightarrow> bool) \<Rightarrow> ('k \<rightharpoonup> 'x) \<Rightarrow> nat" where
  "count_where P m = card {k. \<exists>x. m k = Some x \<and> P x}"

lemma finite_where: "finite (dom m) \<Longrightarrow> finite {k. \<exists>x. m k = Some x \<and> P x}"
  by (rule finite_subset [of _ "dom m"]) auto

lemma count_where_insert:
  assumes "finite (dom m)" and "m k = None"
  shows "count_where P (m(k \<mapsto> x)) = count_where P m + (if P x then 1 else 0)"
proof -
  have "{j. \<exists>y. (m(k \<mapsto> x)) j = Some y \<and> P y}
      = (if P x then insert k {j. \<exists>y. m j = Some y \<and> P y} else {j. \<exists>y. m j = Some y \<and> P y})"
    using assms(2) by auto
  then show ?thesis
    using finite_where [OF assms(1)] assms(2) by (simp add: count_where_def)
qed

lemma count_where_remove:
  assumes "finite (dom m)" and "m k = Some x"
  shows "count_where P m = count_where P (m(k := None)) + (if P x then 1 else 0)"
proof -
  have "(m(k := None))(k \<mapsto> x) = m" using assms(2) by auto
  then show ?thesis
    using count_where_insert [of "m(k := None)" k P x] assms(1) by simp
qed

text \<open>A counter map holds, per key, the count of a family of predicates, without zeros.\<close>

definition counts :: "('k \<Rightarrow> 'x \<Rightarrow> bool) \<Rightarrow> ('i \<rightharpoonup> 'x) \<Rightarrow> ('k \<rightharpoonup> nat) \<Rightarrow> bool" where
  "counts F adm m \<longleftrightarrow> (\<forall>k. count_of m k = count_where (F k) adm \<and> m k \<noteq> Some 0)"

lemma counts_increment:
  assumes "counts F adm m" and "finite (dom adm)" and "adm i = None" and "\<And>k. F k x \<longleftrightarrow> k = key"
  shows "counts F (adm(i \<mapsto> x)) (increment key m)"
  using assms by (auto simp: counts_def count_where_insert increment_def count_of_def)

lemma counts_decrement:
  assumes "counts F adm m" and "finite (dom adm)" and "adm i = Some x" and "\<And>k. F k x \<longleftrightarrow> k = key"
  shows "counts F (adm(i := None)) (decrement key m)"
  unfolding counts_def
proof
  fix k
  have 1: "count_of m k = count_where (F k) (adm(i := None)) + (if k = key then 1 else 0)" "m k \<noteq> Some 0"
    using assms(1,4) count_where_remove [OF assms(2,3), of "F k"] by (auto simp: counts_def)
  then show "count_of (decrement key m) k = count_where (F k) (adm(i := None)) \<and> decrement key m k \<noteq> Some 0"
    by (auto simp: decrement_def count_of_def split: option.splits if_splits)
qed

section \<open>The invariant of the ledger\<close>

definition slots_ok :: "fifo_running_slots \<Rightarrow> bool" where
  "slots_ok s \<longleftrightarrow> finite (dom (admitted s)) \<and> global s = card (dom (admitted s))
     \<and> counts (\<lambda>t sc. scope_tenant_id sc = t) (admitted s) (per_tenant s)
     \<and> counts (\<lambda>k sc. sc = k) (admitted s) (per_scope s)
     \<and> global s \<le> limit_global (slot_limits s)
     \<and> (\<forall>t. tenant_running s t \<le> limit_per_tenant (slot_limits s))
     \<and> (\<forall>sc. scope_running s sc \<le> limit_per_scope (slot_limits s))"

lemma slots_ok_new [invs]: "slots_ok (new_slots limits)"
  by (simp add: slots_ok_def new_slots_def counts_def count_of_def count_where_def
      tenant_running_def scope_running_def)

lemma count_of_increment: "count_of (increment k m) j = count_of m j + (if j = k then 1 else 0)"
  by (simp add: increment_def count_of_def)

lemma count_of_decrement_le: "count_of (decrement k m) j \<le> count_of m j"
  by (auto simp: decrement_def count_of_def split: option.splits)

lemma slots_ok_admit [invs]:
  assumes "slots_ok s"
  shows "slots_ok (snd (slots_try_admit sc i s))"
proof (cases "admitted s i \<noteq> None \<or> \<not> fst (try_acquire sc s)")
  case True
  then show ?thesis
    using assms by (auto simp: slots_try_admit_def try_acquire_def)
next
  case False
  then have none: "admitted s i = None" by blast
  from False have room: "global s < limit_global (slot_limits s)"
      "tenant_running s (scope_tenant_id sc) < limit_per_tenant (slot_limits s)"
      "scope_running s sc < limit_per_scope (slot_limits s)"
    by (auto simp: try_acquire_def split: if_splits)
  let ?s = "s\<lparr>global := global s + 1, per_tenant := increment (scope_tenant_id sc) (per_tenant s),
    per_scope := increment sc (per_scope s), admitted := (admitted s)(i \<mapsto> sc)\<rparr>"
  have s': "snd (slots_try_admit sc i s) = ?s"
    using none room by (simp add: slots_try_admit_def try_acquire_def)
  have fin: "finite (dom (admitted s))" using assms by (simp add: slots_ok_def)
  have "counts (\<lambda>t sc. scope_tenant_id sc = t) (admitted ?s) (per_tenant ?s)"
    and "counts (\<lambda>k sc. sc = k) (admitted ?s) (per_scope ?s)"
    using assms by (auto simp: slots_ok_def intro: counts_increment [OF _ fin none])
  moreover have "card (dom (admitted ?s)) = Suc (card (dom (admitted s)))"
    using fin none by (simp add: domIff)
  ultimately show ?thesis
    unfolding s' using assms room fin
    by (auto simp: slots_ok_def tenant_running_def scope_running_def count_of_increment)
qed

lemma slots_ok_release [invs]:
  assumes "slots_ok s"
  shows "slots_ok (snd (slots_release i s))"
proof (cases "admitted s i")
  case None
  then show ?thesis using assms by (simp add: slots_release_def)
next
  case (Some sc)
  let ?s = "snd (slots_release i s)"
  have fin: "finite (dom (admitted s))" using assms by (simp add: slots_ok_def)
  have fields: "admitted ?s = (admitted s)(i := None)" "global ?s = global s - 1"
    "per_tenant ?s = decrement (scope_tenant_id sc) (per_tenant s)" "per_scope ?s = decrement sc (per_scope s)"
    "slot_limits ?s = slot_limits s"
    using Some by (simp_all add: slots_release_def)
  have "counts (\<lambda>t sc. scope_tenant_id sc = t) (admitted ?s) (per_tenant ?s)"
    and "counts (\<lambda>k sc. sc = k) (admitted ?s) (per_scope ?s)"
    unfolding fields using assms
    by (auto simp: slots_ok_def intro: counts_decrement [OF _ fin Some])
  moreover have "dom (admitted ?s) = dom (admitted s) - {i}" by (simp add: fields)
  then have "card (dom (admitted ?s)) = card (dom (admitted s)) - 1"
    using fin Some by (simp add: card_Diff_singleton_if domI)
  moreover have "tenant_running ?s t \<le> limit_per_tenant (slot_limits s)"
    and "scope_running ?s x \<le> limit_per_scope (slot_limits s)" for t x
  proof -
    have lim: "count_of (per_tenant s) t \<le> limit_per_tenant (slot_limits s)"
      "count_of (per_scope s) x \<le> limit_per_scope (slot_limits s)"
      using assms by (simp_all add: slots_ok_def tenant_running_def scope_running_def)
    show "tenant_running ?s t \<le> limit_per_tenant (slot_limits s)"
      unfolding tenant_running_def fields by (rule order_trans [OF count_of_decrement_le lim(1)])
    show "scope_running ?s x \<le> limit_per_scope (slot_limits s)"
      unfolding scope_running_def fields by (rule order_trans [OF count_of_decrement_le lim(2)])
  qed
  ultimately show ?thesis
    using assms fin unfolding slots_ok_def fields by auto
qed

section \<open>The ledger as an interface\<close>

text \<open>
  What the execution bridge relies on: an admission that succeeds makes its id a holder, an id
  holds at most one slot, releasing frees exactly the slot of its id, and the holders never
  outnumber the capacity.
\<close>

locale slot_ledger =
  fixes ok :: "'l \<Rightarrow> bool"
    and holders :: "'l \<Rightarrow> string set"
    and capacity :: "'l \<Rightarrow> nat"
    and admit :: "'sc \<Rightarrow> string \<Rightarrow> 'l \<Rightarrow> bool \<times> 'l"
    and release :: "string \<Rightarrow> 'l \<Rightarrow> bool \<times> 'l"
  assumes admit_ok: "ok l \<Longrightarrow> ok (snd (admit sc i l))"
    and release_ok: "ok l \<Longrightarrow> ok (snd (release i l))"
    and bounded: "ok l \<Longrightarrow> finite (holders l) \<and> card (holders l) \<le> capacity l"
    and admit_holders: "admit sc i l = (b, l') \<Longrightarrow> holders l' = (if b then insert i (holders l) else holders l)"
    and admit_held: "i \<in> holders l \<Longrightarrow> fst (admit sc i l)"
    and release_holders: "release i l = (b, l') \<Longrightarrow> holders l' = holders l - {i} \<and> (b \<longleftrightarrow> i \<in> holders l)"
    and admit_capacity: "capacity (snd (admit sc i l)) = capacity l"
    and release_capacity: "capacity (snd (release i l)) = capacity l"
begin

fun use :: "('sc \<times> string) + string \<Rightarrow> 'l \<Rightarrow> 'l" where
  "use (Inl (sc, i)) l = snd (admit sc i l)"
| "use (Inr i) l = snd (release i l)"

fun uses :: "(('sc \<times> string) + string) list \<Rightarrow> 'l \<Rightarrow> 'l" where
  "uses [] l = l"
| "uses (u # us) l = uses us (use u l)"

lemma use_ok: "ok l \<Longrightarrow> ok (use u l)"
  by (cases u) (auto simp: admit_ok release_ok)

lemma uses_ok: "ok l \<Longrightarrow> ok (uses us l)"
  by (induction us arbitrary: l) (auto simp: use_ok)

lemma uses_capacity: "capacity (uses us l) = capacity l"
proof (induction us arbitrary: l)
  case (Cons u us)
  then show ?case by (cases u) (auto simp: admit_capacity release_capacity)
qed simp

lemma uses_bounded: "ok l \<Longrightarrow> card (holders (uses us l)) \<le> capacity l"
  using bounded [OF uses_ok] by (simp add: uses_capacity)

text \<open>A second release of the same id frees nothing, whoever was admitted in between.\<close>

lemma release_once:
  assumes "\<forall>sc. Inl (sc, i) \<notin> set us"
  shows "fst (release i (uses us (snd (release i l)))) = False"
proof -
  have "i \<notin> holders (uses us l')" if "i \<notin> holders l'" for l'
    using assms that
  proof (induction us arbitrary: l')
    case (Cons u us)
    have "i \<notin> holders (use u l')"
    proof (cases u)
      case (Inl p)
      obtain sc j where p: "p = (sc, j)" by fastforce
      then have "j \<noteq> i" using Cons.prems(1) Inl by auto
      then show ?thesis
        using admit_holders [of sc j l'] Cons.prems(2) Inl p by (cases "admit sc j l'") auto
    next
      case (Inr j)
      then show ?thesis
        using release_holders [of j l'] Cons.prems(2) by (cases "release j l'") auto
    qed
    then show ?case using Cons by simp
  qed simp
  moreover have "i \<notin> holders (snd (release i l))"
    using release_holders [of i l] by (cases "release i l") auto
  ultimately have "i \<notin> holders (uses us (snd (release i l)))" by blast
  then show ?thesis
    using release_holders [of i "uses us (snd (release i l))"]
    by (cases "release i (uses us (snd (release i l)))") auto
qed

end

lemma slots_try_admit_holders:
  "slots_try_admit sc i s = (b, s') \<Longrightarrow> admitted_ids s' = (if b then insert i (admitted_ids s) else admitted_ids s)"
  by (auto simp: slots_try_admit_def try_acquire_def admitted_ids_def split: if_splits)

lemma slots_release_holders:
  "slots_release i s = (b, s') \<Longrightarrow> admitted_ids s' = admitted_ids s - {i} \<and> (b \<longleftrightarrow> i \<in> admitted_ids s)"
  by (auto simp: slots_release_def admitted_ids_def split: option.splits if_splits)

lemma slots_limits_frame [frame, simp]:
  "slot_limits (snd (slots_try_admit sc i s)) = slot_limits s"
  "slot_limits (snd (slots_release i s)) = slot_limits s"
  by (auto simp: slots_try_admit_def try_acquire_def slots_release_def split: option.split)

interpretation ledger: slot_ledger slots_ok admitted_ids "\<lambda>s. limit_global (slot_limits s)"
  slots_try_admit slots_release
proof (unfold_locales, goal_cases)
  case (3 s)
  then show ?case by (simp add: slots_ok_def admitted_ids_def)
next
  case (4 sc i s b s')
  then show ?case by (rule slots_try_admit_holders)
next
  case (5 i s sc)
  then show ?case by (auto simp: slots_try_admit_def admitted_ids_def domIff)
next
  case (6 i s b s')
  then show ?case by (rule slots_release_holders)
qed (simp_all add: slots_ok_admit slots_ok_release)

lemma scheduler_slots:
  "slots (snd (try_admit sc i d)) = snd (slots_try_admit sc i (slots d))"
  "slots (snd (release_now i d)) = snd (slots_release i (slots d))"
  "fst (try_admit sc i d) = fst (slots_try_admit sc i (slots d))"
  "fst (release_now i d) = fst (slots_release i (slots d))"
  by (auto simp: try_admit_def release_now_def split: prod.split)

text \<open>The scheduler provides the same interface.\<close>

interpretation scheduler: slot_ledger "\<lambda>d. slots_ok (slots d)" "\<lambda>d. admitted_ids (slots d)"
  "\<lambda>d. limit_global (slot_limits (slots d))" "try_admit :: _ \<Rightarrow> _ \<Rightarrow> fifo_scheduler \<Rightarrow> _" release_now
proof (unfold_locales, goal_cases)
  case (4 sc i d b d')
  obtain b0 s0 where e: "slots_try_admit sc i (slots d) = (b0, s0)" by fastforce
  have "slots d' = s0" "b = b0" using scheduler_slots(1,3) [of sc i d] 4 e by simp_all
  then show ?case using slots_try_admit_holders [OF e] by simp
next
  case (6 i d b d')
  obtain b0 s0 where e: "slots_release i (slots d) = (b0, s0)" by fastforce
  have "slots d' = s0" "b = b0" using scheduler_slots(2,4) [of i d] 6 e by simp_all
  then show ?case using slots_release_holders [OF e] by simp
next
  case (1 d sc i)
  then show ?case by (simp add: scheduler_slots slots_ok_admit)
next
  case (2 d i)
  then show ?case by (simp add: scheduler_slots slots_ok_release)
next
  case (3 d)
  then show ?case by (rule ledger.bounded)
next
  case (5 i d sc)
  then show ?case by (simp only: scheduler_slots ledger.admit_held)
qed (simp_all only: scheduler_slots slots_limits_frame)

section \<open>Budgets\<close>

definition value_or_0 :: "u64 option \<Rightarrow> u64" where
  "value_or_0 x = (case x of None \<Rightarrow> 0 | Some v \<Rightarrow> v)"

definition budget_is_exceeded :: "invocation_budget \<Rightarrow> invocation_usage \<Rightarrow> bool" where
  "budget_is_exceeded b u =
     (if (case max_tokens b of None \<Rightarrow> False
          | Some m \<Rightarrow>
              let used = saturating_add (value_or_0 (input_tokens u)) (value_or_0 (output_tokens u))
              in (input_tokens u \<noteq> None \<or> output_tokens u \<noteq> None) \<and> used > m)
      then True
      else if (case max_tool_calls b of None \<Rightarrow> False
          | Some m \<Rightarrow>
              let used = (case tool_calls u of None \<Rightarrow> 0 | Some calls \<Rightarrow> of_nat (length calls))
              in tool_calls u \<noteq> None \<and> used > m)
      then True
      else (case max_cost b of None \<Rightarrow> False
          | Some m \<Rightarrow> (case cost u of None \<Rightarrow> False | Some c \<Rightarrow> c > m)))"

text \<open>
  The saturating sum decides as the exact sum does, except against the largest limit, which
  nothing exceeds.
\<close>

lemma saturating_exceeds:
  "saturating_add a b > m \<longleftrightarrow> unat a + unat b > unat m \<and> m \<noteq> - 1"
proof -
  have "unat m < 2 ^ 64 - 1 \<longleftrightarrow> m \<noteq> - 1"
    using unat_max_u64 word_order.not_eq_extremum [of m] by (simp add: word_less_nat_alt)
  then show ?thesis
    by (auto simp: word_less_nat_alt unat_saturating_add)
qed

section \<open>Deadlines\<close>

definition parse_deadline_utc :: "chrono_lib \<Rightarrow> string \<Rightarrow> time option" where
  "parse_deadline_utc lib raw = parse_from_rfc3339 lib raw"

text \<open>A duration is in nanoseconds; \<open>num_milliseconds\<close> truncates.\<close>

definition duration_until_deadline :: "chrono_lib \<Rightarrow> time \<Rightarrow> string \<Rightarrow> int option" where
  "duration_until_deadline lib now raw =
     (case parse_deadline_utc lib raw of None \<Rightarrow> None
      | Some d \<Rightarrow>
          if d \<le> now then Some 0
          else let millis = (d - now) div 1000000
               in if millis \<le> 0 then Some 0 else Some (millis * 1000000))"

definition deadline_already_due :: "chrono_lib \<Rightarrow> time \<Rightarrow> string \<Rightarrow> bool" where
  "deadline_already_due lib now raw =
     (case duration_until_deadline lib now raw of Some d \<Rightarrow> d = 0 | None \<Rightarrow> False)"

lemma deadline_due_iff:
  "deadline_already_due lib now raw \<longleftrightarrow>
     (\<exists>d. parse_from_rfc3339 lib raw = Some d \<and> d < now + 1000000)"
  by (auto simp: deadline_already_due_def duration_until_deadline_def parse_deadline_utc_def Let_def
      zdiv_eq_0_iff split: option.splits)

end
