(* ===== verification/Execution_Properties.thy ===== *)
theory Execution_Properties
  imports Execution_Bridge Route_Properties
begin

text \<open>
  The properties of the execution bridge: what a succeeded invocation is evidence of, that quoted
  input cannot open a tag, that slots are given back and granted in order, that a run without faults
  ends its invocation, that a deadline is enforced, and that a run touches only its own record.
\<close>

section \<open>Recording outcomes\<close>

lemma transition_for_claims_outcome:
  "snd (transition_for_claims lib fs now c i e t patch st) = snd (transition_outcome_for_claims lib fs now c i e t patch st)"
  by (simp add: transition_for_claims_def split: prod.splits)

text \<open>Both failure writers leave the store as it is or ask for the failed state.\<close>

lemma fail_running_cases:
  "snd (fail_running lib fs now between c i cd msg u st) = st
   \<or> (\<exists>patch. snd (fail_running lib fs now between c i cd msg u st)
        = snd (transition_outcome_for_claims lib fs now c i None Failed patch (between st)))"
  by (auto simp: fail_running_def Let_def transition_for_claims_outcome [symmetric] split: sum.splits prod.splits)
    (metis snd_conv)

lemma transition_state_of:
  assumes "store_ok st" and "lookup_invocation c i (snd (transition_outcome_for_claims lib fs now c i e t patch st)) = Some q"
  shows "lookup_invocation c i st = Some q \<or> state q = t"
proof -
  obtain res st' where m: "transition_outcome_for_claims lib fs now c i e t patch st = (res, st')" by fastforce
  show ?thesis
  proof (cases res)
    case (Inl e)
    then show ?thesis using assms(2) m transition_error by fastforce
  next
    case (Inr out)
    then show ?thesis using transition_result [OF assms(1) m [unfolded Inr]] assms(2) m by simp
  qed
qed

lemma complete_usage_iff:
  "require_complete_usage_for_succeeded res = Inr v \<longleftrightarrow>
     (\<exists>u. usage res = Some u \<and> missing_usage_fields u = [])"
  by (auto simp: require_complete_usage_for_succeeded_def Let_def split: option.splits if_splits)

lemma no_missing_iff:
  "missing_usage_fields u = [] \<longleftrightarrow> (\<exists>m. usage_model u = Some m \<and> \<not> is_blank m)
     \<and> input_tokens u \<noteq> None \<and> output_tokens u \<noteq> None \<and> cost u \<noteq> None \<and> usage_cost_source u \<noteq> None"
  by (auto simp: missing_usage_fields_def is_blank_def split: option.splits)

text \<open>What an outcome must show to be recorded as a success.\<close>

definition proves_success :: "invocation \<Rightarrow> task_outcome \<Rightarrow> invocation_usage \<Rightarrow> bool" where
  "proves_success r outcome u \<longleftrightarrow> outcome_kind outcome = OutcomeCompleted \<and> status_is_success (outcome_status outcome)
     \<and> outcome_usage outcome = Some u \<and> usage_ok u \<and> missing_usage_fields u = []
     \<and> (case budget (inv_request r) of None \<Rightarrow> True | Some b \<Rightarrow> \<not> budget_is_exceeded b u)"

definition success_result :: "invocation \<Rightarrow> task_outcome \<Rightarrow> invocation_result" where
  "success_result r outcome =
     (let text = scrub_result_summary (outcome_summary outcome)
      in \<lparr>summary = text, artifacts = structured_artifacts r text, usage = outcome_usage outcome\<rparr>)"

lemma validate_usage_Inl: "validate_usage u = Inl e \<Longrightarrow> \<not> usage_ok u"
  using validate_usage_Inr_iff [of u] by force

lemma apply_task_outcome_cases:
  obtains (success) u where "proves_success r outcome u"
    and "apply_task_outcome lib fs now between c r outcome st
      = snd (transition_outcome_for_claims lib fs now c (inv_id r) None Succeeded
               (no_patch\<lparr>patch_result := Some (success_result r outcome)\<rparr>) st)"
  | (failure) cd msg u where "apply_task_outcome lib fs now between c r outcome st
      = snd (fail_running lib fs now between c (inv_id r) cd msg u st)"
      and "\<And>w. u = Some w \<Longrightarrow> usage_ok w" and "\<nexists>v. proves_success r outcome v"
proof -
  let ?used = "outcome_usage outcome" and ?text = "scrub_result_summary (outcome_summary outcome)"
  let ?res = "\<lparr>summary = ?text, artifacts = structured_artifacts r ?text, usage = ?used\<rparr>"
  let ?over = "case (budget (inv_request r), ?used) of (Some b, Some u) \<Rightarrow> budget_is_exceeded b u | _ \<Rightarrow> False"
  let ?app = "apply_task_outcome lib fs now between c r outcome st"
  note app = apply_task_outcome_def [of lib fs now between c r outcome st, unfolded Let_def]
  show thesis
  proof (cases "case ?used of None \<Rightarrow> Inr () | Some u \<Rightarrow> validate_usage u")
    case (Inl e)
    then have "\<nexists>v. proves_success r outcome v"
      by (auto simp: proves_success_def dest: validate_usage_Inl split: option.splits)
    then show thesis using failure [of INVALID_USAGE_ERROR_CODE _ None] Inl by (simp add: app)
  next
    case (Inr x)
    then have valid: "\<And>w. ?used = Some w \<Longrightarrow> usage_ok w" by (auto split: option.splits)
    show thesis
    proof (cases "outcome_kind outcome = OutcomeCompleted \<and> status_is_success (outcome_status outcome) \<and> \<not> ?over")
      case False
      then have "\<nexists>v. proves_success r outcome v"
        by (auto simp: proves_success_def split: option.splits)
      moreover have "\<exists>cd msg. ?app = snd (fail_running lib fs now between c (inv_id r) cd msg ?used st)"
        using False Inr unfolding app
        by (cases "outcome_kind outcome = OutcomeCompleted"; cases "status_is_success (outcome_status outcome)")
          (simp_all, blast+)
      ultimately show thesis using failure valid by blast
    next
      case True
      show thesis
      proof (cases "require_complete_usage_for_succeeded ?res")
        case (Inl e)
        then have "\<nexists>v. proves_success r outcome v"
          using complete_usage_iff [of ?res] by (auto simp: proves_success_def)
        moreover have "?app = snd (fail_running lib fs now between c (inv_id r) (incomplete_as_error_code e)
            (incomplete_as_message e) (if e = CostWithoutSource then None else ?used) st)"
          using True Inr Inl by (simp add: app succeeded_patch_or_reject_def)
        moreover have "\<And>w. (if e = CostWithoutSource then None else ?used) = Some w \<Longrightarrow> usage_ok w"
          using valid by (simp split: if_splits)
        ultimately show thesis using failure by blast
      next
        case (Inr v)
        then obtain u where u: "?used = Some u" "missing_usage_fields u = []"
          using complete_usage_iff [of ?res] by auto
        then have "proves_success r outcome u"
          using True valid by (auto simp: proves_success_def split: option.splits)
        moreover have "succeeded_patch_or_reject ?res = Inr (success_result r outcome)"
          using Inr by (simp add: succeeded_patch_or_reject_def success_result_def Let_def)
        ultimately show thesis
          using True \<open>(case ?used of None \<Rightarrow> Inr () | Some u \<Rightarrow> validate_usage u) = Inr x\<close> success
          by (simp add: app transition_for_claims_outcome)
      qed
    qed
  qed
qed


lemma written_result:
  assumes "store_ok st" and "lookup_invocation c i (snd (transition_outcome_for_claims lib fs now c i e t patch st)) = Some q"
    and "lookup_invocation c i st \<noteq> Some q" and "patch_result patch = Some res"
  shows "inv_result q = Some res"
proof -
  obtain out st' where m: "transition_outcome_for_claims lib fs now c i e t patch st = (out, st')" by fastforce
  then obtain o1 where o1: "out = Inr o1" "changed o1"
    using transition_no_change [OF m] assms(2,3) by fastforce
  from transition_result [OF assms(1) m [unfolded o1(1)]] have q: "outcome_invocation o1 = q"
    using assms(2) m by simp
  from transition_changed [OF m [unfolded o1(1)] o1(2)] obtain r0 where
    "outcome_invocation o1 = apply_transition lib now c t patch r0" by metis
  then show ?thesis
    using assms(4) by (auto simp: q apply_transition_def Let_def split: option.splits)
qed

lemma fail_running_state:
  assumes "store_ok (between st)"
    and "lookup_invocation c i (snd (fail_running lib fs now between c i cd msg u st)) = Some q"
  shows "lookup_invocation c i st = Some q \<or> lookup_invocation c i (between st) = Some q \<or> state q = Failed"
  using fail_running_cases [of lib fs now between c i cd msg u st] assms transition_state_of by metis

text \<open>
  C15: the bridge records a success only for an execution that completed with an explicitly
  successful status, whose usage is valid and complete (model, both token counts, cost and its
  source) and within the request's budget, and the stored result is the scrubbed summary, the
  declared artifacts and exactly that usage. A panic, an abort, a cancel or any other outcome never
  becomes a success, whatever other handlers did meanwhile.
\<close>

theorem success_is_proven:
  assumes "store_ok st" and "store_ok (env_others env DuringWrite st)"
    and "lookup_invocation c (inv_id r) (record_join deps env c r asked join st) = Some q" and "state q = Succeeded"
    and "lookup_invocation c (inv_id r) st \<noteq> Some q"
    and "lookup_invocation c (inv_id r) (env_others env DuringWrite st) \<noteq> Some q"
  shows "\<exists>outcome u. join = Joined outcome \<and> proves_success r outcome u
    \<and> inv_result q = Some (success_result r outcome)"
proof -
  let ?i = "inv_id r" and ?between = "env_others env DuringWrite" and ?fs = "env_fs env"
    and ?lib = "chrono (routes deps)" and ?now = "env_now env AfterExecution"
  have no_fail: False if "record_join deps env c r asked join st = snd (fail_running ?lib ?fs ?now ?between c ?i cd msg u st)"
    for cd msg u
    using fail_running_state [where between = ?between and st = st, OF assms(2)] assms(3-6) that by force
  have no_cancel: False if "record_join deps env c r asked join st
      = snd (transition_for_claims ?lib ?fs ?now c ?i None Cancelled no_patch (?between st))"
    using transition_state_of [OF assms(2)] assms(3-6) that by (force simp: transition_for_claims_outcome)
  show ?thesis
  proof (cases "\<exists>outcome. join = Joined outcome \<and> outcome_kind outcome \<noteq> OutcomeCancelled")
    case False
    then show ?thesis
      using no_fail no_cancel assms(3,5)
      by (cases join) (auto simp: record_join_def Let_def split: if_splits sum.splits)
  next
    case True
    then obtain outcome where j: "join = Joined outcome" "outcome_kind outcome \<noteq> OutcomeCancelled" by blast
    then have eq: "record_join deps env c r asked join st
        = apply_task_outcome ?lib ?fs ?now ?between c r outcome st"
      by (simp add: record_join_def Let_def)
    show ?thesis
    proof (cases rule: apply_task_outcome_cases [of r outcome ?lib ?fs ?now ?between c st])
      case (success u)
      then show ?thesis
        using written_result [OF assms(1), of c ?i ?lib ?fs ?now None Succeeded _ q "success_result r outcome"]
          assms(3,5) j(1) eq by auto
    next
      case (failure cd msg u)
      then show ?thesis using no_fail eq by metis
    qed
  qed
qed


section \<open>Quoted input\<close>

text \<open>The inverse of the escape, and the text it stands for: look-alikes read as \<open><\<close>.\<close>

function unescape :: "string \<Rightarrow> string" where
  "unescape [] = []"
| "unescape (c # s) =
     (if starts_with ''&amp;'' (c # s) then CHR ''&'' # unescape (drop 4 s)
      else if starts_with ''&lt;'' (c # s) then CHR ''<'' # unescape (drop 3 s)
      else c # unescape s)"
  by pat_completeness auto
termination by (relation "measure length") auto

function plain_less :: "string \<Rightarrow> string" where
  "plain_less [] = []"
| "plain_less (c # s) =
     (if list_ex (\<lambda>p. starts_with p (c # s)) lookalikes then CHR ''<'' # plain_less (drop 2 s)
      else c # plain_less s)"
  by pat_completeness auto
termination by (relation "measure length") auto

lemma lookalike_head: "list_ex (\<lambda>p. starts_with p (c # s)) lookalikes \<Longrightarrow> c \<in> {CHR 0xEF, CHR 0xE2}"
  by (auto simp: lookalikes_def starts_with_def)

lemma escape_no_less: "CHR ''<'' \<notin> set (escape_input_ref_content t)"
  by (induction t rule: escape_input_ref_content.induct) auto

lemma unescape_escape: "unescape (escape_input_ref_content t) = plain_less t"
proof (induction t rule: escape_input_ref_content.induct)
  case 1
  then show ?case by simp
next
  case (2 c s)
  consider "c = CHR ''&''" | "c = CHR ''<''" | "c \<notin> {CHR ''&'', CHR ''<''}" by blast
  then show ?case
  proof cases
    case 3
    then show ?thesis
      using 2 by (auto simp: starts_with_def)
  qed (use 2 lookalike_head [of c s] in \<open>auto simp: starts_with_def\<close>)
qed

lemma escape_kept:
  "escape_input_ref_content s = b # z \<Longrightarrow> b \<noteq> CHR ''&'' \<Longrightarrow> \<exists>s'. s = b # s' \<and> z = escape_input_ref_content s'
     \<and> \<not> list_ex (\<lambda>p. starts_with p s) lookalikes"
  by (cases s) (auto split: if_splits)

lemma escape_no_lookalike_head: "p \<in> set lookalikes \<Longrightarrow> \<not> starts_with p (escape_input_ref_content s)"
proof
  assume p: "p \<in> set lookalikes" and st: "starts_with p (escape_input_ref_content s)"
  from p obtain a b d where abd: "p = [a, b, d]" "a \<noteq> CHR ''&''" "b \<noteq> CHR ''&''" "d \<noteq> CHR ''&''"
    by (auto simp: lookalikes_def)
  with st obtain z where z: "escape_input_ref_content s = a # b # d # z"
    by (auto simp: starts_with_iff)
  from escape_kept [OF z abd(2)] obtain s1 where s1: "s = a # s1" "escape_input_ref_content s1 = b # d # z"
    "\<not> list_ex (\<lambda>p. starts_with p s) lookalikes" by metis
  from escape_kept [OF s1(2) abd(3)] obtain s2 where s2: "s1 = b # s2" "escape_input_ref_content s2 = d # z" by metis
  from escape_kept [OF s2(2) abd(4)] obtain s3 where "s2 = d # s3" by metis
  then have "starts_with p s" using s1 s2 abd by (simp add: starts_with_iff)
  then show False using s1(3) p by (auto simp: list_ex_iff)
qed

lemma lookalike_not_ascii: "p \<in> set lookalikes \<Longrightarrow> x \<in> set ''&amp;lt'' \<Longrightarrow> \<not> starts_with p (x # y)"
  by (auto simp: lookalikes_def starts_with_iff)

lemma lookalike_nonempty: "p \<in> set lookalikes \<Longrightarrow> p \<noteq> []"
  by (auto simp: lookalikes_def)

lemma escape_no_lookalike: "p \<in> set lookalikes \<Longrightarrow> \<not> contains_sub p (escape_input_ref_content t)"
proof (induction t rule: escape_input_ref_content.induct)
  case 1
  then show ?case using lookalike_nonempty by simp
next
  case (2 c s)
  note head = escape_no_lookalike_head [OF "2.prems", of "c # s"] lookalike_not_ascii [OF "2.prems"]
  consider "c = CHR ''&''" | "c = CHR ''<''" | "c \<noteq> CHR ''&''" "c \<noteq> CHR ''<''" "list_ex (\<lambda>p. starts_with p (c # s)) lookalikes"
    | "c \<noteq> CHR ''&''" "c \<noteq> CHR ''<''" "\<not> list_ex (\<lambda>p. starts_with p (c # s)) lookalikes" by blast
  then show ?case
    by cases (use 2 head in simp_all)
qed

text \<open>
  Quoted content can neither open nor close a tag: the escaped text has no less-than sign and none
  of its look-alikes, and it is unambiguous: undoing the escape gives back the content, with the
  look-alike signs read as a less-than sign.
\<close>

theorem quoted_input_cannot_open_tag:
  "CHR ''<'' \<notin> set (escape_input_ref_content t)
   \<and> \<not> list_ex (\<lambda>p. contains_sub p (escape_input_ref_content t)) lookalikes
   \<and> unescape (escape_input_ref_content t) = plain_less t"
  using escape_no_lookalike by (auto simp: escape_no_less unescape_escape list_ex_iff)


section \<open>Slots\<close>

definition waiting_in :: "running_scope \<Rightarrow> string set \<Rightarrow> invocation_store \<Rightarrow> invocation set" where
  "waiting_in scope held st = {q \<in> set (records st). state q = Queued \<and> running_scope_from_invocation q = scope
     \<and> inv_id q \<notin> held}"

text \<open>
  A slot is granted in order: the invocation that gets one is, among the queued invocations of
  its tenant and project that hold no slot yet, one that none is older than; it was not cancelled,
  it now holds the slot, and the caps of the ledger still hold.
\<close>

theorem slot_granted_in_order:
  assumes "admit_attempt deps w scope r (st, sched) = (GotSlot, st', sched')"
    and "slots_ok (slots (sched_between w sched))"
  shows "\<not> wake_cancelled w \<and> inv_id r \<in> admitted_ids (slots sched') \<and> slots_ok (slots sched')
    \<and> (\<exists>q \<in> waiting_in scope (admitted_ids (slots sched)) st'. inv_id q = inv_id r
         \<and> (\<forall>p \<in> waiting_in scope (admitted_ids (slots sched)) st'. age_key q \<le> age_key p))"
proof -
  let ?held = "admitted_ids (slots sched)"
  from assms(1) have st': "st' = store_between w st" and w: "\<not> wake_cancelled w"
    and old: "map_option inv_id (oldest_queued_in_scope_excluding (scope_tenant_id scope) (scope_project_id scope)
        ?held st') = Some (inv_id r)"
    and adm: "try_admit scope (inv_id r) (sched_between w sched) = (True, sched')"
    by (auto simp: admit_attempt_def Let_def split: sum.splits if_splits prod.splits bool.splits)
  from old obtain q where q: "min_by_key age_key (filter (\<lambda>r. state r = Queued \<and> inv_tenant_id r = scope_tenant_id scope
      \<and> inv_project_id r = scope_project_id scope \<and> inv_id r \<notin> ?held) (records st')) = Some q" "inv_id q = inv_id r"
    by (auto simp: oldest_queued_in_scope_excluding_def)
  have "inv_id r \<in> admitted_ids (slots sched')" using scheduler.admit_holders [OF adm] by simp
  moreover have "slots_ok (slots sched')" using scheduler.admit_ok [OF assms(2), of scope "inv_id r"] adm by simp
  moreover have "running_scope_from_invocation p = scope \<longleftrightarrow>
      inv_tenant_id p = scope_tenant_id scope \<and> inv_project_id p = scope_project_id scope" for p
    by (cases scope) (simp add: running_scope_from_invocation_def)
  ultimately show ?thesis
    using min_by_key_Some [OF q(1)] q(2) w by (auto simp: waiting_in_def intro!: bexI [of _ q])
qed

lemma run_task_slots [simp]: "slots (snd (run_task deps env c r t s)) = slots (snd s)"
  by (auto simp: run_task_def Let_def split: sum.splits prod.splits)

lemma run_invocation_slots: "slots (snd (run_invocation deps env refs r s)) = slots (snd s)"
  by (auto simp: run_invocation_def Let_def split: sum.splits prod.splits option.splits)

lemma admit_attempt_slots:
  assumes "admit_attempt deps w scope r (st, sched) = (res, st', sched')"
  shows "(res \<noteq> GotSlot \<and> slots sched' = slots sched)
     \<or> try_admit scope (inv_id r) (sched_between w sched) = (res = GotSlot, sched')"
  using assms
  by (auto simp: admit_attempt_def Let_def split: sum.splits if_splits prod.splits bool.splits)

text \<open>What other tasks may do to the scheduler: keep its invariant, and not admit this invocation.\<close>

definition fair :: "string \<Rightarrow> (fifo_scheduler \<Rightarrow> fifo_scheduler) \<Rightarrow> bool" where
  "fair i f \<longleftrightarrow> (\<forall>d. slots_ok (slots d) \<longrightarrow> slots_ok (slots (f d))
     \<and> (i \<notin> admitted_ids (slots d) \<longrightarrow> i \<notin> admitted_ids (slots (f d))))"

lemma drop_slot_props:
  "slots_ok (slots d) \<Longrightarrow> slots_ok (slots (drop_slot i d)) \<and> i \<notin> admitted_ids (slots (drop_slot i d))"
  using scheduler.release_ok [of d i] scheduler.release_holders [of i d]
  by (cases "release_now i d") (auto simp: drop_slot_def)

lemma admit_attempt_waits:
  assumes "admit_attempt deps w scope r (st, sched) = (res, st', sched')" and "res \<noteq> GotSlot"
    and "slots_ok (slots sched)" and "inv_id r \<notin> admitted_ids (slots sched)"
    and "slots_ok (slots (sched_between w sched))" and "inv_id r \<notin> admitted_ids (slots (sched_between w sched))"
  shows "slots_ok (slots sched')" and "inv_id r \<notin> admitted_ids (slots sched')"
proof -
  consider "slots sched' = slots sched" | "try_admit scope (inv_id r) (sched_between w sched) = (False, sched')"
    using admit_attempt_slots [OF assms(1)] assms(2) by auto
  then have "slots_ok (slots sched') \<and> inv_id r \<notin> admitted_ids (slots sched')"
  proof cases
    case 1
    then show ?thesis using assms(3,4) by simp
  next
    case 2
    then show ?thesis
      using scheduler.admit_ok [OF assms(5), of scope "inv_id r"] assms(6) scheduler.admit_holders [OF 2] by auto
  qed
  then show "slots_ok (slots sched')" and "inv_id r \<notin> admitted_ids (slots sched')" by blast+
qed

text \<open>
  C16: a slot is always given back: whenever the task of a dispatched invocation ends, after a wait
  that it gave up, a run that failed early or one that went to its end, the invocation holds no slot
  and the ledger's counters are those of the invocations that still hold one.
\<close>

theorem slot_given_back:
  assumes "admit_and_run deps env refs others_sched scope r ws (st, sched) = Some (st', sched')"
    and "slots_ok (slots sched)" and "inv_id r \<notin> admitted_ids (slots sched)"
    and "\<forall>w \<in> set ws. fair (inv_id r) (wake_sched w) \<and> fair (inv_id r) (sched_between w)"
    and "fair (inv_id r) others_sched"
  shows "inv_id r \<notin> admitted_ids (slots sched') \<and> slots_ok (slots sched')"
  using assms(1-4)
proof (induction ws arbitrary: st sched)
  case Nil
  then show ?case by simp
next
  case (Cons w ws)
  let ?d = "wake_sched w sched"
  have d: "slots_ok (slots ?d)" "inv_id r \<notin> admitted_ids (slots ?d)"
    using Cons.prems(2-4) by (auto simp: fair_def)
  then have b: "slots_ok (slots (sched_between w ?d))" "inv_id r \<notin> admitted_ids (slots (sched_between w ?d))"
    using Cons.prems(4) by (auto simp: fair_def)
  obtain res st1 d1 where a: "admit_attempt deps w scope r (wake_store w st, ?d) = (res, st1, d1)"
    by (metis prod.collapse)
  show ?case
  proof (cases "res = GotSlot")
    case True
    obtain st2 d2 where run: "run_invocation deps env refs r (st1, d1) = (st2, d2)" by fastforce
    have "slots_ok (slots d1)"
      using admit_attempt_slots [OF a] True scheduler.admit_ok [OF b(1), of scope "inv_id r"] by auto
    then have "slots_ok (slots d2)" using run_invocation_slots [of deps env refs r "(st1, d1)"] run by simp
    then have "slots_ok (slots (others_sched d2))" using assms(5) by (simp add: fair_def)
    then show ?thesis using drop_slot_props Cons.prems(1) a True run by auto
  next
    case False
    note ok = admit_attempt_waits [OF a False d b]
    show ?thesis
    proof (cases res)
      case GiveUp
      then show ?thesis using Cons.prems(1) a ok by simp
    next
      case KeepWaiting
      then show ?thesis using Cons.IH [OF _ ok] Cons.prems(1,4) a by simp
    qed (use False in simp)
  qed
qed


section \<open>Runs end\<close>

text \<open>Requests of other handlers; only the bridge moves an invocation to running.\<close>

definition no_start :: "transition_request list \<Rightarrow> bool" where
  "no_start qs \<longleftrightarrow> (\<forall>q \<in> set qs. req_target q \<noteq> Running)"

definition drifts :: "invocation_state \<Rightarrow> invocation_state \<Rightarrow> bool" where
  "drifts s t \<longleftrightarrow> t = s \<or> is_terminal t \<or> (t = CancelRequested \<and> s \<noteq> Queued)"

lemma permits_drifts: "permits_with s t e \<Longrightarrow> t \<noteq> Running \<Longrightarrow> drifts s t"
  by (cases s; cases t) (auto simp: permits_with_def drifts_def)

lemma drifts_trans: "drifts s t \<Longrightarrow> drifts t u \<Longrightarrow> \<not> is_terminal t \<or> u = t \<Longrightarrow> drifts s u"
  by (auto simp: drifts_def)

lemma drifts_resting: "drifts s t \<Longrightarrow> (is_terminal s \<longrightarrow> t = s) \<Longrightarrow> s = Queued \<or> is_terminal s \<Longrightarrow> t = Queued \<or> is_terminal t"
  by (auto simp: drifts_def)

lemma drifts_started: "drifts s t \<Longrightarrow> s \<noteq> Queued \<Longrightarrow> t \<noteq> Queued"
  by (auto simp: drifts_def)

lemma others_drift:
  "store_ok st \<Longrightarrow> lookup_invocation c i st = Some r \<Longrightarrow> no_start qs \<Longrightarrow>
   store_ok (others lib qs st) \<and> (\<exists>r'. lookup_invocation c i (others lib qs st) = Some r'
     \<and> drifts (state r) (state r') \<and> (is_terminal (state r) \<longrightarrow> state r' = state r))"
proof (induction qs arbitrary: st r)
  case Nil
  then show ?case by (simp add: others_def drifts_def)
next
  case (Cons q qs)
  let ?st = "snd (run_transition lib q st)"
  from run_transition_step [OF Cons.prems(1,2), of lib q] obtain r1 where
    r1: "store_ok ?st" "lookup_invocation c i ?st = Some r1"
      "r1 = r \<or> (\<exists>e. permits_with (state r) (req_target q) e \<and> state r1 = req_target q)" by blast
  have target: "req_target q \<noteq> Running" using Cons.prems(3) by (simp add: no_start_def)
  have "r1 = r \<or> drifts (state r) (state r1)"
    using r1(3) permits_drifts [OF _ target] by metis
  then have step: "drifts (state r) (state r1)" "is_terminal (state r) \<longrightarrow> state r1 = state r"
    using r1(3) terminal_no_edge by (auto simp: drifts_def)
  from Cons.IH [OF r1(1,2)] Cons.prems(3) obtain r2 where
    r2: "store_ok (others lib qs ?st)" "lookup_invocation c i (others lib qs ?st) = Some r2"
      "drifts (state r1) (state r2)" "is_terminal (state r1) \<longrightarrow> state r2 = state r1"
    by (auto simp: no_start_def)
  have "drifts (state r) (state r2)" using drifts_trans step(1) r2(3,4) by blast
  then show ?case using r2 step by (auto simp: others_def)
qed

lemma transition_goes:
  assumes "store_ok st" and "lookup_invocation c i st = Some r" and "permits_with (state r) t (patch_error patch)"
    and "\<And>u. patch_usage patch = Some u \<Longrightarrow> usage_ok u" and "\<forall>recs. fs recs = None"
  shows "\<exists>out st'. transition_outcome_for_claims lib fs now c i None t patch st = (Inr out, st')"
proof -
  from assms(2) obtain k where k: "position (\<lambda>r. inv_id r = i \<and> is_in_scope r c) (records st) = Some k" "records st ! k = r"
    by (auto simp: lookup_invocation_def find_position)
  have "\<not> is_terminal (state r)" using assms(3) terminal_no_edge by blast
  moreover have "(case patch_usage patch of None \<Rightarrow> Inr () | Some u \<Rightarrow> map_err InvalidUsage (validate_usage u)) = Inr ()"
    using assms(4) by (auto split: option.splits)
  ultimately show ?thesis
    using k assms(3,5) by (simp add: transition_outcome_for_claims_def Let_def commit_def persist_def)
qed

text \<open>A request for a final state that the lifecycle allows, or that comes too late, leaves a final state.\<close>

lemma transition_settles:
  assumes "store_ok st" and "lookup_invocation c i st = Some r" and "is_terminal t"
    and "is_terminal (state r) \<or> permits_with (state r) t (patch_error patch)"
    and "\<And>u. patch_usage patch = Some u \<Longrightarrow> usage_ok u" and "\<forall>recs. fs recs = None"
  shows "\<exists>q. lookup_invocation c i (snd (transition_outcome_for_claims lib fs now c i None t patch st)) = Some q
    \<and> is_terminal (state q)"
proof (cases "is_terminal (state r)")
  case True
  from run_transition_step [OF assms(1,2), of lib "\<lparr>req_fs = fs, req_now = now, req_claims = c, req_id = i,
      req_expected = None, req_target = t, req_patch = patch\<rparr>"] obtain r' where
    "lookup_invocation c i (snd (transition_outcome_for_claims lib fs now c i None t patch st)) = Some r'"
    "r' = r \<or> (\<exists>e. permits_with (state r) t e)"
    by (auto simp: run_transition_def)
  then show ?thesis using True terminal_no_edge by auto
next
  case False
  then obtain out st' where m: "transition_outcome_for_claims lib fs now c i None t patch st = (Inr out, st')"
    using transition_goes [OF assms(1,2)] assms(4-6) by blast
  then show ?thesis using transition_result [OF assms(1) m] assms(3) by simp
qed

lemma fail_pre_state:
  assumes "store_ok st" and "claims_from_invocation dbg r = Inr c"
    and "lookup_invocation c (inv_id r) (snd (fail_pre_execution dbg lib fs now (\<lambda>s. s) r cd msg st)) = Some q"
  shows "lookup_invocation c (inv_id r) st = Some q \<or> state q = Failed"
  using assms transition_state_of [OF assms(1), of c "inv_id r" lib fs now None Failed
      "no_patch\<lparr>patch_error := Some (new_error_info cd msg)\<rparr>" q]
  by (auto simp: fail_pre_execution_def transition_for_claims_outcome [symmetric] case_prod_beta split: sum.splits if_splits)

lemma failed_permitted:
  "\<not> is_terminal s \<Longrightarrow> s = Queued \<longrightarrow> pre_execution_code (code e) \<Longrightarrow> permits_with s Failed (Some e)"
  by (cases s) (simp_all add: permits_with_def)

lemma no_patch_usage [simp]: "patch_usage no_patch = None" "patch_usage (no_patch\<lparr>patch_error := e\<rparr>) = None"
  by (simp_all add: patch_usage_def no_patch_def)

text \<open>A record is settled when it is final or where the given state can drift.\<close>

lemma fail_pre_settles:
  assumes "store_ok st" and "lookup_invocation c (inv_id r) st = Some r0" and "claims_from_invocation dbg r = Inr c"
    and "pre_execution_code cd" and "no_start qs" and "\<forall>recs. fs recs = None"
  shows "\<exists>q. lookup_invocation c (inv_id r) (snd (fail_pre_execution dbg lib fs now (others lib qs) r cd msg st)) = Some q
    \<and> is_terminal (state q)"
proof (cases "is_terminal (state r0)")
  case True
  then show ?thesis using assms(2,3) by (simp add: fail_pre_execution_def get_lookup [THEN iffD2, OF assms(2)])
next
  case False
  from others_drift [OF assms(1,2,5)] obtain r1 where
    r1: "store_ok (others lib qs st)" "lookup_invocation c (inv_id r) (others lib qs st) = Some r1" by blast
  let ?patch = "no_patch\<lparr>patch_error := Some (new_error_info cd msg)\<rparr>"
  have "is_terminal (state r1) \<or> permits_with (state r1) Failed (patch_error ?patch)"
    using failed_permitted [of "state r1" "new_error_info cd msg"] assms(4) by auto
  from transition_settles [OF r1 _ this _ assms(6), where lib = lib and now = now] show ?thesis
    using False assms(3)
    by (auto simp: fail_pre_execution_def get_lookup [THEN iffD2, OF assms(2)]
        transition_for_claims_outcome [symmetric] split: prod.splits)
qed

lemma fail_running_settles:
  assumes "store_ok st" and "lookup_invocation c i st = Some r0" and "state r0 \<noteq> Queued"
    and "\<And>w. u = Some w \<Longrightarrow> usage_ok w" and "no_start qs" and "\<forall>recs. fs recs = None"
  shows "\<exists>q. lookup_invocation c i (snd (fail_running lib fs now (others lib qs) c i cd msg u st)) = Some q
    \<and> is_terminal (state q)"
proof (cases "is_terminal (state r0)")
  case True
  then show ?thesis using assms(2) by (simp add: fail_running_def get_lookup [THEN iffD2, OF assms(2)])
next
  case False
  from others_drift [OF assms(1,2,5)] obtain r1 where
    r1: "store_ok (others lib qs st)" "lookup_invocation c i (others lib qs st) = Some r1" "drifts (state r0) (state r1)" by blast
  let ?patch = "no_patch\<lparr>patch_error := Some (new_error_info cd msg),
      patch_result := map_option (\<lambda>u. \<lparr>summary = [], artifacts = [], usage = Some u\<rparr>) u\<rparr>"
  have "state r1 \<noteq> Queued" using drifts_started r1(3) assms(3) .
  then have "is_terminal (state r1) \<or> permits_with (state r1) Failed (patch_error ?patch)"
    using failed_permitted [of "state r1" "new_error_info cd msg"] by auto
  moreover have "\<And>w. patch_usage ?patch = Some w \<Longrightarrow> usage_ok w"
    using assms(4) by (cases u) (auto simp: patch_usage_def no_patch_def)
  ultimately have "\<exists>q. lookup_invocation c i (snd (transition_for_claims lib fs now c i None Failed ?patch (others lib qs st)))
      = Some q \<and> is_terminal (state q)"
    unfolding transition_for_claims_outcome using transition_settles [OF r1(1,2) _ _ _ assms(6), of Failed ?patch] by simp
  then show ?thesis
    using False by (auto simp: fail_running_def get_lookup [THEN iffD2, OF assms(2)] Let_def split: prod.splits)
qed


lemma apply_settles:
  assumes "store_ok st" and "lookup_invocation c (inv_id r) st = Some r0" and "state r0 \<noteq> Queued"
    and "no_start qs" and "\<forall>recs. fs recs = None"
  shows "\<exists>q. lookup_invocation c (inv_id r) (apply_task_outcome lib fs now (others lib qs) c r outcome st) = Some q
    \<and> is_terminal (state q)"
proof (cases rule: apply_task_outcome_cases [of r outcome lib fs now "others lib qs" c st])
  case (success u)
  let ?patch = "no_patch\<lparr>patch_result := Some (success_result r outcome)\<rparr>"
  have "is_terminal (state r0) \<or> permits_with (state r0) Succeeded (patch_error ?patch)"
    using assms(3) by (cases "state r0") (simp_all add: permits_with_def)
  moreover have "usage_ok w" if "patch_usage ?patch = Some w" for w
    using success(1) that by (auto simp: patch_usage_def no_patch_def success_result_def Let_def proves_success_def)
  ultimately show ?thesis
    using transition_settles [OF assms(1,2) _ _ _ assms(5), of Succeeded ?patch, where lib = lib and now = now] success(2)
    by simp
next
  case (failure cd msg u)
  then show ?thesis using fail_running_settles [OF assms(1-3) _ assms(4,5)] by metis
qed

lemma record_join_settles:
  assumes "store_ok st" and "lookup_invocation c (inv_id r) st = Some r0" and "state r0 \<noteq> Queued"
    and "env_others env DuringWrite = others (chrono (routes deps)) qs" and "no_start qs" and "\<forall>recs. env_fs env recs = None"
  shows "\<exists>q. lookup_invocation c (inv_id r) (record_join deps env c r False join st) = Some q \<and> is_terminal (state q)"
proof -
  note fail = fail_running_settles [OF assms(1-3) _ assms(5,6)]
  have ok: "(case u of None \<Rightarrow> Inr () | Some w \<Rightarrow> validate_usage w) = Inr x \<Longrightarrow> u = Some w \<Longrightarrow> usage_ok w" for u x w
    by (auto split: option.splits)
  show ?thesis
  proof (cases join)
    case (Joined outcome)
    then show ?thesis
    proof (cases "outcome_kind outcome = OutcomeCancelled")
      case True
      show ?thesis
      proof (cases "case outcome_usage outcome of None \<Rightarrow> Inr () | Some w \<Rightarrow> validate_usage w")
        case (Inl e)
        then show ?thesis using True Joined fail [of None] by (simp add: record_join_def Let_def assms(4))
      next
        case (Inr x)
        then show ?thesis using True Joined fail [OF ok [OF Inr]] by (simp add: record_join_def Let_def assms(4))
      qed
    next
      case False
      then show ?thesis
        using Joined apply_settles [OF assms(1-3,5,6)] by (simp add: record_join_def Let_def assms(4))
    qed
  qed (use fail [of None] in \<open>simp_all add: record_join_def Let_def assms(4)\<close>)
qed

lemma pre_codes:
  "pre_execution_code TASK_INIT_FAILED_ERROR_CODE" "pre_execution_code PROJECTION_CONTEXT_MISSING_ERROR_CODE"
  "pre_execution_code DEADLINE_EXCEEDED_ERROR_CODE"
  "fetch_and_verify_input_ref sha now reg c i u pinned dl = Inl (cd, msg) \<Longrightarrow> pre_execution_code cd"
  by (auto simp: pre_execution_code_def fetch_and_verify_input_ref_def Let_def
      split: sum.splits if_splits input_ref_error.splits)

text \<open>A run whose surroundings are other handlers' requests, without faults and without a cancel.\<close>

definition undisturbed :: "bridge_deps \<Rightarrow> run_env \<Rightarrow> bool" where
  "undisturbed deps env \<longleftrightarrow> (\<forall>p. env_cancelled env p = False \<and> (\<exists>qs. env_others env p = others (chrono (routes deps)) qs \<and> no_start qs))
     \<and> \<not> cancelled_before_fetch env \<and> \<not> cancelled_before_join env \<and> (\<forall>recs. env_fs env recs = None)"

lemma run_task_settles:
  assumes "undisturbed deps env" and "claims_from_invocation (show_debug deps) r = Inr c"
    and "store_ok st" and "lookup_invocation c (inv_id r) st = Some r0" and "state r0 = Queued \<or> is_terminal (state r0)"
  shows "\<exists>q. lookup_invocation c (inv_id r) (fst (run_task deps env c r t (st, sched))) = Some q \<and> is_terminal (state q)"
proof -
  let ?lib = "chrono (routes deps)"
  from assms(1) obtain qw qg qa where o: "env_others env DuringWrite = others ?lib qw" "no_start qw"
      "env_others env BeforeGate = others ?lib qg" "no_start qg"
      "env_others env AfterExecution = others ?lib qa" "no_start qa" and fs: "\<forall>recs. env_fs env recs = None"
    and calm: "\<not> env_cancelled env BeforeRunning" "\<not> cancelled_before_join env"
    unfolding undisturbed_def by metis
  note pre = fail_pre_settles [OF _ _ assms(2) _ o(2) fs]
  from others_drift [OF assms(3,4) o(4), where lib = ?lib] assms(5) obtain r1 where
    r1: "store_ok (others ?lib qg st)" "lookup_invocation c (inv_id r) (others ?lib qg st) = Some r1"
      "state r1 = Queued \<or> is_terminal (state r1)" using drifts_resting by metis
  show ?thesis
  proof (cases "init_task deps (prompt_from_invocation (routes deps) r t) c")
    case (Inl e)
    then show ?thesis using pre [OF assms(3,4) pre_codes(1)] by (simp add: run_task_def Let_def o(1))
  next
    case init: (Inr iri)
    show ?thesis
    proof (cases "gate deps iri c")
      case (Inl e)
      then show ?thesis using pre [OF r1(1,2) pre_codes(2)] init by (simp add: run_task_def Let_def o(1,3))
    next
      case gate: (Inr u)
      let ?patch = "no_patch\<lparr>patch_task_iri := Some iri\<rparr>"
      obtain res st2 where m: "transition_outcome_for_claims ?lib (env_fs env) (env_now env BeforeRunning) c (inv_id r) None
          Running ?patch (others ?lib qg st) = (res, st2)" by fastforce
      show ?thesis
      proof (cases res)
        case (Inl e)
        have u: "patch_usage ?patch = None" "patch_error ?patch = None" by (simp_all add: patch_usage_def no_patch_def)
        have "is_terminal (state r1)"
        proof (rule ccontr)
          assume "\<not> is_terminal (state r1)"
          then have "permits_with (state r1) Running (patch_error ?patch)" using r1(3) by (simp add: permits_with_def)
          from transition_goes [OF r1(1,2) this _ fs, where lib = ?lib and now = "env_now env BeforeRunning"] u show False using m Inl by auto
        qed
        moreover have "st2 = others ?lib qg st" using transition_error m Inl by blast
        ultimately show ?thesis
          using r1(2) init gate calm m Inl by (simp add: run_task_def Let_def o(3) transition_for_claims_def)
      next
        case (Inr out)
        from transition_result [OF r1(1) m [unfolded Inr]] have
          r2: "lookup_invocation c (inv_id r) st2 = Some (outcome_invocation out)" "state (outcome_invocation out) = Running" by simp_all
        have "store_ok st2" using store_ok_transition [OF r1(1) m] .
        from others_drift [OF this r2(1) o(6), where lib = ?lib] r2(2) obtain r3 where
          r3: "store_ok (others ?lib qa st2)" "lookup_invocation c (inv_id r) (others ?lib qa st2) = Some r3" "state r3 \<noteq> Queued"
          using drifts_started [of Running] by fastforce
        from record_join_settles [OF r3 o(1,2) fs] show ?thesis
          using init gate calm m Inr by (simp add: run_task_def Let_def o(3,5) transition_for_claims_def)
      qed
    qed
  qed
qed

text \<open>
  C14: a run ends its invocation: with working writes and no cancel, whatever the reference, the task,
  the gate and the executor answer, panics included, and whatever requests other handlers make
  meanwhile, the invocation is in a final state when the run returns.
\<close>

theorem run_ends_invocation:
  assumes "undisturbed deps env" and "claims_from_invocation (show_debug deps) r = Inr c"
    and "store_ok st" and "lookup_invocation c (inv_id r) st = Some r0" and "state r0 = Queued"
  shows "\<exists>q. lookup_invocation c (inv_id r) (fst (run_invocation deps env refs r (st, sched))) = Some q
    \<and> is_terminal (state q)"
proof -
  let ?lib = "chrono (routes deps)"
  from assms(1) obtain qw qf qi where o: "env_others env DuringWrite = others ?lib qw" "no_start qw"
      "env_others env BeforeFetch = others ?lib qf" "no_start qf"
      "env_others env BeforeInit = others ?lib qi" "no_start qi" and fs: "\<forall>recs. env_fs env recs = None"
    and calm: "\<not> env_cancelled env AtStart" "\<not> cancelled_before_fetch env"
    unfolding undisturbed_def by metis
  have next_state: "store_ok (others ?lib qs s) \<and> (\<exists>q1. lookup_invocation c (inv_id r) (others ?lib qs s) = Some q1
      \<and> (state q1 = Queued \<or> is_terminal (state q1)))"
    if "no_start qs" "store_ok s" "lookup_invocation c (inv_id r) s = Some q0" "state q0 = Queued \<or> is_terminal (state q0)"
    for qs s q0
    using others_drift [OF that(2,3,1), where lib = ?lib] that(4) drifts_resting by metis
  show ?thesis
  proof (cases "input_ref (inv_request r)")
    case None
    then show ?thesis
      using next_state [OF o(6) assms(3,4)] assms(5) run_task_settles [OF assms(1,2)] assms(2) calm
      by (auto simp: run_invocation_def Let_def o(5))
  next
    case (Some ref)
    from next_state [OF o(4) assms(3,4)] assms(5) obtain q1 where
      q1: "store_ok (others ?lib qf st)" "lookup_invocation c (inv_id r) (others ?lib qf st) = Some q1"
        "state q1 = Queued \<or> is_terminal (state q1)" by auto
    show ?thesis
    proof (cases "fetch_and_verify_input_ref (digest_hex (routes deps)) (env_now env BeforeFetch) refs c
        (inv_id r) (uri ref) (sha256 ref) (run_deadline ?lib (env_now env BeforeFetch) r)")
      case (Inl e)
      obtain cd msg where e: "e = (cd, msg)" by fastforce
      show ?thesis
        using fail_pre_settles [OF q1(1,2) assms(2) pre_codes(4) o(2) fs] Inl e Some assms(2) calm
        by (simp add: run_invocation_def Let_def o(1,3))
    next
      case (Inr fetched)
      then show ?thesis
        using next_state [OF o(6) q1] run_task_settles [OF assms(1,2)] Some assms(2) calm
        by (auto simp: run_invocation_def Let_def o(3,5))
    qed
  qed
qed

text \<open>
  C17: a deadline is enforced: when the watch of a stored deadline elapses, with working writes, the
  invocation is in a final state, whatever requests other handlers make; one that was unfinished has
  its token fired, and is failed with the deadline code where nobody else decided first.
\<close>

theorem deadline_enforced:
  assumes "deadline (inv_request r) \<noteq> None" and "claims_from_invocation dbg r = Inr c"
    and "store_ok st" and "lookup_invocation c (inv_id r) st = Some r0"
    and "no_start qs" and "\<forall>recs. fs recs = None"
    and "watch_deadline dbg lib fs now (others lib qs) Elapsed r tok (reg, st, sched) = (reg', st', sched')"
  shows "\<exists>q. lookup_invocation c (inv_id r) st' = Some q \<and> is_terminal (state q)
    \<and> (is_terminal (state r0) \<longrightarrow> q = r0) \<and> (\<not> is_terminal (state r0) \<longrightarrow> tok \<in> fired reg')
    \<and> (qs = [] \<and> \<not> is_terminal (state r0) \<longrightarrow> state q = Failed)"
proof (cases "is_terminal (state r0)")
  case True
  then show ?thesis using assms(1,2,4,7) by (auto simp: watch_deadline_def get_lookup [THEN iffD2, OF assms(4)])
next
  case False
  let ?st = "others lib qs st"
  let ?fin = "snd (fail_pre_execution dbg lib fs now (others lib qs) r DEADLINE_EXCEEDED_ERROR_CODE ''deadline exceeded'' ?st)"
  have w: "st' = ?fin" "tok \<in> fired reg'"
    using False assms(1,2,7) by (auto simp: watch_deadline_def get_lookup [THEN iffD2, OF assms(4)])
  from others_drift [OF assms(3,4,5)] obtain r1 where
    r1: "store_ok ?st" "lookup_invocation c (inv_id r) ?st = Some r1" by blast
  from fail_pre_settles [OF r1 assms(2) pre_codes(3) assms(5,6)] obtain q where
    q: "lookup_invocation c (inv_id r) st' = Some q" "is_terminal (state q)" unfolding w by blast
  have "state q = Failed" if "qs = []"
  proof -
    have idle: "others lib [] = (\<lambda>s. s)" by (simp add: others_def fun_eq_iff)
    show ?thesis
      using fail_pre_state [OF assms(3,2), of lib fs now] q w(1) False assms(4) unfolding that idle by auto
  qed
  then show ?thesis using q w(2) False by blast
qed

section \<open>A run keeps to its record\<close>

definition records_besides :: "string \<Rightarrow> invocation_store \<Rightarrow> invocation list" where
  "records_besides i st = filter (\<lambda>r. inv_id r \<noteq> i) (records st)"

lemma transition_besides [frame, simp]:
  "records_besides i (snd (transition_for_claims lib fs now c i e t patch st)) = records_besides i st"
proof -
  obtain res st' where run: "transition_outcome_for_claims lib fs now c i e t patch st = (res, st')" by fastforce
  have "records_besides i st' = records_besides i st"
  proof (cases "\<exists>out. res = Inr out \<and> changed out")
    case False
    then show ?thesis using transition_no_change [OF run] by simp
  next
    case True
    then obtain out where "changed out" and "transition_outcome_for_claims lib fs now c i e t patch st = (Inr out, st')"
      using run by blast
    then show ?thesis
      by (elim transition_changed [rotated]) (auto simp: records_besides_def intro!: filter_list_update)
  qed
  then show ?thesis by (simp add: transition_for_claims_outcome run)
qed

lemma failure_besides [frame, simp]:
  "records_besides (inv_id r) (snd (fail_pre_execution dbg lib fs now (\<lambda>s. s) r cd msg st)) = records_besides (inv_id r) st"
  "records_besides i (snd (fail_running lib fs now (\<lambda>s. s) c i cd msg u st)) = records_besides i st"
  by (simp_all add: fail_pre_execution_def fail_running_def Let_def case_prod_beta split: sum.splits)

lemma apply_besides [frame, simp]:
  "records_besides (inv_id r) (apply_task_outcome lib fs now (\<lambda>s. s) c r outcome st) = records_besides (inv_id r) st"
  by (cases rule: apply_task_outcome_cases [of r outcome lib fs now "\<lambda>s. s" c st])
    (simp_all add: transition_for_claims_outcome [symmetric])

lemma record_join_besides [frame, simp]:
  "env_others env DuringWrite = (\<lambda>s. s) \<Longrightarrow>
   records_besides (inv_id r) (record_join deps env c r asked join st) = records_besides (inv_id r) st"
  by (auto simp: record_join_def Let_def split: join_result.splits sum.splits)

text \<open>
  A run keeps to its record: whatever its resolver, task, gate and executor answer, and also
  when it is cancelled or its writes fail, every other record is stored as before, in the same
  order, and no slot is taken or freed.
\<close>

theorem run_keeps_to_its_record:
  assumes "\<forall>p. env_others env p = (\<lambda>s. s)"
  shows "records_besides (inv_id r) (fst (run_invocation deps env refs r (st, sched))) = records_besides (inv_id r) st
    \<and> slots (snd (run_invocation deps env refs r (st, sched))) = slots sched"
proof -
  have "records_besides (inv_id r) (fst (run_task deps env c r t s)) = records_besides (inv_id r) (fst s)" for c t s
    using assms transition_besides [of "inv_id r"]
    by (simp add: run_task_def Let_def case_prod_beta split: sum.splits)
  then show ?thesis
    using assms by (auto simp: run_invocation_def Let_def run_invocation_slots split: sum.splits prod.splits option.splits)
qed

section \<open>Concrete runs\<close>

definition sample_usage :: invocation_usage where
  "sample_usage = \<lparr>provider = None, usage_model = Some ''m'', input_tokens = Some 1, output_tokens = Some 2, cost = Some 3,
     usage_cost_source = Some ConfigPriceTable, tool_calls = None\<rparr>"

definition sample_outcome :: task_outcome where
  "sample_outcome = \<lparr>outcome_kind = OutcomeCompleted, outcome_status = ''completed'', outcome_summary = [],
     outcome_usage = Some sample_usage\<rparr>"

definition sample_deps :: bridge_deps where
  "sample_deps = \<lparr>routes = sample_lib, show_debug = (\<lambda>s. s), init_task = (\<lambda>_ _. Inr ''t1''),
     gate = (\<lambda>_ _. Inr ()), execute = (\<lambda>_. Joined sample_outcome)\<rparr>"

definition sample_env :: run_env where
  "sample_env = \<lparr>env_now = (\<lambda>_. 0), env_fs = no_fault, env_others = (\<lambda>_ s. s), env_cancelled = (\<lambda>_. False),
     cancelled_before_fetch = False, cancelled_before_join = False\<rparr>"

definition run_claims :: isolation_claims where
  "run_claims = sample_claims\<lparr>provenance := DeploymentConfig\<rparr>"

lemma sample_lookup: "lookup_invocation run_claims ''i1'' sample_after = Some sample_accepted"
  by (simp add: lookup_invocation_def sample_after_def sample_empty_def sample_accepted_def is_in_scope_def run_claims_def)

lemma sample_names: "from_verified ''t1'' ''p1'' ''a1'' = Inr run_claims"
  by code_simp

lemma sample_claims_from: "claims_from_invocation dbg sample_accepted = Inr run_claims"
  by (simp add: claims_from_invocation_def sample_accepted_def sample_claims_def sample_names)

lemma sample_undisturbed: "undisturbed sample_deps sample_env"
proof -
  have "(\<lambda>s. s) = others lib []" for lib by (simp add: others_def fun_eq_iff)
  then show ?thesis by (auto simp: undisturbed_def sample_env_def no_start_def no_fault_def intro!: exI [of _ "[]"])
qed

lemma sample_accepted_fields [simp]: "inv_id sample_accepted = ''i1''" "state sample_accepted = Queued"
  by (simp_all add: sample_accepted_def)

definition sample_due :: invocation where
  "sample_due = sample_accepted\<lparr>inv_request := (inv_request sample_accepted)\<lparr>deadline := Some ''0''\<rparr>\<rparr>"

theorem run_ends_invocation_witness:
  "\<exists>q. lookup_invocation run_claims ''i1''
       (fst (run_invocation sample_deps sample_env new_registry sample_accepted (sample_after, new_scheduler default_running_limits)))
     = Some q \<and> is_terminal (state q)"
  using run_ends_invocation [OF sample_undisturbed sample_claims_from sample_after_ok, of sample_accepted] sample_lookup
  by simp

theorem run_keeps_to_its_record_witness:
  "records_besides ''i1'' (fst (run_invocation sample_deps sample_env new_registry sample_accepted
      (sample_after, new_scheduler default_running_limits))) = []"
  using run_keeps_to_its_record [of sample_env sample_accepted]
  by (simp add: sample_env_def) (simp add: records_besides_def sample_after_def)

theorem deadline_enforced_witness:
  "\<exists>q. lookup_invocation run_claims ''i1'' (fst (snd (watch_deadline (\<lambda>s. s) sample_chrono no_fault 0
       (others sample_chrono []) Elapsed sample_due 7 (\<lparr>tokens = Map.empty, fired = {}, next_token = 8\<rparr>,
       sample_after, new_scheduler default_running_limits)))) = Some q \<and> state q = Failed"
proof -
  have r: "inv_id sample_due = ''i1''" "deadline (inv_request sample_due) \<noteq> None" by (simp_all add: sample_due_def)
  have c: "claims_from_invocation dbg sample_due = Inr run_claims" for dbg
    using sample_claims_from by (simp add: claims_from_invocation_def sample_due_def)
  obtain reg st d where w: "watch_deadline (\<lambda>s. s) sample_chrono no_fault 0 (others sample_chrono []) Elapsed sample_due 7
      (\<lparr>tokens = Map.empty, fired = {}, next_token = 8\<rparr>, sample_after, new_scheduler default_running_limits) = (reg, st, d)"
    by (metis prod.collapse)
  from deadline_enforced [OF r(2) c sample_after_ok sample_lookup [folded r(1)] _ _ w] show ?thesis
    by (auto simp: r w no_start_def no_fault_def)
qed

definition started_store :: invocation_store where
  "started_store = snd (transition_outcome_for_claims sample_chrono no_fault 0 run_claims ''i1'' None Running no_patch sample_after)"

lemma sample_running:
  "\<exists>r. store_ok started_store \<and> lookup_invocation run_claims ''i1'' started_store = Some r \<and> state r = Running"
proof -
  have "permits_with (state sample_accepted) Running (patch_error no_patch)" by (simp add: permits_with_def)
  from transition_goes [OF sample_after_ok sample_lookup this, where lib = sample_chrono and fs = no_fault and now = 0]
  obtain out where
    m: "transition_outcome_for_claims sample_chrono no_fault 0 run_claims ''i1'' None Running no_patch sample_after
      = (Inr out, started_store)"
    by (auto simp: started_store_def no_fault_def)
  show ?thesis using transition_result [OF sample_after_ok m] store_ok_transition [OF sample_after_ok m] by blast
qed

lemma trim_m: "trim ''m'' = ''m''"
  by code_simp

lemma sample_success:
  "\<exists>q. lookup_invocation run_claims ''i1'' (record_join sample_deps sample_env run_claims sample_accepted False
       (Joined sample_outcome) started_store) = Some q \<and> state q = Succeeded"
proof -
  obtain r where r: "store_ok started_store" "lookup_invocation run_claims ''i1'' started_store = Some r"
    "state r = Running" using sample_running by blast
  let ?patch = "no_patch\<lparr>patch_result := Some \<lparr>summary = scrub_result_summary [], artifacts = [], usage = Some sample_usage\<rparr>\<rparr>"
  have ok: "usage_ok sample_usage" "validate_usage sample_usage = Inr ()" "missing_usage_fields sample_usage = []"
    by (simp_all add: usage_ok_def sample_usage_def missing_usage_fields_def trim_m)
  have go: "record_join sample_deps sample_env run_claims sample_accepted False (Joined sample_outcome) started_store
      = snd (transition_outcome_for_claims sample_chrono no_fault 0 run_claims ''i1'' None Succeeded ?patch started_store)"
    by (simp add: ok(2,3) fresh_record_def record_join_def sample_outcome_def apply_task_outcome_def sample_deps_def sample_env_def
        status_is_success_def sample_accepted_def sample_keyed_def sample_request_def structured_artifacts_def
        succeeded_patch_or_reject_def require_complete_usage_for_succeeded_def Let_def
        transition_for_claims_outcome)
  have "permits_with (state r) Succeeded (patch_error ?patch)" using r(3) by (simp add: permits_with_def)
  moreover have "usage_ok u" if "patch_usage ?patch = Some u" for u
    using that ok(1) by (auto simp: patch_usage_def no_patch_def)
  ultimately obtain out st' where
    m: "transition_outcome_for_claims sample_chrono no_fault 0 run_claims ''i1'' None Succeeded ?patch started_store
      = (Inr out, st')"
    using transition_goes [OF r(1,2), of Succeeded ?patch no_fault sample_chrono 0] by (auto simp: no_fault_def)
  then show ?thesis using transition_result [OF r(1) m] by (simp add: go)
qed

theorem success_is_proven_witness:
  "\<exists>q. lookup_invocation run_claims ''i1'' (record_join sample_deps sample_env run_claims sample_accepted False
       (Joined sample_outcome) started_store) = Some q \<and> inv_result q = Some (success_result sample_accepted sample_outcome)"
proof -
  obtain r where r: "store_ok started_store" "lookup_invocation run_claims ''i1'' started_store = Some r"
    "state r = Running" using sample_running by blast
  obtain q where q: "lookup_invocation run_claims ''i1'' (record_join sample_deps sample_env run_claims sample_accepted False
       (Joined sample_outcome) started_store) = Some q" "state q = Succeeded"
    using sample_success by blast
  have "r \<noteq> q" using r(3) q(2) by auto
  then show ?thesis
    using success_is_proven [of started_store sample_env run_claims sample_accepted sample_deps False "Joined sample_outcome" q]
      q r by (simp add: sample_env_def)
qed

definition sample_wake :: wakeup where
  "sample_wake = \<lparr>wake_now = 0, wake_fs = no_fault, wake_cancelled = False, wake_store = (\<lambda>s. s), wake_sched = (\<lambda>d. d),
     store_between = (\<lambda>s. s), sched_between = (\<lambda>d. d)\<rparr>"

lemma sample_slots: "slots_ok (slots (new_scheduler default_running_limits))"
  by (simp add: new_scheduler_def slots_ok_new)

theorem slot_granted_in_order_witness:
  "\<exists>q \<in> waiting_in \<lparr>scope_tenant_id = ''t1'', scope_project_id = ''p1''\<rparr> {} sample_after. inv_id q = ''i1''"
proof -
  let ?scope = "\<lparr>scope_tenant_id = ''t1'', scope_project_id = ''p1''\<rparr>"
  have "oldest_queued_in_scope_excluding ''t1'' ''p1'' {} sample_after = Some sample_accepted"
    by (simp add: oldest_queued_in_scope_excluding_def sample_after_def min_by_key_def)
      (simp add: sample_accepted_def sample_claims_def)
  moreover have "fst (try_admit ?scope ''i1'' (new_scheduler default_running_limits))" by code_simp
  ultimately obtain d where a: "admit_attempt sample_deps sample_wake ?scope sample_accepted
      (sample_after, new_scheduler default_running_limits) = (GotSlot, sample_after, d)"
    using sample_claims_from get_lookup [THEN iffD2, OF sample_lookup]
    by (cases "try_admit ?scope ''i1'' (new_scheduler default_running_limits)")
      (auto simp: admit_attempt_def Let_def sample_wake_def admitted_ids_def new_scheduler_def new_slots_def)
  show ?thesis
    using slot_granted_in_order [OF a] sample_slots
    by (auto simp: sample_wake_def admitted_ids_def new_scheduler_def new_slots_def)
qed

theorem slot_given_back_witness:
  "\<exists>st d. admit_and_run sample_deps sample_env new_registry (\<lambda>d. d) \<lparr>scope_tenant_id = ''t1'', scope_project_id = ''p1''\<rparr>
       sample_accepted [sample_wake\<lparr>wake_cancelled := True\<rparr>] (sample_after, new_scheduler default_running_limits) = Some (st, d)
     \<and> ''i1'' \<notin> admitted_ids (slots d)"
proof -
  have "\<exists>st d. admit_and_run sample_deps sample_env new_registry (\<lambda>d. d) \<lparr>scope_tenant_id = ''t1'', scope_project_id = ''p1''\<rparr>
       sample_accepted [sample_wake\<lparr>wake_cancelled := True\<rparr>] (sample_after, new_scheduler default_running_limits) = Some (st, d)"
    using get_lookup [THEN iffD2, OF sample_lookup]
    by (simp add: admit_attempt_def sample_wake_def sample_claims_from Let_def)
  then show ?thesis
    using slot_given_back [OF _ sample_slots, where r = sample_accepted and others_sched = "\<lambda>d. d" and scope = 
        "\<lparr>scope_tenant_id = ''t1'', scope_project_id = ''p1''\<rparr>"]
    by (fastforce simp: fair_def sample_wake_def admitted_ids_def new_scheduler_def new_slots_def)
qed

end
