(* ===== verification/Guard_Properties.thy ===== *)
theory Guard_Properties
  imports Running_Slots Isolation
begin

text \<open>
  The properties of the two guards every request passes: the names a verified scope mints, and the
  caps, budgets and deadlines that bound what it may run.
\<close>

section \<open>Names\<close>

text \<open>
  C18: verified scopes never share storage: for two callers whose claims were minted from verified
  token parts, of another tenant or another project, the graph and vector names differ and no object
  key lies under both prefixes; callers of different tenants have different directories, each exactly
  one level below the data root.
\<close>

theorem scopes_share_no_storage:
  assumes "from_verified_jwt t p a pr m = Inr c" and "from_verified_jwt t' p' a' pr' m' = Inr d"
    and "t \<noteq> t' \<or> p \<noteq> p'"
  shows "graph_iri c \<noteq> graph_iri d \<and> vector_namespace c \<noteq> vector_namespace d
    \<and> (\<exists>x y. object_key_prefix c = Inr x \<and> object_key_prefix d = Inr y
         \<and> \<not> (\<exists>k. starts_with x k \<and> starts_with y k))
    \<and> (t \<noteq> t' \<longrightarrow> l0_path c \<noteq> l0_path d) \<and> l0_path c = Inr (''/data/l0/'' @ t) \<and> CHR ''/'' \<notin> set t"
proof -
  have c: "claims_ok c" "tenant_id c = t" "project_id c = p" and d: "claims_ok d" "tenant_id d = t'" "project_id d = p'"
    using assms(1,2) by (auto simp: from_verified_jwt_def and_then_Inr_iff from_verified_Inr_iff claims_ok_def)
  obtain x y where xy: "object_key_prefix c = Inr x" "object_key_prefix d = Inr y"
    using object_naming.mint_total c(1) d(1) by blast
  moreover have "\<not> (\<exists>k. starts_with x k \<and> starts_with y k)"
    using object_prefix_inject [OF xy] assms(3) c(2,3) d(2,3) by auto
  moreover have path: "l0_path c = Inr (''/data/l0/'' @ t)" "l0_path d = Inr (''/data/l0/'' @ t')"
    using c d by (simp_all add: l0_path_Inr_iff claims_ok_def)
  moreover have "CHR ''/'' \<notin> set t"
    using c by (auto simp: claims_ok_def dest: safe_identifier_no_slash)
  ultimately show ?thesis
    using graph_naming.scopes_disjoint [OF c(1) d(1)] vector_naming.scopes_disjoint [OF c(1) d(1)] assms(3) c d by auto
qed

theorem scopes_share_no_storage_witness:
  "\<exists>c d. from_verified_jwt ''t1'' ''p1'' ''a1'' VerifiedExplicit None = Inr c
     \<and> from_verified_jwt ''t1'' ''p2'' ''a1'' VerifiedExplicit None = Inr d \<and> graph_iri c \<noteq> graph_iri d"
proof -
  obtain c where c: "from_verified_jwt ''t1'' ''p1'' ''a1'' VerifiedExplicit None = Inr c"
    by (simp add: from_verified_jwt_def and_then_Inr_iff from_verified_Inr_iff safe_identifier_def
        is_safe_identifier_byte_def is_ascii_alphanumeric_def is_ascii_digit_def is_ascii_lowercase_def)
  obtain d where d: "from_verified_jwt ''t1'' ''p2'' ''a1'' VerifiedExplicit None = Inr d"
    by (simp add: from_verified_jwt_def and_then_Inr_iff from_verified_Inr_iff safe_identifier_def
        is_safe_identifier_byte_def is_ascii_alphanumeric_def is_ascii_digit_def is_ascii_lowercase_def)
  show ?thesis using scopes_share_no_storage [OF c d] c d by auto
qed

section \<open>Caps\<close>

text \<open>Any sequence of admissions and releases, as the dispatched tasks make them.\<close>

definition slot_history :: "((running_scope \<times> string) + string) list \<Rightarrow> running_limits \<Rightarrow> fifo_running_slots" where
  "slot_history us limits = slots (fold (\<lambda>u d. case u of Inl (sc, i) \<Rightarrow> snd (try_admit sc i d)
     | Inr i \<Rightarrow> snd (release_now i d)) us (new_scheduler limits))"

lemma slot_history_uses: "slot_history us limits = slots (scheduler.uses us (new_scheduler limits))"
proof -
  have "fold (\<lambda>u d. case u of Inl (sc, i) \<Rightarrow> snd (try_admit sc i d) | Inr i \<Rightarrow> snd (release_now i d)) us d
      = scheduler.uses us d" for d
  proof (induction us arbitrary: d)
    case (Cons u us)
    then show ?case by (cases u) auto
  qed simp
  then show ?thesis by (simp add: slot_history_def)
qed

lemma slot_history_ok: "slots_ok (slot_history us limits)" "slot_limits (slot_history us limits) = limits"
proof -
  have "slots_ok (slots (new_scheduler limits))" by (simp add: new_scheduler_def slots_ok_new)
  then show "slots_ok (slot_history us limits)" unfolding slot_history_uses by (rule scheduler.uses_ok)
  have "slot_limits (slots (scheduler.uses us d)) = slot_limits (slots d)" for d
  proof (induction us arbitrary: d)
    case (Cons u us)
    then show ?case by (cases u) (auto simp: scheduler_slots)
  qed simp
  then show "slot_limits (slot_history us limits) = limits"
    by (simp add: slot_history_uses new_scheduler_def new_slots_def)
qed

text \<open>
  C19: the caps hold at every moment: after any sequence of admissions and releases, repeated and
  out-of-order ones included, the invocations that hold a slot are within the global cap, those of
  each tenant within the tenant's and those of each tenant and project within theirs, and the three
  counters are exactly these numbers.
\<close>

theorem caps_never_exceeded:
  "let s = slot_history us limits;
       all = {i. admitted s i \<noteq> None};
       of_tenant = (\<lambda>t. {i. \<exists>sc. admitted s i = Some sc \<and> scope_tenant_id sc = t});
       of_scope = (\<lambda>sc. {i. admitted s i = Some sc})
   in finite all \<and> card all \<le> limit_global limits \<and> global s = card all
     \<and> (\<forall>t. card (of_tenant t) \<le> limit_per_tenant limits \<and> tenant_running s t = card (of_tenant t))
     \<and> (\<forall>sc. card (of_scope sc) \<le> limit_per_scope limits \<and> scope_running s sc = card (of_scope sc))"
proof -
  let ?s = "slot_history us limits"
  note ok = slot_history_ok(1) [of us limits] slot_history_ok(2) [of us limits]
  have "card {i. \<exists>sc. admitted ?s i = Some sc \<and> scope_tenant_id sc = t} = tenant_running ?s t" for t
    using ok(1) by (simp add: slots_ok_def counts_def tenant_running_def count_where_def)
  moreover have "card {i. admitted ?s i = Some sc} = scope_running ?s sc" for sc
    using ok(1) by (simp add: slots_ok_def counts_def scope_running_def count_where_def)
  moreover have "{i. admitted ?s i \<noteq> None} = dom (admitted ?s)" by auto
  ultimately show ?thesis
    using ok by (simp only: Let_def slots_ok_def) simp
qed

text \<open>
  A slot is freed once: after a release, and any further admissions and releases of other
  invocations, releasing the same invocation again frees nothing and leaves every counter as it is.
\<close>

theorem slot_freed_once:
  assumes "\<forall>sc. Inl (sc, i) \<notin> set vs"
  shows "slots_release i (slot_history (us @ Inr i # vs) limits) = (False, slot_history (us @ Inr i # vs) limits)"
proof -
  have append: "scheduler.uses (us @ vs) d = scheduler.uses vs (scheduler.uses us d)" for us vs d
    by (induction us arbitrary: d) simp_all
  let ?d = "scheduler.uses us (new_scheduler limits)"
  have "fst (release_now i (scheduler.uses vs (snd (release_now i ?d)))) = False"
    using scheduler.release_once [OF assms] .
  then have "fst (slots_release i (slot_history (us @ Inr i # vs) limits)) = False"
    by (simp add: slot_history_uses append scheduler_slots)
  then show ?thesis by (auto simp: slots_release_def split: option.splits)
qed

theorem slot_freed_once_witness:
  "slots_release ''i1'' (slot_history [Inl (\<lparr>scope_tenant_id = ''t1'', scope_project_id = ''p1''\<rparr>, ''i1''), Inr ''i1'',
       Inl (\<lparr>scope_tenant_id = ''t1'', scope_project_id = ''p1''\<rparr>, ''i2'')] default_running_limits)
   = (False, slot_history [Inl (\<lparr>scope_tenant_id = ''t1'', scope_project_id = ''p1''\<rparr>, ''i1''), Inr ''i1'',
       Inl (\<lparr>scope_tenant_id = ''t1'', scope_project_id = ''p1''\<rparr>, ''i2'')] default_running_limits)"
  using slot_freed_once [of "''i1''" "[Inl (\<lparr>scope_tenant_id = ''t1'', scope_project_id = ''p1''\<rparr>, ''i2'')]"
      "[Inl (\<lparr>scope_tenant_id = ''t1'', scope_project_id = ''p1''\<rparr>, ''i1'')]" default_running_limits]
  by simp

section \<open>Budgets and deadlines\<close>

text \<open>
  The budget check is exact: usage exceeds a budget exactly when, in unbounded arithmetic, the
  reported tokens, tool calls or cost are above a limit that is set, although the code adds 64-bit
  counters with saturation; a limit of the largest number is no limit, and usage that was not
  reported never exceeds one.
\<close>

theorem budget_check_exact:
  assumes "case tool_calls u of None \<Rightarrow> True | Some calls \<Rightarrow> length calls < 2 ^ 64"
  shows "budget_is_exceeded b u \<longleftrightarrow>
    (case max_tokens b of None \<Rightarrow> False
     | Some m \<Rightarrow> m \<noteq> - 1 \<and> unat m < unat (value_or_0 (input_tokens u)) + unat (value_or_0 (output_tokens u)))
    \<or> (case (max_tool_calls b, tool_calls u) of (Some m, Some calls) \<Rightarrow> unat m < length calls | _ \<Rightarrow> False)
    \<or> (case (max_cost b, cost u) of (Some m, Some c) \<Rightarrow> unat m < unat c | _ \<Rightarrow> False)"
proof -
  have tokens: "(\<not> (input_tokens u = None \<and> output_tokens u = None))
      \<or> \<not> (unat m < unat (value_or_0 (input_tokens u)) + unat (value_or_0 (output_tokens u)))" for m :: u64
    by (auto simp: value_or_0_def)
  have calls: "(of_nat (length calls) :: u64) > m \<longleftrightarrow> unat m < length calls" if "tool_calls u = Some calls" for calls m
    using assms that by (simp add: word_less_nat_alt unat_of_nat take_bit_nat_eq_self)
  have "(input_tokens u \<noteq> None \<or> output_tokens u \<noteq> None)
      \<and> m < saturating_add (value_or_0 (input_tokens u)) (value_or_0 (output_tokens u))
    \<longleftrightarrow> m \<noteq> - 1 \<and> unat m < unat (value_or_0 (input_tokens u)) + unat (value_or_0 (output_tokens u))" for m
    using tokens [of m] unfolding saturating_exceeds by auto
  moreover have "m < c \<longleftrightarrow> unat m < unat c" for m c :: u64 by (rule word_less_nat_alt)
  ultimately show ?thesis
    using calls by (auto simp: budget_is_exceeded_def Let_def split: option.splits if_splits)
qed

theorem budget_check_exact_witness:
  "budget_is_exceeded \<lparr>max_tokens = Some 5, max_tool_calls = None, max_cost = None\<rparr>
     \<lparr>provider = None, usage_model = None, input_tokens = Some (- 1), output_tokens = Some 1, cost = None,
      usage_cost_source = None, tool_calls = None\<rparr>"
  using budget_check_exact [of "\<lparr>provider = None, usage_model = None, input_tokens = Some (- 1), output_tokens = Some 1,
      cost = None, usage_cost_source = None, tool_calls = None\<rparr>"
      "\<lparr>max_tokens = Some 5, max_tool_calls = None, max_cost = None\<rparr>"]
  by (simp add: value_or_0_def unat_max_u64)

end
