(* ===== verification/Api_Keys.thy ===== *)
theory Api_Keys
  imports Invocation_Record Json Rust_Text
begin

text \<open>
  Published APIs and their inbound keys (\<open>src/api/http/api_gov.rs\<close>): clients and keys, the quarantine of
  client identifiers that two tenants use, the resolution of a bearer token, who may manage a key, the
  audit log a tenant may read, and the limits of a client. SHA-256 and the calendar are parameters.
\<close>

section \<open>Clients and keys\<close>

record rate_limit =
  rl_rpm :: u32
  rl_concurrency :: u32

record quota =
  q_daily :: u64
  q_monthly :: u64

definition default_rate_limit :: rate_limit where
  "default_rate_limit = \<lparr>rl_rpm = 60, rl_concurrency = 4\<rparr>"

definition default_quota :: quota where
  "default_quota = \<lparr>q_daily = 0, q_monthly = 0\<rparr>"

record api_client =
  cl_id :: string
  cl_name :: string
  cl_description :: string
  cl_tenant_id :: string
  cl_owner :: string
  cl_granted_agent_ids :: "string list"
  cl_status :: string
  cl_rate_limit :: rate_limit
  cl_quota :: quota
  cl_created_at :: string
  cl_updated_at :: string

record api_key =
  key_id :: string
  key_name :: string
  key_client_id :: string
  key_prefix :: string
  key_hash :: string
  key_status :: string
  key_last_used_at :: "string option"
  key_expires_at :: "string option"
  key_created_at :: string

section \<open>Identifiers used by two tenants\<close>

definition CLIENT_ID_CONFLICT_STATUS :: string where
  "CLIENT_ID_CONFLICT_STATUS = ''id_conflict''"

definition cross_tenant_client_id_collisions :: "api_client list \<Rightarrow> string \<rightharpoonup> string set" where
  "cross_tenant_client_id_collisions clients =
     (let tenants_by_id = fold (\<lambda>c m. m(cl_id c \<mapsto>
            insert (cl_tenant_id c) (case m (cl_id c) of None \<Rightarrow> {} | Some ts \<Rightarrow> ts))) clients Map.empty
      in (\<lambda>i. case tenants_by_id i of None \<Rightarrow> None | Some ts \<Rightarrow> if card ts > 1 then Some ts else None))"

definition quarantine_cross_tenant_client_ids :: "api_client list \<Rightarrow> nat \<times> api_client list" where
  "quarantine_cross_tenant_client_ids clients =
     (let collisions = cross_tenant_client_id_collisions clients
      in (length (filter (\<lambda>c. collisions (cl_id c) \<noteq> None) clients),
          map (\<lambda>c. if collisions (cl_id c) \<noteq> None then c\<lparr>cl_status := CLIENT_ID_CONFLICT_STATUS\<rparr> else c) clients))"

text \<open>A client file that is missing or unreadable loads as no clients.\<close>

definition load_api_clients :: "api_client list option \<Rightarrow> api_client list" where
  "load_api_clients stored =
     snd (quarantine_cross_tenant_client_ids (case stored of None \<Rightarrow> [] | Some cs \<Rightarrow> cs))"

definition load_api_keys :: "api_key list option \<Rightarrow> api_key list" where
  "load_api_keys stored = (case stored of None \<Rightarrow> [] | Some ks \<Rightarrow> ks)"

definition legacy_audit_client_ids :: "api_client list \<Rightarrow> string \<Rightarrow> string set" where
  "legacy_audit_client_ids clients tenant =
     (let collisions = cross_tenant_client_id_collisions clients
      in cl_id ` set (filter (\<lambda>c. collisions (cl_id c) = None)
           (filter (\<lambda>c. cl_status c \<noteq> CLIENT_ID_CONFLICT_STATUS) (filter (\<lambda>c. cl_tenant_id c = tenant) clients))))"

lemma tenants_by_id:
  "fold (\<lambda>c m. m(cl_id c \<mapsto> insert (cl_tenant_id c) (case m (cl_id c) of None \<Rightarrow> {} | Some ts \<Rightarrow> ts))) cs m i
   = (let ts = cl_tenant_id ` {c \<in> set cs. cl_id c = i} in
      if ts = {} then m i else Some (ts \<union> (case m i of None \<Rightarrow> {} | Some us \<Rightarrow> us)))"
proof (induction cs arbitrary: m)
  case Nil
  then show ?case by simp
next
  case (Cons c cs)
  have "cl_tenant_id ` {d \<in> set (c # cs). cl_id d = i}
      = (if cl_id c = i then insert (cl_tenant_id c) (cl_tenant_id ` {d \<in> set cs. cl_id d = i})
         else cl_tenant_id ` {d \<in> set cs. cl_id d = i})" by auto
  then show ?case
    unfolding fold_simps o_apply Cons.IH Let_def by (cases "m i") auto
qed

text \<open>An identifier collides exactly when clients of two tenants have it.\<close>

definition tenants_of_id :: "api_client list \<Rightarrow> string \<Rightarrow> string set" where
  "tenants_of_id clients i = cl_tenant_id ` {c \<in> set clients. cl_id c = i}"

lemma collisions_eq:
  "cross_tenant_client_id_collisions clients i =
     (if card (tenants_of_id clients i) > 1 then Some (tenants_of_id clients i) else None)"
proof (cases "tenants_of_id clients i = {}")
  case True
  then show ?thesis
    unfolding cross_tenant_client_id_collisions_def tenants_by_id Let_def tenants_of_id_def [symmetric] by simp
next
  case False
  then show ?thesis
    unfolding cross_tenant_client_id_collisions_def tenants_by_id Let_def tenants_of_id_def [symmetric] by simp
qed

lemma collides_iff:
  "cross_tenant_client_id_collisions clients i \<noteq> None \<longleftrightarrow>
     (\<exists>c \<in> set clients. \<exists>d \<in> set clients. cl_id c = i \<and> cl_id d = i \<and> cl_tenant_id c \<noteq> cl_tenant_id d)"
proof -
  have "finite (tenants_of_id clients i)" by (simp add: tenants_of_id_def)
  then have "\<not> card (tenants_of_id clients i) > 1 \<longleftrightarrow> (\<forall>x \<in> tenants_of_id clients i. \<forall>y \<in> tenants_of_id clients i. x = y)"
    unfolding not_less One_nat_def by (rule card_le_Suc0_iff_eq)
  moreover have "cross_tenant_client_id_collisions clients i \<noteq> None \<longleftrightarrow> card (tenants_of_id clients i) > 1"
    unfolding collisions_eq by simp
  moreover have "(\<exists>x \<in> tenants_of_id clients i. \<exists>y \<in> tenants_of_id clients i. x \<noteq> y) \<longleftrightarrow>
      (\<exists>c \<in> set clients. \<exists>d \<in> set clients. cl_id c = i \<and> cl_id d = i \<and> cl_tenant_id c \<noteq> cl_tenant_id d)"
    unfolding tenants_of_id_def by blast
  ultimately show ?thesis by blast
qed

section \<open>Generated keys\<close>

text \<open>
  One character of the slug per character of the tenant name; a UTF-8 character is counted at its first
  byte, and its continuation bytes are skipped.
\<close>

definition trim_dashes :: "string \<Rightarrow> string" where
  "trim_dashes s = rev (dropWhile (\<lambda>c. c = CHR ''-'') (rev (dropWhile (\<lambda>c. c = CHR ''-'') s)))"

definition tenant_key_slug :: "string \<Rightarrow> string" where
  "tenant_key_slug tenant =
     (let slug = map (\<lambda>c. if is_ascii_alphanumeric c then to_ascii_lower c else CHR ''-'')
                   (filter (\<lambda>c. \<not> is_continuation c) tenant);
          slug = trim_dashes slug
      in if slug = [] then ''t'' else slug)"

definition KEY_PREFIX_SECRET_CHARS :: nat where
  "KEY_PREFIX_SECRET_CHARS = 6"

text \<open>The secret is two random UUIDs in simple form: 64 lower-case hexadecimal characters.\<close>

definition generate_key :: "(string \<Rightarrow> string) \<Rightarrow> string \<Rightarrow> string \<Rightarrow> string \<times> string \<times> string" where
  "generate_key hash_key secret tenant =
     (let slug = tenant_key_slug tenant;
          plaintext = ''sk-'' @ slug @ ''-'' @ secret;
          prefix = ''sk-'' @ slug @ ''-'' @ take KEY_PREFIX_SECRET_CHARS secret
      in (plaintext, prefix, hash_key plaintext))"

definition key_prefix_matches_tenant :: "api_key \<Rightarrow> string \<Rightarrow> bool" where
  "key_prefix_matches_tenant k tenant =
     (let head = ''sk-'' @ tenant_key_slug tenant @ ''-''
      in length (key_prefix k) = length head + KEY_PREFIX_SECRET_CHARS
         \<and> starts_with head (key_prefix k)
         \<and> CHR ''-'' \<notin> set (drop (length head) (key_prefix k)))"

definition is_hex_byte :: "char \<Rightarrow> bool" where
  "is_hex_byte b \<longleftrightarrow> is_ascii_digit b \<or> (97 \<le> byte b \<and> byte b \<le> 102)"

definition key_has_generated_tenant_prefix :: "api_key \<Rightarrow> bool" where
  "key_has_generated_tenant_prefix k =
     (case strip_prefix ''sk-'' (key_prefix k) of
        None \<Rightarrow> False
      | Some rest \<Rightarrow>
          if length rest < KEY_PREFIX_SECRET_CHARS + 2 \<or> \<not> list_all (\<lambda>c. byte c < 128) rest then False
          else let slug = take (length rest - (KEY_PREFIX_SECRET_CHARS + 1)) rest;
                   tail = drop (length rest - (KEY_PREFIX_SECRET_CHARS + 1)) rest
               in (case strip_prefix ''-'' tail of
                     None \<Rightarrow> False
                   | Some hex \<Rightarrow>
                       list_all is_hex_byte hex \<and> \<not> starts_with ''-'' slug \<and> \<not> ends_with ''-'' slug
                       \<and> list_all (\<lambda>b. is_ascii_lowercase b \<or> is_ascii_digit b \<or> b = CHR ''-'') slug))"

section \<open>Who may manage a key\<close>

definition colliding_tenant_slug_is_ambiguous :: "string set \<Rightarrow> string \<Rightarrow> bool" where
  "colliding_tenant_slug_is_ambiguous tenants tenant \<longleftrightarrow>
     (\<exists>t \<in> tenants. t \<noteq> tenant \<and> tenant_key_slug t = tenant_key_slug tenant)"

definition tenant_may_manage_key :: "(string \<rightharpoonup> string set) \<Rightarrow> api_key \<Rightarrow> string \<Rightarrow> bool" where
  "tenant_may_manage_key collisions k tenant =
     (case collisions (key_client_id k) of
        None \<Rightarrow> True
      | Some tenants \<Rightarrow>
          \<not> colliding_tenant_slug_is_ambiguous tenants tenant \<and> key_prefix_matches_tenant k tenant)"

section \<open>Resolving a bearer token\<close>

record api_caller_context =
  ctx_client_id :: string
  ctx_key_id :: string
  ctx_key_prefix :: string
  ctx_tenant_id :: string
  ctx_owner :: string
  ctx_granted_agent_ids :: "string list"

datatype auth_error = Unauthorized | KeyRevoked | KeyExpired | ClientDisabled

fun auth_error_as_str :: "auth_error \<Rightarrow> string" where
  "auth_error_as_str Unauthorized = ''unauthorized''"
| "auth_error_as_str KeyRevoked = ''key_revoked''"
| "auth_error_as_str KeyExpired = ''key_expired''"
| "auth_error_as_str ClientDisabled = ''client_disabled''"

definition resolve_bearer_token ::
  "chrono_lib \<Rightarrow> (string \<Rightarrow> string) \<Rightarrow> time \<Rightarrow> string \<Rightarrow> api_key list \<Rightarrow> api_client list
   \<Rightarrow> auth_error + api_caller_context" where
  "resolve_bearer_token lib hash_key now token keys clients =
     (if \<not> starts_with ''sk-'' token then Inl Unauthorized
      else case find (\<lambda>k. key_hash k = hash_key token) keys of
        None \<Rightarrow> Inl Unauthorized
      | Some k \<Rightarrow>
          if key_status k \<noteq> ''active'' then Inl KeyRevoked
          else if (case Option.bind (key_expires_at k) (parse_from_rfc3339 lib) of
                     None \<Rightarrow> False | Some t \<Rightarrow> now > t) then Inl KeyExpired
          else (case filter (\<lambda>c. cl_id c = key_client_id k) clients of
                  [c] \<Rightarrow>
                    if key_has_generated_tenant_prefix k \<and> \<not> key_prefix_matches_tenant k (cl_tenant_id c)
                    then Inl Unauthorized
                    else if cl_status c = CLIENT_ID_CONFLICT_STATUS then Inl Unauthorized
                    else if cl_status c \<noteq> ''active'' then Inl ClientDisabled
                    else Inr \<lparr>ctx_client_id = cl_id c, ctx_key_id = key_id k, ctx_key_prefix = key_prefix k,
                              ctx_tenant_id = cl_tenant_id c, ctx_owner = cl_owner c,
                              ctx_granted_agent_ids = cl_granted_agent_ids c\<rparr>
                | _ \<Rightarrow> Inl Unauthorized))"

section \<open>The audit log\<close>

definition append_audit :: "(json \<Rightarrow> string) \<Rightarrow> bool \<Rightarrow> json \<Rightarrow> string option \<Rightarrow> string option" where
  "append_audit show_json writable entry file =
     (if writable then Some ((case file of None \<Rightarrow> [] | Some s \<Rightarrow> s) @ show_json entry @ [CHR 0x0A]) else file)"

definition audit_visible :: "string \<Rightarrow> string set \<Rightarrow> json \<Rightarrow> bool" where
  "audit_visible tenant tenant_client_ids e =
     (case json_get e ''tenant_id'' of
        Some v \<Rightarrow> as_str v = Some tenant
      | None \<Rightarrow> (case get_str e ''client_id'' of None \<Rightarrow> False | Some i \<Rightarrow> i \<in> tenant_client_ids))"

definition read_audit_for_tenant ::
  "(string \<Rightarrow> json option) \<Rightarrow> string option \<Rightarrow> string \<Rightarrow> string set \<Rightarrow> string option \<Rightarrow> string option \<Rightarrow> nat
   \<Rightarrow> json list" where
  "read_audit_for_tenant parse_json file tenant tenant_client_ids client agent limit =
     (case file of
        None \<Rightarrow> []
      | Some content \<Rightarrow>
          take limit (rev
            (filter (\<lambda>e. case agent of None \<Rightarrow> True | Some a \<Rightarrow> get_str e ''agent_id'' = Some a)
            (filter (\<lambda>e. case client of None \<Rightarrow> True | Some c \<Rightarrow> get_str e ''client_id'' = Some c)
            (filter (audit_visible tenant tenant_client_ids)
            (List.map_filter parse_json (str_lines content)))))))"

section \<open>Limits\<close>

datatype usage_denied = RateLimited u64 | QuotaExceeded string | Concurrency

record usage_inner =
  u_rpm :: "string \<rightharpoonup> u64 \<times> u32"
  u_concurrency :: "string \<rightharpoonup> u32"
  u_daily :: "string \<rightharpoonup> string \<times> u64"
  u_monthly :: "string \<rightharpoonup> string \<times> u64"

definition no_usage :: usage_inner where
  "no_usage = \<lparr>u_rpm = Map.empty, u_concurrency = Map.empty, u_daily = Map.empty, u_monthly = Map.empty\<rparr>"

text \<open>The calendar: the day and the month of an instant, as text.\<close>

record calendar =
  day_of :: "time \<Rightarrow> string"
  month_of :: "time \<Rightarrow> string"

definition epoch_seconds :: "time \<Rightarrow> u64" where
  "epoch_seconds now = word_of_int (now div 1000000000)"

definition minute_of :: "time \<Rightarrow> u64" where
  "minute_of now = epoch_seconds now div 60"

text \<open>\<open>entry(..).or_insert((window, 0))\<close> with the reset of an older window, and with the increment.\<close>

definition window_roll :: "string \<Rightarrow> 'w \<Rightarrow> (string \<rightharpoonup> 'w \<times> 'n::len word) \<Rightarrow> (string \<rightharpoonup> 'w \<times> 'n word)" where
  "window_roll i w m =
     (case m i of None \<Rightarrow> m(i \<mapsto> (w, 0)) | Some (w', n) \<Rightarrow> if w' \<noteq> w then m(i \<mapsto> (w, 0)) else m)"

definition window_bump :: "string \<Rightarrow> 'w \<Rightarrow> (string \<rightharpoonup> 'w \<times> 'n::len word) \<Rightarrow> (string \<rightharpoonup> 'w \<times> 'n word)" where
  "window_bump i w m = (case m i of None \<Rightarrow> m(i \<mapsto> (w, 1)) | Some (w', n) \<Rightarrow> m(i \<mapsto> (w', n + 1)))"

definition window_count :: "string \<Rightarrow> (string \<rightharpoonup> 'w \<times> 'n::len word) \<Rightarrow> 'n word" where
  "window_count i m = (case m i of None \<Rightarrow> 0 | Some (_, n) \<Rightarrow> n)"

definition running_count :: "string \<Rightarrow> (string \<rightharpoonup> u32) \<Rightarrow> u32" where
  "running_count i m = (case m i of None \<Rightarrow> 0 | Some n \<Rightarrow> n)"

definition usage_try_acquire ::
  "calendar \<Rightarrow> time \<Rightarrow> api_client \<Rightarrow> usage_inner \<Rightarrow> (usage_denied + string) \<times> usage_inner" where
  "usage_try_acquire cal now c u =
     (let i = cl_id c; rl = cl_rate_limit c; q = cl_quota c;
          minute = minute_of now; dk = day_of cal now; mk = month_of cal now;
          u = (if rl_rpm rl > 0 then u\<lparr>u_rpm := window_roll i minute (u_rpm u)\<rparr> else u)
      in if rl_rpm rl > 0 \<and> window_count i (u_rpm u) \<ge> rl_rpm rl
         then (Inl (RateLimited (60 - epoch_seconds now mod 60)), u)
         else let u = (if q_daily q > 0 then u\<lparr>u_daily := window_roll i dk (u_daily u)\<rparr> else u)
         in if q_daily q > 0 \<and> window_count i (u_daily u) \<ge> q_daily q
         then (Inl (QuotaExceeded ''daily''), u)
         else let u = (if q_monthly q > 0 then u\<lparr>u_monthly := window_roll i mk (u_monthly u)\<rparr> else u)
         in if q_monthly q > 0 \<and> window_count i (u_monthly u) \<ge> q_monthly q
         then (Inl (QuotaExceeded ''monthly''), u)
         else if rl_concurrency rl > 0 \<and> running_count i (u_concurrency u) \<ge> rl_concurrency rl
         then (Inl Concurrency, u)
         else (Inr i, u\<lparr>u_rpm := window_bump i minute (u_rpm u), u_daily := window_bump i dk (u_daily u),
                        u_monthly := window_bump i mk (u_monthly u),
                        u_concurrency := (u_concurrency u)(i \<mapsto> running_count i (u_concurrency u) + 1)\<rparr>))"

text \<open>Dropping the guard of an admitted call.\<close>

definition drop_concurrency_guard :: "string \<Rightarrow> usage_inner \<Rightarrow> usage_inner" where
  "drop_concurrency_guard i u =
     (case u_concurrency u i of
        None \<Rightarrow> u
      | Some n \<Rightarrow> u\<lparr>u_concurrency := (u_concurrency u)(i \<mapsto> (if n = 0 then 0 else n - 1))\<rparr>)"

record usage_snapshot =
  rpm_current :: u32
  concurrency_current :: u32
  daily_used :: u64
  monthly_used :: u64

definition snapshot :: "string \<Rightarrow> usage_inner \<Rightarrow> usage_snapshot" where
  "snapshot i u = \<lparr>rpm_current = window_count i (u_rpm u), concurrency_current = running_count i (u_concurrency u),
     daily_used = window_count i (u_daily u), monthly_used = window_count i (u_monthly u)\<rparr>"

end
