(* ===== verification/Api_Admin.thy ===== *)
theory Api_Admin
  imports Api_Keys Identity
begin

text \<open>
  The management of clients and keys (\<open>src/api/http/api_clients.rs\<close>) and the gate every published agent is
  called through (\<open>authenticate_public\<close> to \<open>public_agent_chat_handler\<close> in \<open>src/api/http/chat.rs\<close>). Every
  handler is a function of the shared state. Saving a file succeeds or leaves the file as it was, and
  the code ignores which; a handler that takes its locks twice lets other tasks run in between.
\<close>

section \<open>State\<close>

record key_center =
  kc_clients :: "api_client list"
  kc_keys :: "api_key list"
  kc_clients_file :: "api_client list option"
  kc_keys_file :: "api_key list option"
  kc_agents :: "json list"
  kc_usage :: usage_inner
  kc_audit :: "string option"

definition save_api_clients :: "bool \<Rightarrow> key_center \<Rightarrow> key_center" where
  "save_api_clients writable st = (if writable then st\<lparr>kc_clients_file := Some (kc_clients st)\<rparr> else st)"

definition save_api_keys :: "bool \<Rightarrow> key_center \<Rightarrow> key_center" where
  "save_api_keys writable st = (if writable then st\<lparr>kc_keys_file := Some (kc_keys st)\<rparr> else st)"

text \<open>A restart reads both files again and forgets the counters.\<close>

definition restart :: "key_center \<Rightarrow> key_center" where
  "restart st = st\<lparr>kc_clients := load_api_clients (kc_clients_file st), kc_keys := load_api_keys (kc_keys_file st),
     kc_usage := no_usage\<rparr>"

section \<open>Requests and answers\<close>

record create_client_request =
  cr_name :: string
  cr_description :: string
  cr_owner :: string
  cr_granted_agent_ids :: "string list"
  cr_rate_limit :: "rate_limit option"
  cr_quota :: "quota option"

record update_client_request =
  up_name :: "string option"
  up_description :: "string option"
  up_owner :: "string option"
  up_granted_agent_ids :: "string list option"
  up_status :: "string option"
  up_rate_limit :: "rate_limit option"
  up_quota :: "quota option"

record issue_key_request =
  ik_name :: string
  ik_expires_at :: "string option"

record client_view =
  view_client :: api_client
  view_keys :: "json list"
  view_usage :: usage_snapshot

datatype admin_response =
    GateRefused gate_error
  | Refused nat string string
  | ClientList "client_view list"
  | ClientCreated api_client
  | ClientUpdated api_client
  | ClientDeleted string
  | KeyIssued json string
  | KeyRevokedOk string
  | AuditRecords "json list"

text \<open>The words the two messages about empty fields end with, in UTF-8.\<close>

definition must_not_be_empty :: string where
  "must_not_be_empty = bytes_of [228, 184, 141, 232, 131, 189, 228, 184, 186, 231, 169, 186]"

definition opt_json :: "string option \<Rightarrow> json" where
  "opt_json s = (case s of None \<Rightarrow> JNull | Some v \<Rightarrow> JString v)"

definition key_public_view :: "api_key \<Rightarrow> json" where
  "key_public_view k = JObject
     [(''client_id'', JString (key_client_id k)), (''created_at'', JString (key_created_at k)),
      (''expires_at'', opt_json (key_expires_at k)), (''id'', JString (key_id k)),
      (''key_prefix'', JString (key_prefix k)), (''last_used_at'', opt_json (key_last_used_at k)),
      (''name'', JString (key_name k)), (''status'', JString (key_status k))]"

definition client_not_found :: "string \<Rightarrow> admin_response" where
  "client_not_found i = Refused 404 ''client not found'' i"

definition client_id_conflict :: "string \<Rightarrow> admin_response" where
  "client_id_conflict i = Refused 409 ''client id conflict'' i"

definition key_not_found :: "string \<Rightarrow> admin_response" where
  "key_not_found i = Refused 404 ''key not found'' i"

definition invalid_grants :: admin_response where
  "invalid_grants = Refused 400 ''invalid_granted_agent_ids'' []"

definition valid_grants :: "json list \<Rightarrow> string \<Rightarrow> string list \<Rightarrow> bool" where
  "valid_grants agents tenant ids =
     list_all (\<lambda>i. list_ex (\<lambda>a. get_str a ''id'' = Some i \<and> get_str a ''tenant_id'' = Some tenant) agents) ids"

text \<open>The gate of every handler, and the tenant it acts for.\<close>

definition da_tenant :: "environment \<Rightarrow> string \<Rightarrow> user_identity \<Rightarrow> gate_error + string" where
  "da_tenant env resource identity =
     and_then (require_control_plane_da env resource identity) (\<lambda>_.
       ok_or \<lparr>gate_status = 500, gate_code = ''DA claims required'', gate_detail = []\<rparr>
         (map_option tenant_id (isolation_claims_of identity)))"

section \<open>Handlers\<close>

definition list_api_clients_handler :: "environment \<Rightarrow> user_identity \<Rightarrow> key_center \<Rightarrow> admin_response" where
  "list_api_clients_handler env identity st =
     (case da_tenant env ''API client operations'' identity of
        Inl e \<Rightarrow> GateRefused e
      | Inr tenant \<Rightarrow>
          let collisions = cross_tenant_client_id_collisions (kc_clients st)
          in ClientList (map (\<lambda>c.
               \<lparr>view_client = c,
                view_keys = map key_public_view (filter (\<lambda>k. tenant_may_manage_key collisions k tenant)
                  (filter (\<lambda>k. key_client_id k = cl_id c) (kc_keys st))),
                view_usage = snapshot (cl_id c) (kc_usage st)\<rparr>)
             (filter (\<lambda>c. cl_tenant_id c = tenant) (kc_clients st))))"

definition create_api_client_handler ::
  "environment \<Rightarrow> user_identity \<Rightarrow> create_client_request \<Rightarrow> string \<Rightarrow> string \<Rightarrow> bool \<Rightarrow> key_center
   \<Rightarrow> admin_response \<times> key_center" where
  "create_api_client_handler env identity req new_id now_text writable st =
     (case da_tenant env ''API client operations'' identity of
        Inl e \<Rightarrow> (GateRefused e, st)
      | Inr tenant \<Rightarrow>
          if \<not> valid_grants (kc_agents st) tenant (cr_granted_agent_ids req) then (invalid_grants, st)
          else if trim (cr_name req) = [] then (Refused 400 (''name '' @ must_not_be_empty) [], st)
          else let c = \<lparr>cl_id = new_id, cl_name = trim (cr_name req), cl_description = cr_description req,
                     cl_tenant_id = tenant, cl_owner = (if cr_owner req = [] then user_id identity else cr_owner req),
                     cl_granted_agent_ids = cr_granted_agent_ids req, cl_status = ''active'',
                     cl_rate_limit = (case cr_rate_limit req of None \<Rightarrow> default_rate_limit | Some l \<Rightarrow> l),
                     cl_quota = (case cr_quota req of None \<Rightarrow> default_quota | Some q \<Rightarrow> q),
                     cl_created_at = now_text, cl_updated_at = now_text\<rparr>
               in (ClientCreated c, save_api_clients writable (st\<lparr>kc_clients := kc_clients st @ [c]\<rparr>)))"

definition update_client :: "update_client_request \<Rightarrow> string \<Rightarrow> api_client \<Rightarrow> api_client" where
  "update_client req now_text c =
     (let c = (case up_name req of None \<Rightarrow> c | Some v \<Rightarrow> c\<lparr>cl_name := v\<rparr>);
          c = (case up_description req of None \<Rightarrow> c | Some v \<Rightarrow> c\<lparr>cl_description := v\<rparr>);
          c = (case up_owner req of None \<Rightarrow> c | Some v \<Rightarrow> c\<lparr>cl_owner := v\<rparr>);
          c = (case up_granted_agent_ids req of None \<Rightarrow> c | Some v \<Rightarrow> c\<lparr>cl_granted_agent_ids := v\<rparr>);
          c = (case up_status req of None \<Rightarrow> c | Some v \<Rightarrow> c\<lparr>cl_status := v\<rparr>);
          c = (case up_rate_limit req of None \<Rightarrow> c | Some v \<Rightarrow> c\<lparr>cl_rate_limit := v\<rparr>);
          c = (case up_quota req of None \<Rightarrow> c | Some v \<Rightarrow> c\<lparr>cl_quota := v\<rparr>)
      in c\<lparr>cl_updated_at := now_text\<rparr>)"

text \<open>\<open>between\<close> is what other tasks do between the two looks at the clients.\<close>

definition update_api_client_handler ::
  "environment \<Rightarrow> user_identity \<Rightarrow> string \<Rightarrow> update_client_request \<Rightarrow> string \<Rightarrow> bool \<Rightarrow> (key_center \<Rightarrow> key_center)
   \<Rightarrow> key_center \<Rightarrow> admin_response \<times> key_center" where
  "update_api_client_handler env identity i req now_text writable between st =
     (case da_tenant env ''API client operations'' identity of
        Inl e \<Rightarrow> (GateRefused e, st)
      | Inr tenant \<Rightarrow>
          let owns = (\<lambda>c. cl_id c = i \<and> cl_tenant_id c = tenant)
          in if \<not> list_ex owns (kc_clients st) then (client_not_found i, st)
             else if (case up_granted_agent_ids req of None \<Rightarrow> False
                      | Some ids \<Rightarrow> \<not> valid_grants (kc_agents st) tenant ids) then (invalid_grants, st)
             else let st = between st
                  in (case position owns (kc_clients st) of
                        None \<Rightarrow> (client_not_found i, st)
                      | Some n \<Rightarrow>
                          let c = kc_clients st ! n
                          in if up_status req \<noteq> None \<and> cl_status c = CLIENT_ID_CONFLICT_STATUS
                             then (client_id_conflict i, st)
                             else let c = update_client req now_text c
                                  in (ClientUpdated c,
                                      save_api_clients writable (st\<lparr>kc_clients := (kc_clients st)[n := c]\<rparr>))))"

definition delete_api_client_handler ::
  "environment \<Rightarrow> user_identity \<Rightarrow> string \<Rightarrow> bool \<Rightarrow> bool \<Rightarrow> key_center \<Rightarrow> admin_response \<times> key_center" where
  "delete_api_client_handler env identity i clients_writable keys_writable st =
     (case da_tenant env ''API client operations'' identity of
        Inl e \<Rightarrow> (GateRefused e, st)
      | Inr tenant \<Rightarrow>
          if \<not> list_ex (\<lambda>c. cl_id c = i \<and> cl_tenant_id c = tenant) (kc_clients st) then (client_not_found i, st)
          else if cross_tenant_client_id_collisions (kc_clients st) i \<noteq> None then (client_id_conflict i, st)
          else let st = save_api_clients clients_writable
                     (st\<lparr>kc_clients := filter (\<lambda>c. cl_id c \<noteq> i \<or> cl_tenant_id c \<noteq> tenant) (kc_clients st)\<rparr>);
                   st = save_api_keys keys_writable
                     (st\<lparr>kc_keys := filter (\<lambda>k. key_client_id k \<noteq> i) (kc_keys st)\<rparr>)
               in (ClientDeleted i, st))"

definition issue_api_key_handler ::
  "(string \<Rightarrow> string) \<Rightarrow> environment \<Rightarrow> user_identity \<Rightarrow> string \<Rightarrow> issue_key_request \<Rightarrow> string \<Rightarrow> string \<Rightarrow> string \<Rightarrow> bool
   \<Rightarrow> key_center \<Rightarrow> admin_response \<times> key_center" where
  "issue_api_key_handler hash_key env identity i req secret new_id now_text writable st =
     (case da_tenant env ''API client operations'' identity of
        Inl e \<Rightarrow> (GateRefused e, st)
      | Inr tenant \<Rightarrow>
          (case find (\<lambda>c. cl_id c = i \<and> cl_tenant_id c = tenant) (kc_clients st) of
             None \<Rightarrow> (client_not_found i, st)
           | Some owned \<Rightarrow>
               if cl_status owned = CLIENT_ID_CONFLICT_STATUS
                  \<or> cross_tenant_client_id_collisions (kc_clients st) i \<noteq> None
               then (client_id_conflict i, st)
               else (case generate_key hash_key secret tenant of
                       (plaintext, prefix, hash) \<Rightarrow>
                         let k = \<lparr>key_id = new_id, key_name = ik_name req, key_client_id = i, key_prefix = prefix,
                                key_hash = hash, key_status = ''active'', key_last_used_at = None,
                                key_expires_at = ik_expires_at req, key_created_at = now_text\<rparr>
                         in (KeyIssued (key_public_view k) plaintext,
                             save_api_keys writable (st\<lparr>kc_keys := kc_keys st @ [k]\<rparr>)))))"

definition revoke_api_key_handler ::
  "environment \<Rightarrow> user_identity \<Rightarrow> string \<Rightarrow> string \<Rightarrow> bool \<Rightarrow> key_center \<Rightarrow> admin_response \<times> key_center" where
  "revoke_api_key_handler env identity i kid writable st =
     (case da_tenant env ''API client operations'' identity of
        Inl e \<Rightarrow> (GateRefused e, st)
      | Inr tenant \<Rightarrow>
          if \<not> list_ex (\<lambda>c. cl_id c = i \<and> cl_tenant_id c = tenant) (kc_clients st) then (key_not_found kid, st)
          else let collisions = cross_tenant_client_id_collisions (kc_clients st)
               in if (case collisions i of None \<Rightarrow> False
                      | Some tenants \<Rightarrow> colliding_tenant_slug_is_ambiguous tenants tenant)
                  then (client_id_conflict i, st)
                  else (case position (\<lambda>k. key_id k = kid \<and> key_client_id k = i
                                \<and> tenant_may_manage_key collisions k tenant) (kc_keys st) of
                          None \<Rightarrow> (key_not_found kid, st)
                        | Some n \<Rightarrow>
                            (KeyRevokedOk kid, save_api_keys writable
                               (st\<lparr>kc_keys := (kc_keys st)[n := (kc_keys st ! n)\<lparr>key_status := ''revoked''\<rparr>]\<rparr>))))"

record audit_query =
  aq_client_id :: "string option"
  aq_agent_id :: "string option"
  aq_limit :: "nat option"

text \<open>The query is \<open>None\<close> when the query string cannot be read.\<close>

definition list_api_audit_handler ::
  "(string \<Rightarrow> json option) \<Rightarrow> environment \<Rightarrow> user_identity \<Rightarrow> audit_query option \<Rightarrow> key_center \<Rightarrow> admin_response" where
  "list_api_audit_handler parse_json env identity query st =
     (case da_tenant env ''API audit access'' identity of
        Inl e \<Rightarrow> GateRefused e
      | Inr tenant \<Rightarrow>
          (case query of
             None \<Rightarrow> Refused 400 ''invalid query string'' []
           | Some q \<Rightarrow>
               AuditRecords (read_audit_for_tenant parse_json (kc_audit st) tenant
                 (legacy_audit_client_ids (kc_clients st) tenant) (aq_client_id q) (aq_agent_id q)
                 (min (case aq_limit q of None \<Rightarrow> 200 | Some n \<Rightarrow> n) 1000))))"

section \<open>The public gate\<close>

record public_lib =
  pl_chrono :: chrono_lib
  pl_hash_key :: "string \<Rightarrow> string"
  pl_calendar :: calendar
  pl_show_json :: "json \<Rightarrow> string"
  pl_rfc3339 :: "time \<Rightarrow> string"

text \<open>The points of a call at which it takes a lock, with the clock and what other tasks did before.\<close>

datatype call_point = AtAuthentication | AtScope | AtClient | AtLimits | AtAudit | AtTouch

record call_env =
  call_now :: "call_point \<Rightarrow> time"
  call_others :: "call_point \<Rightarrow> key_center \<Rightarrow> key_center"
  call_audit_writable :: bool
  call_keys_writable :: bool
  call_latency_ms :: u64

datatype public_denied = PublicDenied nat json "u64 option"

definition error_body :: "string \<Rightarrow> json" where
  "error_body e = JObject [(''error'', JString e)]"

definition authenticate_public ::
  "public_lib \<Rightarrow> time \<Rightarrow> string option \<Rightarrow> key_center \<Rightarrow> public_denied + api_caller_context" where
  "authenticate_public lib now authorization st =
     (let token = map_option trim (Option.bind (Option.bind authorization header_to_str) (strip_prefix ''Bearer ''))
      in case (case token of Some t \<Rightarrow> if t = [] then None else Some t | None \<Rightarrow> None) of
           None \<Rightarrow> Inl (PublicDenied 401 (error_body ''missing bearer token'') None)
         | Some t \<Rightarrow>
             map_err (\<lambda>e. PublicDenied (if e = Unauthorized then 401 else 403) (error_body (auth_error_as_str e)) None)
               (resolve_bearer_token (pl_chrono lib) (pl_hash_key lib) now t (kc_keys st) (kc_clients st)))"

definition agent_is_published :: "json list \<Rightarrow> string \<Rightarrow> string \<Rightarrow> bool option" where
  "agent_is_published agents i tenant =
     map_option (\<lambda>a. case Option.bind (json_get a ''published'') as_bool of Some b \<Rightarrow> b | None \<Rightarrow> False)
       (find (\<lambda>a. get_str a ''id'' = Some i \<and> get_str a ''tenant_id'' = Some tenant) agents)"

definition touch_key_last_used :: "bool \<Rightarrow> string \<Rightarrow> string \<Rightarrow> key_center \<Rightarrow> key_center" where
  "touch_key_last_used writable kid now_text st =
     save_api_keys writable (case position (\<lambda>k. key_id k = kid) (kc_keys st) of
        None \<Rightarrow> st
      | Some n \<Rightarrow> st\<lparr>kc_keys := (kc_keys st)[n := (kc_keys st ! n)\<lparr>key_last_used_at := Some now_text\<rparr>]\<rparr>)"

definition write_public_audit ::
  "public_lib \<Rightarrow> call_env \<Rightarrow> api_caller_context \<Rightarrow> string \<Rightarrow> string \<Rightarrow> nat \<Rightarrow> string \<Rightarrow> key_center \<Rightarrow> key_center" where
  "write_public_audit lib env ctx agent endpoint status result st =
     (let entry = JObject
        [(''agent_id'', JString agent), (''client_id'', JString (ctx_client_id ctx)), (''endpoint'', JString endpoint),
         (''key_prefix'', JString (ctx_key_prefix ctx)), (''latency_ms'', JNumber (PosInt (call_latency_ms env))),
         (''result'', JString result), (''status'', JNumber (PosInt (of_nat status))),
         (''tenant_id'', JString (ctx_tenant_id ctx)), (''ts'', JString (pl_rfc3339 lib (call_now env AtAudit)))]
      in st\<lparr>kc_audit := append_audit (pl_show_json lib) (call_audit_writable env) entry (kc_audit st)\<rparr>)"

fun usage_denied_response :: "usage_denied \<Rightarrow> nat \<times> json \<times> u64 option" where
  "usage_denied_response (RateLimited retry) =
     (429, JObject [(''error'', JString ''rate_limited''), (''retry_after'', JNumber (PosInt retry))], Some retry)"
| "usage_denied_response (QuotaExceeded scope) =
     (429, JObject [(''error'', JString ''quota_exceeded''), (''scope'', JString scope)], None)"
| "usage_denied_response Concurrency = (429, error_body ''concurrency_limit'', None)"

definition public_gate ::
  "public_lib \<Rightarrow> call_env \<Rightarrow> string option \<Rightarrow> string \<Rightarrow> string \<Rightarrow> key_center
   \<Rightarrow> (public_denied + api_caller_context \<times> string) \<times> key_center" where
  "public_gate lib env authorization agent endpoint st =
     (case authenticate_public lib (call_now env AtAuthentication) authorization st of
        Inl denied \<Rightarrow> (Inl denied, st)
      | Inr ctx \<Rightarrow>
          let st = call_others env AtScope st;
              published = agent_is_published (kc_agents st) agent (ctx_tenant_id ctx)
          in if agent \<notin> set (ctx_granted_agent_ids ctx) \<or> published = None
             then (Inl (PublicDenied 403 (JObject [(''error'', JString ''agent not in scope''), (''id'', JString agent)]) None),
                   write_public_audit lib env ctx agent endpoint 403 ''not_in_scope'' st)
             else if published = Some False
             then (Inl (PublicDenied 403 (JObject [(''error'', JString ''agent not published''), (''id'', JString agent)]) None),
                   write_public_audit lib env ctx agent endpoint 403 ''not_published'' st)
             else let st = call_others env AtClient st
             in (case find (\<lambda>c. cl_id c = ctx_client_id ctx) (kc_clients st) of
                   None \<Rightarrow> (Inl (PublicDenied 403 (error_body ''client_disabled'') None), st)
                 | Some c \<Rightarrow>
                     let st = call_others env AtLimits st
                     in (case usage_try_acquire (pl_calendar lib) (call_now env AtLimits) c (kc_usage st) of
                           (Inl denied, u) \<Rightarrow>
                             (case usage_denied_response denied of (denied_status, body, retry) \<Rightarrow>
                                (Inl (PublicDenied denied_status body retry),
                                 write_public_audit lib env ctx agent endpoint denied_status ''throttled'' (st\<lparr>kc_usage := u\<rparr>)))
                         | (Inr guard, u) \<Rightarrow> (Inr (ctx, guard), st\<lparr>kc_usage := u\<rparr>))))"

text \<open>
  A chat call: \<open>images\<close> is the verdict on the attached images and \<open>answer\<close> what the agent answers. The
  guard is dropped when the handler returns.
\<close>

definition public_agent_chat_handler ::
  "public_lib \<Rightarrow> call_env \<Rightarrow> string option \<Rightarrow> string \<Rightarrow> string \<Rightarrow> (nat \<times> json) option \<Rightarrow> nat \<times> json \<Rightarrow> key_center
   \<Rightarrow> (public_denied + nat \<times> json) \<times> key_center" where
  "public_agent_chat_handler lib env authorization agent msg images answer st =
     (case public_gate lib env authorization agent ''chat'' st of
        (Inl denied, st) \<Rightarrow> (Inl denied, st)
      | (Inr (ctx, guard), st) \<Rightarrow>
          let finish = (\<lambda>st. st\<lparr>kc_usage := drop_concurrency_guard guard (kc_usage st)\<rparr>)
          in if trim msg = []
             then (Inr (400, error_body (''message '' @ must_not_be_empty)),
                   finish (write_public_audit lib env ctx agent ''chat'' 400 ''empty_message'' st))
             else (case images of
                     Some (status, body) \<Rightarrow>
                       (Inr (status, body),
                        finish (write_public_audit lib env ctx agent ''chat'' status ''image_payload_rejected'' st))
                   | None \<Rightarrow>
                       let st = touch_key_last_used (call_keys_writable env) (ctx_key_id ctx)
                                  (pl_rfc3339 lib (call_now env AtTouch)) (call_others env AtTouch st)
                       in (Inr answer,
                           finish (write_public_audit lib env ctx agent ''chat'' (fst answer) ''ok'' st))))"

end
