(* ===== verification/Api_Limits.thy ===== *)
theory Api_Limits
  imports Api_Keys
begin

text \<open>
  The limits of a client over a history of calls: the counters of the code against a log of the calls
  it admitted. One lemma group covers the three windows (minute, day, month), whose code is the same.
\<close>

section \<open>Histories\<close>

datatype usage_op = CallOp time api_client | FinishOp string

record usage_run =
  ul_state :: usage_inner
  ul_admitted :: "(string \<times> time) list"
  ul_guards :: "string list"

definition usage_start :: usage_run where
  "usage_start = \<lparr>ul_state = no_usage, ul_admitted = [], ul_guards = []\<rparr>"

text \<open>Only the guard of an admitted call can be dropped.\<close>

fun run_usage_op :: "calendar \<Rightarrow> usage_op \<Rightarrow> usage_run \<Rightarrow> usage_run" where
  "run_usage_op cal (CallOp now c) s =
     (case usage_try_acquire cal now c (ul_state s) of
        (Inl _, u) \<Rightarrow> s\<lparr>ul_state := u\<rparr>
      | (Inr i, u) \<Rightarrow> s\<lparr>ul_state := u, ul_admitted := (i, now) # ul_admitted s, ul_guards := i # ul_guards s\<rparr>)"
| "run_usage_op cal (FinishOp i) s =
     (if i \<in> set (ul_guards s)
      then s\<lparr>ul_state := drop_concurrency_guard i (ul_state s), ul_guards := remove1 i (ul_guards s)\<rparr> else s)"

definition run_usage :: "calendar \<Rightarrow> usage_op list \<Rightarrow> usage_run" where
  "run_usage cal ops = fold (run_usage_op cal) ops usage_start"

text \<open>The calls of a client that were admitted in one window, and those still running.\<close>

definition admitted_in :: "(time \<Rightarrow> 'w) \<Rightarrow> 'w \<Rightarrow> string \<Rightarrow> (string \<times> time) list \<Rightarrow> nat" where
  "admitted_in win w i log = length (filter (\<lambda>p. fst p = i \<and> win (snd p) = w) log)"

section \<open>One window\<close>

text \<open>Times of a history, and windows that are intervals of them.\<close>

definition epoch_time :: "time \<Rightarrow> bool" where
  "epoch_time t \<longleftrightarrow> 0 \<le> t \<and> t < 2 ^ 64 * 1000000000"

definition steady :: "(time \<Rightarrow> 'w) \<Rightarrow> bool" where
  "steady win \<longleftrightarrow> (\<forall>t t' t''. epoch_time t \<and> epoch_time t'' \<and> t \<le> t' \<and> t' \<le> t'' \<and> win t = win t'' \<longrightarrow> win t' = win t)"

lemma minute_value: "epoch_time t \<Longrightarrow> unat (minute_of t) = nat (t div 1000000000 div 60)"
proof -
  assume "epoch_time t"
  then have "t div 1000000000 \<le> (2 ^ 64 * 1000000000 - 1) div 1000000000" and "0 \<le> t div 1000000000"
    by (auto simp: epoch_time_def pos_imp_zdiv_nonneg_iff intro!: zdiv_mono1)
  then have r: "0 \<le> t div 1000000000" "t div 1000000000 < 2 ^ 64" by simp_all
  have "uint (epoch_seconds t) = t div 1000000000"
    unfolding epoch_seconds_def using r by (simp add: uint_word_of_int)
  then have "uint (minute_of t) = t div 1000000000 div 60" by (simp add: minute_of_def uint_div)
  then show ?thesis by (simp add: nat_uint_eq [symmetric])
qed

lemma steady_minute: "steady minute_of"
  unfolding steady_def
proof (intro allI impI)
  fix t t' t''
  assume a: "epoch_time t \<and> epoch_time t'' \<and> t \<le> t' \<and> t' \<le> t'' \<and> minute_of t = minute_of t''"
  then have "epoch_time t'" by (auto simp: epoch_time_def)
  moreover have "nat (t div 1000000000 div 60) = nat (t'' div 1000000000 div 60)"
    using a minute_value [of t] minute_value [of t''] by simp
  moreover have "t div 1000000000 div 60 \<le> t' div 1000000000 div 60" "t' div 1000000000 div 60 \<le> t'' div 1000000000 div 60"
    using a by (auto intro!: zdiv_mono1)
  moreover have "0 \<le> t div 1000000000 div 60" using a by (auto simp: epoch_time_def pos_imp_zdiv_nonneg_iff)
  ultimately have "unat (minute_of t') = unat (minute_of t)"
    using a minute_value [of t] minute_value [of t'] by (simp add: eq_nat_nat_iff)
  then show "minute_of t' = minute_of t" by (simp add: word_unat_eq_iff)
qed

text \<open>
  The entry of a client in one window map agrees with the log: it counts the admitted calls of its
  window, and no admitted call is later than some instant of that window. \<open>T\<close> is the time reached.
\<close>

definition window_ok ::
  "(time \<Rightarrow> 'w) \<Rightarrow> 'n::len word \<Rightarrow> string \<Rightarrow> time \<Rightarrow> (string \<rightharpoonup> 'w \<times> 'n word) \<Rightarrow> (string \<times> time) list \<Rightarrow> bool" where
  "window_ok win L i T m log \<longleftrightarrow>
     (case m i of
        None \<Rightarrow> \<forall>p \<in> set log. fst p \<noteq> i
      | Some (w, n) \<Rightarrow> unat n = admitted_in win w i log
          \<and> (\<exists>t. epoch_time t \<and> t \<le> T \<and> win t = w \<and> (\<forall>p \<in> set log. fst p = i \<longrightarrow> epoch_time (snd p) \<and> snd p \<le> t)))
     \<and> (\<forall>w. admitted_in win w i log \<le> unat L)"

lemma window_other [simp]:
  "j \<noteq> i \<Longrightarrow> window_roll j w m i = m i" "j \<noteq> i \<Longrightarrow> window_bump j w m i = m i"
  by (auto simp: window_roll_def window_bump_def split: option.splits)

lemma window_ok_later: "window_ok win L i T m log \<Longrightarrow> T \<le> T' \<Longrightarrow> window_ok win L i T' m log"
  by (fastforce simp: window_ok_def split: option.splits)

lemma window_ok_cong: "m' i = m i \<Longrightarrow> window_ok win L i T m' log = window_ok win L i T m log"
  by (simp add: window_ok_def)

lemma admitted_in_other [simp]: "j \<noteq> i \<Longrightarrow> admitted_in win w i ((j, t) # log) = admitted_in win w i log"
  by (simp add: admitted_in_def)

lemma window_ok_other_call:
  "j \<noteq> i \<Longrightarrow> window_ok win L i T m ((j, t) # log) = window_ok win L i T m log"
  by (auto simp: window_ok_def split: option.splits)

text \<open>After the roll the entry is of the current window and counts its calls.\<close>

lemma window_roll_ok:
  assumes "window_ok win L i T m log" and "steady win" and "T \<le> now" and "epoch_time now"
  shows "window_ok win L i now (window_roll i (win now) m) log
    \<and> (\<exists>n. window_roll i (win now) m i = Some (win now, n) \<and> unat n = admitted_in win (win now) i log)"
proof (cases "m i")
  case None
  then have none: "\<forall>p \<in> set log. fst p \<noteq> i" using assms(1) by (simp add: window_ok_def)
  then have "admitted_in win w i log = 0" for w by (auto simp: admitted_in_def filter_empty_conv)
  then show ?thesis
    using None none assms(4) by (auto simp: window_roll_def window_ok_def)
next
  case (Some e)
  obtain w n where e: "e = (w, n)" by fastforce
  from assms(1) Some e obtain t where
    t: "epoch_time t" "t \<le> T" "win t = w" "\<forall>p \<in> set log. fst p = i \<longrightarrow> epoch_time (snd p) \<and> snd p \<le> t"
    and n: "unat n = admitted_in win w i log" and le: "\<forall>w. admitted_in win w i log \<le> unat L"
    by (auto simp: window_ok_def)
  show ?thesis
  proof (cases "w = win now")
    case True
    then show ?thesis
      using window_ok_later [OF assms(1,3)] Some e n by (simp add: window_roll_def)
  next
    case False
    have "\<not> (fst p = i \<and> win (snd p) = win now)" if "p \<in> set log" for p
    proof
      assume p: "fst p = i \<and> win (snd p) = win now"
      then have "win t = win (snd p)"
        using assms(2-4) t that unfolding steady_def by (metis order_trans)
      then show False using p t(3) False by simp
    qed
    then have zero: "admitted_in win (win now) i log = 0" by (auto simp: admitted_in_def filter_empty_conv)
    have "\<forall>p \<in> set log. fst p = i \<longrightarrow> epoch_time (snd p) \<and> snd p \<le> now" using t assms(3) by fastforce
    then show ?thesis
      using Some e False zero le assms(4) by (auto simp: window_roll_def window_ok_def)
  qed
qed

lemma window_bump_ok:
  fixes n L :: "'n::len word"
  assumes "window_ok win L i now m log" and "m i = Some (win now, n)" and "n < L" and "epoch_time now"
  shows "window_ok win L i now (window_bump i (win now) m) ((i, now) # log)"
proof -
  from assms(1,2) have n: "unat n = admitted_in win (win now) i log" and le: "\<forall>w. admitted_in win w i log \<le> unat L"
    and log: "\<forall>p \<in> set log. fst p = i \<longrightarrow> epoch_time (snd p) \<and> snd p \<le> now"
    by (auto simp: window_ok_def)
  have "unat (n + 1) = unat n + 1"
  proof -
    have "unat L < 2 ^ LENGTH('n)" by (rule unsigned_less)
    moreover have "unat n < unat L" using assms(3) unfolding word_less_nat_alt .
    ultimately have "unat n + unat (1 :: 'n word) < 2 ^ LENGTH('n)" by (simp only: unat_1)
    from unat_add_lem [THEN iffD1, OF this] show ?thesis by simp
  qed
  moreover have "unat n < unat L" using assms(3) by (simp add: word_less_nat_alt)
  ultimately show ?thesis
    using assms(2,4) n le log by (auto simp: window_ok_def window_bump_def admitted_in_def)
qed

section \<open>One call\<close>

text \<open>What one look at the limits does to the counters of the calling client.\<close>

definition under_limits :: "calendar \<Rightarrow> time \<Rightarrow> api_client \<Rightarrow> usage_run \<Rightarrow> bool" where
  "under_limits cal now c s \<longleftrightarrow>
     (let i = cl_id c; rl = cl_rate_limit c; q = cl_quota c; log = ul_admitted s
      in (rl_rpm rl = 0 \<or> admitted_in minute_of (minute_of now) i log < unat (rl_rpm rl))
         \<and> (q_daily q = 0 \<or> admitted_in (day_of cal) (day_of cal now) i log < unat (q_daily q))
         \<and> (q_monthly q = 0 \<or> admitted_in (month_of cal) (month_of cal now) i log < unat (q_monthly q))
         \<and> (rl_concurrency rl = 0 \<or> count_list (ul_guards s) i < unat (rl_concurrency rl)))"

definition within_limits :: "calendar \<Rightarrow> api_client \<Rightarrow> usage_run \<Rightarrow> bool" where
  "within_limits cal c s \<longleftrightarrow>
     (let i = cl_id c; rl = cl_rate_limit c; q = cl_quota c; log = ul_admitted s
      in (rl_rpm rl = 0 \<or> (\<forall>w. admitted_in minute_of w i log \<le> unat (rl_rpm rl)))
         \<and> (q_daily q = 0 \<or> (\<forall>w. admitted_in (day_of cal) w i log \<le> unat (q_daily q)))
         \<and> (q_monthly q = 0 \<or> (\<forall>w. admitted_in (month_of cal) w i log \<le> unat (q_monthly q)))
         \<and> (rl_concurrency rl = 0 \<or> count_list (ul_guards s) i \<le> unat (rl_concurrency rl)))"

definition usage_ok_for :: "calendar \<Rightarrow> api_client \<Rightarrow> time \<Rightarrow> usage_run \<Rightarrow> bool" where
  "usage_ok_for cal c T s \<longleftrightarrow>
     (let i = cl_id c; rl = cl_rate_limit c; q = cl_quota c; u = ul_state s; log = ul_admitted s
      in (rl_rpm rl = 0 \<or> window_ok minute_of (rl_rpm rl) i T (u_rpm u) log)
         \<and> (q_daily q = 0 \<or> window_ok (day_of cal) (q_daily q) i T (u_daily u) log)
         \<and> (q_monthly q = 0 \<or> window_ok (month_of cal) (q_monthly q) i T (u_monthly u) log)
         \<and> (rl_concurrency rl = 0 \<or> unat (running_count i (u_concurrency u)) = count_list (ul_guards s) i
              \<and> count_list (ul_guards s) i \<le> unat (rl_concurrency rl)))"

lemma usage_ok_within: "usage_ok_for cal c T s \<Longrightarrow> within_limits cal c s"
  by (auto simp: usage_ok_for_def within_limits_def window_ok_def Let_def)

lemma usage_ok_start: "usage_ok_for cal c T usage_start"
  by (auto simp: usage_ok_for_def usage_start_def no_usage_def window_ok_def admitted_in_def running_count_def Let_def)

text \<open>A call of another client changes none of the entries of this one.\<close>

lemma acquire_other:
  assumes "cl_id d \<noteq> i" and "usage_try_acquire cal now d u = (res, u')"
  shows "u_rpm u' i = u_rpm u i \<and> u_daily u' i = u_daily u i \<and> u_monthly u' i = u_monthly u i
    \<and> running_count i (u_concurrency u') = running_count i (u_concurrency u)"
  using assms by (auto simp: usage_try_acquire_def Let_def running_count_def split: if_splits)

lemma acquire_result: "usage_try_acquire cal now c u = (Inr i, u') \<Longrightarrow> i = cl_id c"
  by (auto simp: usage_try_acquire_def Let_def split: if_splits)

definition staged :: "'n::len word \<Rightarrow> string \<Rightarrow> 'w \<Rightarrow> (string \<rightharpoonup> 'w \<times> 'n word) \<Rightarrow> (string \<rightharpoonup> 'w \<times> 'n word)" where
  "staged L i w m = (if L > 0 then window_roll i w m else m)"

lemma acquire_staged:
  "usage_try_acquire cal now c u =
     (let i = cl_id c; rl = cl_rate_limit c; q = cl_quota c;
          R = staged (rl_rpm rl) i (minute_of now) (u_rpm u);
          D = staged (q_daily q) i (day_of cal now) (u_daily u);
          M = staged (q_monthly q) i (month_of cal now) (u_monthly u)
      in if rl_rpm rl > 0 \<and> window_count i R \<ge> rl_rpm rl
         then (Inl (RateLimited (60 - epoch_seconds now mod 60)), u\<lparr>u_rpm := R\<rparr>)
         else if q_daily q > 0 \<and> window_count i D \<ge> q_daily q
         then (Inl (QuotaExceeded ''daily''), u\<lparr>u_rpm := R, u_daily := D\<rparr>)
         else if q_monthly q > 0 \<and> window_count i M \<ge> q_monthly q
         then (Inl (QuotaExceeded ''monthly''), u\<lparr>u_rpm := R, u_daily := D, u_monthly := M\<rparr>)
         else if rl_concurrency rl > 0 \<and> running_count i (u_concurrency u) \<ge> rl_concurrency rl
         then (Inl Concurrency, u\<lparr>u_rpm := R, u_daily := D, u_monthly := M\<rparr>)
         else (Inr i, u\<lparr>u_rpm := window_bump i (minute_of now) R, u_daily := window_bump i (day_of cal now) D,
                u_monthly := window_bump i (month_of cal now) M,
                u_concurrency := (u_concurrency u)(i \<mapsto> running_count i (u_concurrency u) + 1)\<rparr>))"
  by (simp add: usage_try_acquire_def staged_def Let_def)

lemma staged_ok:
  assumes "L = 0 \<or> window_ok win L i T m log" and "steady win" and "T \<le> now" and "epoch_time now"
  shows "L = 0 \<or> window_ok win L i now (staged L i (win now) m) log"
    and "L > 0 \<and> window_count i (staged L i (win now) m) \<ge> L \<longleftrightarrow> \<not> (L = 0 \<or> admitted_in win (win now) i log < unat L)"
    and "L = 0 \<or> admitted_in win (win now) i log < unat L \<Longrightarrow>
      L = 0 \<or> window_ok win L i now (window_bump i (win now) (staged L i (win now) m)) ((i, now) # log)"
proof -
  have "window_ok win L i now (staged L i (win now) m) log
      \<and> (\<exists>n. staged L i (win now) m i = Some (win now, n) \<and> unat n = admitted_in win (win now) i log)" if "L \<noteq> 0"
    using window_roll_ok [of win L i T m log now] assms that by (simp add: staged_def word_gt_0)
  then obtain n where n: "L \<noteq> 0 \<Longrightarrow> window_ok win L i now (staged L i (win now) m) log"
      "L \<noteq> 0 \<Longrightarrow> staged L i (win now) m i = Some (win now, n)" "L \<noteq> 0 \<Longrightarrow> unat n = admitted_in win (win now) i log"
    by blast
  show "L = 0 \<or> window_ok win L i now (staged L i (win now) m) log" using n(1) by blast
  show "L > 0 \<and> window_count i (staged L i (win now) m) \<ge> L \<longleftrightarrow> \<not> (L = 0 \<or> admitted_in win (win now) i log < unat L)"
    using n(2,3) by (cases "L = 0") (auto simp: window_count_def word_gt_0 word_le_nat_alt not_less)
  show "L = 0 \<or> window_ok win L i now (window_bump i (win now) (staged L i (win now) m)) ((i, now) # log)"
    if "L = 0 \<or> admitted_in win (win now) i log < unat L"
  proof (cases "L = 0")
    case False
    then show ?thesis
      using window_bump_ok [OF n(1,2) _ assms(4)] n(3) that by (simp add: word_less_nat_alt)
  qed simp
qed

lemma refused_shape:
  assumes "(res, u') = (if \<not> A then (Inl e1, u\<lparr>u_rpm := R\<rparr>)
      else if \<not> B then (Inl e2, u\<lparr>u_rpm := R, u_daily := D\<rparr>)
      else if \<not> E then (Inl e3, u\<lparr>u_rpm := R, u_daily := D, u_monthly := M\<rparr>)
      else if \<not> F then (Inl e4, u\<lparr>u_rpm := R, u_daily := D, u_monthly := M\<rparr>)
      else (Inr i, v))"
    and "\<not> (A \<and> B \<and> E \<and> F)"
  shows "(\<exists>e. res = Inl e) \<and> u_rpm u' = R \<and> (u_daily u' = u_daily u \<or> u_daily u' = D)
    \<and> (u_monthly u' = u_monthly u \<or> u_monthly u' = M) \<and> u_concurrency u' = u_concurrency u"
  using assms by (auto split: if_splits)

lemma running_bump:
  assumes "C = 0 \<or> unat (running_count i m) = k \<and> k \<le> unat (C :: u32)" and "C = 0 \<or> k < unat C"
  shows "C = 0 \<or> unat (running_count i (m(i \<mapsto> running_count i m + 1))) = Suc k \<and> Suc k \<le> unat C"
proof (cases "C = 0")
  case False
  then have k: "unat (running_count i m) = k" "k < unat C" using assms by auto
  have "unat C < 2 ^ LENGTH(32)" by (rule unsigned_less)
  with k have "unat (running_count i m) + unat (1 :: u32) < 2 ^ LENGTH(32)" by (simp only: unat_1)
  from unat_add_lem [THEN iffD1, OF this] show ?thesis
    using k by (simp add: running_count_def)
qed simp

text \<open>A call of the client itself is admitted exactly when it is under its limits.\<close>

lemma acquire_own:
  assumes "usage_ok_for cal c T s" and "steady (day_of cal)" and "steady (month_of cal)" and "T \<le> now" and "epoch_time now"
    and "cl_id d = cl_id c" and "cl_rate_limit d = cl_rate_limit c" and "cl_quota d = cl_quota c"
  shows "usage_ok_for cal c now (run_usage_op cal (CallOp now d) s)
    \<and> ((\<exists>i. fst (usage_try_acquire cal now d (ul_state s)) = Inr i) \<longleftrightarrow> under_limits cal now c s)"
proof -
  define i rl q u log where "i = cl_id c" and "rl = cl_rate_limit c" and "q = cl_quota c" and "u = ul_state s"
    and "log = ul_admitted s"
  note names = i_def [symmetric] rl_def [symmetric] q_def [symmetric] u_def [symmetric] log_def [symmetric]
  define R D M where "R = staged (rl_rpm rl) i (minute_of now) (u_rpm u)"
    and "D = staged (q_daily q) i (day_of cal now) (u_daily u)"
    and "M = staged (q_monthly q) i (month_of cal now) (u_monthly u)"
  define A B E F where "A = (rl_rpm rl = 0 \<or> admitted_in minute_of (minute_of now) i log < unat (rl_rpm rl))"
    and "B = (q_daily q = 0 \<or> admitted_in (day_of cal) (day_of cal now) i log < unat (q_daily q))"
    and "E = (q_monthly q = 0 \<or> admitted_in (month_of cal) (month_of cal now) i log < unat (q_monthly q))"
    and "F = (rl_concurrency rl = 0 \<or> count_list (ul_guards s) i < unat (rl_concurrency rl))"
  have under: "under_limits cal now c s \<longleftrightarrow> A \<and> B \<and> E \<and> F"
    by (simp add: under_limits_def Let_def names A_def B_def E_def F_def)
  have inv: "usage_ok_for cal c T' s' \<longleftrightarrow>
      (rl_rpm rl = 0 \<or> window_ok minute_of (rl_rpm rl) i T' (u_rpm (ul_state s')) (ul_admitted s'))
      \<and> (q_daily q = 0 \<or> window_ok (day_of cal) (q_daily q) i T' (u_daily (ul_state s')) (ul_admitted s'))
      \<and> (q_monthly q = 0 \<or> window_ok (month_of cal) (q_monthly q) i T' (u_monthly (ul_state s')) (ul_admitted s'))
      \<and> (rl_concurrency rl = 0 \<or> unat (running_count i (u_concurrency (ul_state s'))) = count_list (ul_guards s') i
           \<and> count_list (ul_guards s') i \<le> unat (rl_concurrency rl))" for T' s'
    by (simp add: usage_ok_for_def Let_def names)
  from assms(1) have ok: "rl_rpm rl = 0 \<or> window_ok minute_of (rl_rpm rl) i T (u_rpm u) log"
      "q_daily q = 0 \<or> window_ok (day_of cal) (q_daily q) i T (u_daily u) log"
      "q_monthly q = 0 \<or> window_ok (month_of cal) (q_monthly q) i T (u_monthly u) log"
    and run: "rl_concurrency rl = 0 \<or> unat (running_count i (u_concurrency u)) = count_list (ul_guards s) i
        \<and> count_list (ul_guards s) i \<le> unat (rl_concurrency rl)"
    by (simp_all add: inv names)
  note sR = staged_ok [OF ok(1) steady_minute assms(4,5), folded R_def A_def]
    and sD = staged_ok [OF ok(2) assms(2,4,5), folded D_def B_def]
    and sM = staged_ok [OF ok(3) assms(3,4,5), folded M_def E_def]
  have C: "rl_concurrency rl > 0 \<and> running_count i (u_concurrency u) \<ge> rl_concurrency rl \<longleftrightarrow> \<not> F"
    using run by (auto simp: word_gt_0 word_le_nat_alt F_def)
  note acquire = acquire_staged [of cal now d u, unfolded assms(6-8) Let_def names, folded R_def D_def M_def,
      unfolded sR(2) sD(2) sM(2) C]
  obtain res u' where a: "usage_try_acquire cal now d u = (res, u')" by fastforce
  show ?thesis
  proof (cases "A \<and> B \<and> E \<and> F")
    case True
    then have "usage_try_acquire cal now d u = (Inr i, u\<lparr>u_rpm := window_bump i (minute_of now) R,
        u_daily := window_bump i (day_of cal now) D, u_monthly := window_bump i (month_of cal now) M,
        u_concurrency := (u_concurrency u)(i \<mapsto> running_count i (u_concurrency u) + 1)\<rparr>)"
      unfolding acquire by simp
    moreover have "rl_concurrency rl = 0 \<or> count_list (ul_guards s) i < unat (rl_concurrency rl)"
      using True by (simp add: F_def)
    ultimately show ?thesis
      using True sR(3) sD(3) sM(3) running_bump [OF run]
      by (simp add: inv under names)
  next
    case False
    then have shape: "(\<exists>e. res = Inl e) \<and> u_rpm u' = R \<and> (u_daily u' = u_daily u \<or> u_daily u' = D)
        \<and> (u_monthly u' = u_monthly u \<or> u_monthly u' = M) \<and> u_concurrency u' = u_concurrency u"
      using refused_shape [OF trans [OF a [symmetric] acquire]] by blast
    have "q_daily q = 0 \<or> window_ok (day_of cal) (q_daily q) i now (u_daily u') log"
      using shape sD(1) ok(2) window_ok_later [OF _ assms(4)] by metis
    moreover have "q_monthly q = 0 \<or> window_ok (month_of cal) (q_monthly q) i now (u_monthly u') log"
      using shape sM(1) ok(3) window_ok_later [OF _ assms(4)] by metis
    ultimately have "usage_ok_for cal c now (s\<lparr>ul_state := u'\<rparr>)"
      using shape sR(1) run by (simp add: inv names)
    then show ?thesis using False a shape by (auto simp: names under)
  qed
qed

section \<open>A history of calls\<close>

text \<open>A call of another client, and the end of a call.\<close>

lemma call_other:
  assumes "usage_ok_for cal c T s" and "T \<le> now" and "cl_id d \<noteq> cl_id c"
  shows "usage_ok_for cal c now (run_usage_op cal (CallOp now d) s)"
proof -
  obtain res u' where a: "usage_try_acquire cal now d (ul_state s) = (res, u')" by fastforce
  note same = acquire_other [OF assms(3) a]
  let ?s = "run_usage_op cal (CallOp now d) s"
  have state: "ul_state ?s = u'" "ul_admitted ?s = ul_admitted s \<or> ul_admitted ?s = (cl_id d, now) # ul_admitted s"
      "count_list (ul_guards ?s) (cl_id c) = count_list (ul_guards s) (cl_id c)"
    using a assms(3) acquire_result [of cal now d "ul_state s"] by (auto split: sum.splits)
  have win: "window_ok win L (cl_id c) now m' (ul_admitted ?s)"
    if "window_ok win L (cl_id c) T m (ul_admitted s)" "m' (cl_id c) = m (cl_id c)"
    for win :: "time \<Rightarrow> 'w" and L :: "'n::len word" and m m'
  proof -
    have "window_ok win L (cl_id c) now m' (ul_admitted s)"
      using window_ok_later [OF that(1) assms(2)] window_ok_cong [of m' "cl_id c" m, OF that(2)] by blast
    then show ?thesis using state(2)
      by (elim disjE) (simp_all only: window_ok_other_call [OF assms(3)])
  qed
  let ?i = "cl_id c" and ?rl = "cl_rate_limit c" and ?q = "cl_quota c" and ?u = "ul_state s" and ?log = "ul_admitted s"
  from assms(1) have ok: "rl_rpm ?rl = 0 \<or> window_ok minute_of (rl_rpm ?rl) ?i T (u_rpm ?u) ?log"
      "q_daily ?q = 0 \<or> window_ok (day_of cal) (q_daily ?q) ?i T (u_daily ?u) ?log"
      "q_monthly ?q = 0 \<or> window_ok (month_of cal) (q_monthly ?q) ?i T (u_monthly ?u) ?log"
    and run: "rl_concurrency ?rl = 0 \<or> unat (running_count ?i (u_concurrency ?u)) = count_list (ul_guards s) ?i
        \<and> count_list (ul_guards s) ?i \<le> unat (rl_concurrency ?rl)"
    by (auto simp: usage_ok_for_def Let_def)
  from same have u: "u_rpm u' ?i = u_rpm ?u ?i" "u_daily u' ?i = u_daily ?u ?i" "u_monthly u' ?i = u_monthly ?u ?i" by blast+
  have "rl_rpm ?rl = 0 \<or> window_ok minute_of (rl_rpm ?rl) ?i now (u_rpm u') (ul_admitted ?s)"
    using ok(1) by (rule disj_forward) (assumption, erule win, rule u(1))
  moreover have "q_daily ?q = 0 \<or> window_ok (day_of cal) (q_daily ?q) ?i now (u_daily u') (ul_admitted ?s)"
    using ok(2) by (rule disj_forward) (assumption, erule win, rule u(2))
  moreover have "q_monthly ?q = 0 \<or> window_ok (month_of cal) (q_monthly ?q) ?i now (u_monthly u') (ul_admitted ?s)"
    using ok(3) by (rule disj_forward) (assumption, erule win, rule u(3))
  ultimately show ?thesis
    unfolding usage_ok_for_def Let_def state(1,3) using run same by (simp only:)
qed

lemma finish_ok:
  assumes "usage_ok_for cal c T s"
  shows "usage_ok_for cal c T (run_usage_op cal (FinishOp i) s)"
proof -
  let ?C = "rl_concurrency (cl_rate_limit c)" and ?m = "u_concurrency (ul_state s)" and ?g = "ul_guards s"
  have fields: "u_rpm (drop_concurrency_guard k u) = u_rpm u" "u_daily (drop_concurrency_guard k u) = u_daily u"
      "u_monthly (drop_concurrency_guard k u) = u_monthly u"
      "running_count j (u_concurrency (drop_concurrency_guard k u))
        = (let n = running_count j (u_concurrency u) in if j = k \<and> n \<noteq> 0 then n - 1 else n)" for u j k
    by (auto simp: drop_concurrency_guard_def running_count_def Let_def split: option.splits)
  have less: "unat (n - 1) = unat n - 1" if "n \<noteq> 0" for n :: u32
    using that by (simp add: unat_minus_one)
  have guards: "count_list (remove1 k g) j = (if j = k then count_list g j - 1 else count_list g j)" for j k and g :: "string list"
    by (induction g) auto
  have "?C = 0 \<or> unat (running_count (cl_id c) (u_concurrency (drop_concurrency_guard i (ul_state s))))
        = count_list (remove1 i ?g) (cl_id c) \<and> count_list (remove1 i ?g) (cl_id c) \<le> unat ?C"
    if "?C = 0 \<or> unat (running_count (cl_id c) ?m) = count_list ?g (cl_id c) \<and> count_list ?g (cl_id c) \<le> unat ?C"
      "i \<in> set ?g"
  proof (cases "i = cl_id c")
    case True
    then have "count_list ?g (cl_id c) \<noteq> 0" using that(2) by (simp add: count_list_0_iff)
    then show ?thesis using that(1) True less by (auto simp: fields guards Let_def)
  next
    case False
    then show ?thesis using that(1) by (auto simp: fields guards Let_def)
  qed
  then show ?thesis
    using assms by (auto simp: usage_ok_for_def fields Let_def)
qed

text \<open>Calls in the order of the clock, with unchanged limits of the client.\<close>

fun timely :: "time \<Rightarrow> usage_op list \<Rightarrow> bool" where
  "timely T [] = True"
| "timely T (CallOp now c # ops) = (T \<le> now \<and> epoch_time now \<and> timely now ops)"
| "timely T (FinishOp i # ops) = timely T ops"

definition same_limits :: "api_client \<Rightarrow> usage_op list \<Rightarrow> bool" where
  "same_limits c ops \<longleftrightarrow> (\<forall>now d. CallOp now d \<in> set ops \<and> cl_id d = cl_id c \<longrightarrow>
     cl_rate_limit d = cl_rate_limit c \<and> cl_quota d = cl_quota c)"

lemma history_ok:
  assumes "steady (day_of cal)" and "steady (month_of cal)"
    and "usage_ok_for cal c T s" and "timely T (ops @ [CallOp now c])" and "same_limits c ops"
  shows "\<exists>T'. usage_ok_for cal c T' (fold (run_usage_op cal) ops s) \<and> T' \<le> now \<and> epoch_time now"
  using assms(3-5)
proof (induction ops arbitrary: T s)
  case Nil
  then show ?case by auto
next
  case (Cons op ops)
  have rest: "same_limits c ops" using Cons.prems(3) by (auto simp: same_limits_def)
  show ?case
  proof (cases op)
    case (FinishOp i)
    then show ?thesis using Cons.IH [OF finish_ok [OF Cons.prems(1)] _ rest] Cons.prems(2) by simp
  next
    case (CallOp t d)
    then have t: "T \<le> t" "epoch_time t" "timely t (ops @ [CallOp now c])" using Cons.prems(2) by simp_all
    have "usage_ok_for cal c t (run_usage_op cal op s)"
    proof (cases "cl_id d = cl_id c")
      case True
      then have "cl_rate_limit d = cl_rate_limit c" "cl_quota d = cl_quota c"
        using Cons.prems(3) CallOp by (auto simp: same_limits_def)
      then show ?thesis using acquire_own [OF Cons.prems(1) assms(1,2) t(1,2) True] CallOp by blast
    next
      case False
      then show ?thesis using call_other [OF Cons.prems(1) t(1)] CallOp by blast
    qed
    then show ?thesis using Cons.IH [OF _ t(3) rest] by simp
  qed
qed


text \<open>A client with two calls a minute: the third of a minute is refused, the first of the next is not.\<close>

definition sample_calendar :: calendar where
  "sample_calendar = \<lparr>day_of = (\<lambda>_. ''day''), month_of = (\<lambda>_. ''month'')\<rparr>"

definition limited_caller :: api_client where
  "limited_caller = \<lparr>cl_id = ''c'', cl_name = ''n'', cl_description = [], cl_tenant_id = ''t'', cl_owner = ''o'',
     cl_granted_agent_ids = [''a''], cl_status = ''active'', cl_rate_limit = \<lparr>rl_rpm = 2, rl_concurrency = 3\<rparr>,
     cl_quota = \<lparr>q_daily = 0, q_monthly = 0\<rparr>, cl_created_at = [], cl_updated_at = []\<rparr>"

lemma sample_calendar_steady: "steady (day_of sample_calendar)" "steady (month_of sample_calendar)"
  by (simp_all add: steady_def sample_calendar_def)


end
