(* ===== verification/Api_Properties.thy ===== *)
theory Api_Properties
  imports Api_Admin Api_Limits
begin

text \<open>
  The properties of callers and published APIs: where a verified identity comes from, whom a key
  authenticates, what management can and cannot change, what the audit shows, and the limits.
\<close>

section \<open>Identities\<close>

lemma claims_identity_Some:
  assumes "claims_identity jc = Some identity"
  shows "\<exists>c. isolation_claims_of identity = Some c \<and> claims_ok c \<and> tenant_id c = jwt_tenant_id jc
    \<and> actor_id c = jwt_sub jc \<and> user_id identity = jwt_sub jc \<and> roles identity = jwt_roles jc
    \<and> auth_method_of identity = Jwt
    \<and> (provenance c = VerifiedExplicit \<longrightarrow> jwt_project_id jc = Some (project_id c))
    \<and> provenance c \<noteq> DeploymentConfig"
  using assms
  by (auto simp: claims_identity_def from_verified_jwt_def and_then_Inr_iff from_verified_Inr_iff claims_ok_def
      split: if_splits option.splits sum.splits)

text \<open>What a token says, by the library's word, under the configured profile.\<close>

definition token_says ::
  "('ks, 'j) jwt_lib \<Rightarrow> (string \<Rightarrow> string) \<Rightarrow> (string \<Rightarrow> parsed_url option) \<Rightarrow> environment \<Rightarrow> string \<Rightarrow> jwt_claims \<Rightarrow> bool" where
  "token_says lib dbg url env token jc \<longleftrightarrow>
     (auth_mode_of dbg env = Inr Hs256 \<and> decode_hs256 lib (jwt_secret env) token = Some jc)
     \<or> (auth_mode_of dbg env = Inr Oidc \<and> (\<exists>jwk a config. oidc_config_of url env = Inr config \<and> a \<in> allowed_algorithms
          \<and> decode_oidc lib jwk a (oidc_issuer config) (oidc_audience config) token = Some jc))"

lemma verify_jwt_source:
  assumes "verify_jwt lib dbg url fetch refetch now env token cache = (Some identity, cache')"
  shows "\<exists>jc. claims_identity jc = Some identity
    \<and> token_says lib dbg url env token jc"
  using assms unfolding token_says_def
  by (auto simp: verify_jwt_def verify_hs256_jwt_def verify_oidc_jwt_def
      split: sum.splits auth_mode.splits option.splits if_splits prod.splits Option.bind_splits)


section \<open>Keys\<close>

text \<open>What a key and a client must be for a token to be accepted.\<close>

definition authenticates :: "chrono_lib \<Rightarrow> (string \<Rightarrow> string) \<Rightarrow> time \<Rightarrow> string \<Rightarrow> key_center \<Rightarrow> api_key \<Rightarrow> api_client \<Rightarrow> bool" where
  "authenticates lib hash_key now token st k c \<longleftrightarrow>
     k \<in> set (kc_keys st) \<and> key_hash k = hash_key token \<and> key_status k = ''active''
     \<and> (\<forall>t. Option.bind (key_expires_at k) (parse_from_rfc3339 lib) = Some t \<longrightarrow> now \<le> t)
     \<and> c \<in> set (kc_clients st) \<and> cl_id c = key_client_id k \<and> cl_status c = ''active''
     \<and> (\<forall>d \<in> set (kc_clients st). cl_id d = cl_id c \<longrightarrow> d = c)
     \<and> (key_has_generated_tenant_prefix k \<longrightarrow> key_prefix_matches_tenant k (cl_tenant_id c))"

lemma one_candidate:
  "(case F of [c] \<Rightarrow> g c | _ \<Rightarrow> Inl e) = Inr x \<longleftrightarrow> (\<exists>c. F = [c] \<and> g c = Inr x)"
  by (cases F rule: remdups_adj.cases) auto

lemma not_expired: "(case x of None \<Rightarrow> False | Some t \<Rightarrow> now > t) \<longleftrightarrow> \<not> (\<forall>t. x = Some t \<longrightarrow> now \<le> (t :: time))"
  by (cases x) auto

lemma resolve_Inr:
  "resolve_bearer_token lib h now token keys clients = Inr ctx \<longleftrightarrow>
     starts_with ''sk-'' token \<and> (\<exists>k c. find (\<lambda>k. key_hash k = h token) keys = Some k \<and> key_status k = ''active''
       \<and> (\<forall>t. Option.bind (key_expires_at k) (parse_from_rfc3339 lib) = Some t \<longrightarrow> now \<le> t)
       \<and> filter (\<lambda>c. cl_id c = key_client_id k) clients = [c]
       \<and> (key_has_generated_tenant_prefix k \<longrightarrow> key_prefix_matches_tenant k (cl_tenant_id c))
       \<and> cl_status c = ''active''
       \<and> ctx = \<lparr>ctx_client_id = cl_id c, ctx_key_id = key_id k, ctx_key_prefix = key_prefix k,
            ctx_tenant_id = cl_tenant_id c, ctx_owner = cl_owner c, ctx_granted_agent_ids = cl_granted_agent_ids c\<rparr>)"
proof -
  have chain: "(if P then Inl e else x) = Inr y \<longleftrightarrow> \<not> P \<and> x = Inr y" for P :: bool and e x and y :: api_caller_context
    by simp
  have find: "(case m of None \<Rightarrow> Inl Unauthorized | Some k \<Rightarrow> f k) = Inr ctx \<longleftrightarrow> (\<exists>k. m = Some k \<and> f k = Inr ctx)"
    for m :: "api_key option" and f
    by (cases m) auto
  have active: "cl_status c \<noteq> CLIENT_ID_CONFLICT_STATUS \<and> cl_status c = ''active'' \<and> z \<longleftrightarrow> cl_status c = ''active'' \<and> z" for c z
    by (auto simp: CLIENT_ID_CONFLICT_STATUS_def)
  have prefix: "\<not> (a \<and> \<not> b) \<longleftrightarrow> (a \<longrightarrow> b)" for a b by blast
  have pull: "(\<exists>k. A k \<and> B k \<and> C k \<and> (\<exists>c. D k c)) \<longleftrightarrow> (\<exists>k c. A k \<and> B k \<and> C k \<and> D k c)" for A B C :: "api_key \<Rightarrow> bool" and D :: "api_key \<Rightarrow> api_client \<Rightarrow> bool"
    by blast
  show ?thesis
    unfolding resolve_bearer_token_def chain find one_candidate not_expired not_not prefix pull sum.inject active
    by (intro conj_cong arg_cong [where f = Ex] ext refl) (rule eq_commute)
qed

lemma filter_single:
  assumes "filter P xs = [c]"
  shows "c \<in> set xs" and "P c" and "x \<in> set xs \<Longrightarrow> P x \<Longrightarrow> x = c"
proof -
  have "set (filter P xs) = {c}" using assms by simp
  then show "c \<in> set xs" and "P c" and "x \<in> set xs \<Longrightarrow> P x \<Longrightarrow> x = c" by auto
qed

lemma resolve_authenticates:
  assumes "resolve_bearer_token lib h now token (kc_keys st) (kc_clients st) = Inr ctx"
  shows "\<exists>k c. authenticates lib h now token st k c \<and> ctx_client_id ctx = cl_id c \<and> ctx_tenant_id ctx = cl_tenant_id c
    \<and> ctx_key_id ctx = key_id k \<and> ctx_granted_agent_ids ctx = cl_granted_agent_ids c"
proof -
  from assms obtain k c where k: "find (\<lambda>k. key_hash k = h token) (kc_keys st) = Some k" "key_status k = ''active''"
      "\<forall>t. Option.bind (key_expires_at k) (parse_from_rfc3339 lib) = Some t \<longrightarrow> now \<le> t"
    and c: "filter (\<lambda>c. cl_id c = key_client_id k) (kc_clients st) = [c]" "cl_status c = ''active''"
      "key_has_generated_tenant_prefix k \<longrightarrow> key_prefix_matches_tenant k (cl_tenant_id c)"
    and ctx: "ctx = \<lparr>ctx_client_id = cl_id c, ctx_key_id = key_id k, ctx_key_prefix = key_prefix k,
            ctx_tenant_id = cl_tenant_id c, ctx_owner = cl_owner c, ctx_granted_agent_ids = cl_granted_agent_ids c\<rparr>"
    unfolding resolve_Inr by (elim exE conjE) (rule that)
  from find_SomeD [OF k(1)] have "k \<in> set (kc_keys st)" "key_hash k = h token" by simp_all
  moreover have "\<forall>d \<in> set (kc_clients st). cl_id d = cl_id c \<longrightarrow> d = c"
    using filter_single [OF c(1)] by metis
  ultimately have "authenticates lib h now token st k c"
    unfolding authenticates_def using k(2,3) c(2,3) filter_single(1,2) [OF c(1)] by blast
  then show ?thesis unfolding ctx by (intro exI conjI) (assumption | simp)+
qed


section \<open>Issued keys\<close>

lemma da_tenant_Inr:
  "da_tenant env resource identity = Inr t \<Longrightarrow>
     \<exists>c. isolation_claims_of identity = Some c \<and> tenant_id c = t \<and> provenance c = VerifiedExplicit"
  by (auto simp: da_tenant_def require_control_plane_da_def and_then_Inr_iff
      split: option.splits isolation_scope_provenance.splits)

lemma slug_nonempty [simp]: "tenant_key_slug t \<noteq> []"
  by (simp add: tenant_key_slug_def Let_def)

lemma generated_prefix_matches:
  assumes "KEY_PREFIX_SECRET_CHARS \<le> length secret" and "list_all is_hex_byte secret"
    and "key_prefix k = ''sk-'' @ tenant_key_slug t @ ''-'' @ take KEY_PREFIX_SECRET_CHARS secret"
  shows "key_prefix_matches_tenant k t"
proof -
  have "CHR ''-'' \<notin> set secret"
    using assms(2) by (auto simp: list_all_iff is_hex_byte_def is_ascii_digit_def)
  then have "CHR ''-'' \<notin> set (take KEY_PREFIX_SECRET_CHARS secret)" by (meson in_set_takeD)
  then show ?thesis
    using assms(1,3) by (simp add: key_prefix_matches_tenant_def starts_with_iff)
qed

lemma kc_save [simp]:
  "kc_clients (save_api_keys w st) = kc_clients st" "kc_keys (save_api_keys w st) = kc_keys st"
  "kc_clients (save_api_clients w st) = kc_clients st" "kc_keys (save_api_clients w st) = kc_keys st"
  "kc_keys_file (save_api_clients w st) = kc_keys_file st" "kc_clients_file (save_api_keys w st) = kc_clients_file st"
  by (simp_all add: save_api_keys_def save_api_clients_def)

lemma filter_sole:
  assumes "distinct xs" and "x \<in> set xs" and "P x" and "\<And>y. y \<in> set xs \<Longrightarrow> P y \<Longrightarrow> y = x"
  shows "filter P xs = [x]"
proof -
  from assms(2) obtain ys zs where xs: "xs = ys @ x # zs" by (meson split_list)
  have "\<not> P y" if "y \<in> set ys \<union> set zs" for y
  proof
    assume "P y"
    then have "y = x" using that xs by (intro assms(4)) auto
    then show False using that assms(1) by (auto simp: xs)
  qed
  then show ?thesis using assms(3) by (simp add: xs filter_empty_conv)
qed

lemma find_append_new: "find P xs = None \<Longrightarrow> P x \<Longrightarrow> find P (xs @ [x]) = Some x"
  by (induction xs) (auto split: if_splits)


end
