(* ===== verification/Key_Lifecycle.thy ===== *)
theory Key_Lifecycle
  imports Api_Properties
begin

text \<open>
  Histories of the key center: every management request, the steps of public calls that write keys,
  counters or the audit log, and restarts, in any order. A revoked key stays dead over every history, and
  what one tenant does leaves the tokens of another as they are.
\<close>

section \<open>Histories\<close>

text \<open>An update carries what other tasks do between its two looks at the clients.\<close>

datatype key_op =
    CreateClient environment user_identity create_client_request string string bool
  | UpdateClient environment user_identity string update_client_request string bool "key_op list"
  | DeleteClient environment user_identity string bool bool
  | IssueKey environment user_identity string issue_key_request string string string bool
  | RevokeKey environment user_identity string string bool
  | TouchKey bool string string
  | PublicStep usage_inner "string option"
  | Restart

fun run_key_op :: "(string \<Rightarrow> string) \<Rightarrow> key_op \<Rightarrow> key_center \<Rightarrow> key_center" where
  "run_key_op h (CreateClient env who req new_id now_text w) st =
     snd (create_api_client_handler env who req new_id now_text w st)"
| "run_key_op h (UpdateClient env who i req now_text w between) st =
     snd (update_api_client_handler env who i req now_text w (\<lambda>s. foldl (\<lambda>s op. run_key_op h op s) s between) st)"
| "run_key_op h (DeleteClient env who i cw kw) st = snd (delete_api_client_handler env who i cw kw st)"
| "run_key_op h (IssueKey env who i req secret new_id now_text w) st =
     snd (issue_api_key_handler h env who i req secret new_id now_text w st)"
| "run_key_op h (RevokeKey env who i kid w) st = snd (revoke_api_key_handler env who i kid w st)"
| "run_key_op h (TouchKey w kid now_text) st = touch_key_last_used w kid now_text st"
| "run_key_op h (PublicStep u audit) st = st\<lparr>kc_usage := u, kc_audit := audit\<rparr>"
| "run_key_op h Restart st = restart st"

definition run_key_ops :: "(string \<Rightarrow> string) \<Rightarrow> key_op list \<Rightarrow> key_center \<Rightarrow> key_center" where
  "run_key_ops h ops st = fold (run_key_op h) ops st"

text \<open>The secrets a history issues keys with, and the identifiers it creates clients with.\<close>

fun issued_secrets :: "key_op \<Rightarrow> string list" where
  "issued_secrets (IssueKey env who i req secret new_id now_text w) = [secret]"
| "issued_secrets (UpdateClient env who i req now_text w between) = concat (map issued_secrets between)"
| "issued_secrets _ = []"

fun created_ids :: "key_op \<Rightarrow> string list" where
  "created_ids (CreateClient env who req new_id now_text w) = [new_id]"
| "created_ids (UpdateClient env who i req now_text w between) = concat (map created_ids between)"
| "created_ids _ = []"

definition never_issues :: "(string \<Rightarrow> string) \<Rightarrow> string \<Rightarrow> key_op \<Rightarrow> bool" where
  "never_issues h token op \<longleftrightarrow>
     (\<forall>secret \<in> set (issued_secrets op). \<forall>t. h (''sk-'' @ tenant_key_slug t @ ''-'' @ secret) \<noteq> h token)"

lemma never_issues_between:
  "never_issues h token (UpdateClient env who i req now_text w between) \<Longrightarrow> op \<in> set between \<Longrightarrow> never_issues h token op"
  by (auto simp: never_issues_def)

section \<open>Keys\<close>

text \<open>What each handler does to the keys and their file.\<close>

lemma create_keeps_keys [simp]:
  "kc_keys (snd (create_api_client_handler env who req i t w st)) = kc_keys st"
  "kc_keys_file (snd (create_api_client_handler env who req i t w st)) = kc_keys_file st"
  by (auto simp: create_api_client_handler_def Let_def split: sum.splits)

lemma update_cases:
  "snd (update_api_client_handler env who i req t w b st) = st
   \<or> snd (update_api_client_handler env who i req t w b st) = b st
   \<or> (\<exists>tenant n. da_tenant env ''API client operations'' who = Inr tenant \<and> n < length (kc_clients (b st))
        \<and> cl_id (kc_clients (b st) ! n) = i \<and> cl_tenant_id (kc_clients (b st) ! n) = tenant
        \<and> snd (update_api_client_handler env who i req t w b st) = save_api_clients w
            ((b st)\<lparr>kc_clients := (kc_clients (b st))[n := update_client req t (kc_clients (b st) ! n)]\<rparr>))"
  by (auto simp: update_api_client_handler_def Let_def dest!: position_SomeD split: sum.splits option.splits)

lemma revoke_cases:
  "snd (revoke_api_key_handler env who i kid w st) = st
   \<or> (\<exists>tenant n. da_tenant env ''API client operations'' who = Inr tenant
        \<and> list_ex (\<lambda>c. cl_id c = i \<and> cl_tenant_id c = tenant) (kc_clients st)
        \<and> n < length (kc_keys st) \<and> key_client_id (kc_keys st ! n) = i
        \<and> snd (revoke_api_key_handler env who i kid w st) = save_api_keys w
            (st\<lparr>kc_keys := (kc_keys st)[n := (kc_keys st ! n)\<lparr>key_status := ''revoked''\<rparr>]\<rparr>))"
  by (auto simp: revoke_api_key_handler_def Let_def dest!: position_SomeD split: sum.splits option.splits)

lemma issue_cases:
  "snd (issue_api_key_handler h env who i req secret kid t w st) = st
   \<or> (\<exists>tenant k. key_hash k = h (''sk-'' @ tenant_key_slug tenant @ ''-'' @ secret)
        \<and> snd (issue_api_key_handler h env who i req secret kid t w st)
          = save_api_keys w (st\<lparr>kc_keys := kc_keys st @ [k]\<rparr>))"
  by (auto simp: issue_api_key_handler_def generate_key_def Let_def split: sum.splits option.splits
      intro!: exI [of _ "\<lparr>key_id = kid, key_name = ik_name req, key_client_id = i,
        key_prefix = _, key_hash = h (''sk-'' @ tenant_key_slug _ @ ''-'' @ secret),
        key_status = ''active'', key_last_used_at = None, key_expires_at = ik_expires_at req, key_created_at = t\<rparr>"])

lemma touch_cases:
  "touch_key_last_used w kid t st = save_api_keys w st
   \<or> (\<exists>n < length (kc_keys st). touch_key_last_used w kid t st = save_api_keys w
        (st\<lparr>kc_keys := (kc_keys st)[n := (kc_keys st ! n)\<lparr>key_last_used_at := Some t\<rparr>]\<rparr>))"
  by (auto simp: touch_key_last_used_def dest!: position_SomeD split: option.splits)

lemma delete_cases:
  "snd (delete_api_client_handler env who i cw kw st) = st
   \<or> (\<exists>tenant. da_tenant env ''API client operations'' who = Inr tenant
        \<and> list_ex (\<lambda>c. cl_id c = i \<and> cl_tenant_id c = tenant) (kc_clients st)
        \<and> snd (delete_api_client_handler env who i cw kw st) =
           save_api_keys kw ((save_api_clients cw
             (st\<lparr>kc_clients := filter (\<lambda>c. cl_id c \<noteq> i \<or> cl_tenant_id c \<noteq> tenant) (kc_clients st)\<rparr>))
               \<lparr>kc_keys := filter (\<lambda>k. key_client_id k \<noteq> i) (kc_keys st)\<rparr>))"
  by (auto simp: delete_api_client_handler_def Let_def split: sum.splits)

lemma saved_keys:
  "kc_keys_file (save_api_keys w st) = (if w then Some (kc_keys st) else kc_keys_file st)"
  by (simp add: save_api_keys_def)

section \<open>A revoked key\<close>

definition dead_keys :: "string \<Rightarrow> api_key list \<Rightarrow> bool" where
  "dead_keys hash ks \<longleftrightarrow> (\<forall>k \<in> set ks. key_hash k = hash \<longrightarrow> key_status k \<noteq> ''active'')"

definition dead_key :: "string \<Rightarrow> key_center \<Rightarrow> bool" where
  "dead_key hash st \<longleftrightarrow> dead_keys hash (kc_keys st) \<and> (\<forall>ks. kc_keys_file st = Some ks \<longrightarrow> dead_keys hash ks)"

lemma dead_keys_update:
  "dead_keys hash ks \<Longrightarrow> (key_hash k = hash \<Longrightarrow> key_status k \<noteq> ''active'') \<Longrightarrow> dead_keys hash (ks[n := k])"
  unfolding dead_keys_def using set_update_subset_insert by fast

lemma dead_key_save:
  "dead_key hash st \<Longrightarrow> dead_keys hash (kc_keys st') \<Longrightarrow> kc_keys_file st' = kc_keys_file st
   \<Longrightarrow> dead_key hash (save_api_keys w st')"
  by (simp add: dead_key_def saved_keys)

lemma dead_key_cong:
  "dead_key hash st \<Longrightarrow> kc_keys st' = kc_keys st \<Longrightarrow> kc_keys_file st' = kc_keys_file st \<Longrightarrow> dead_key hash st'"
  by (simp add: dead_key_def)

lemma dead_key_step:
  "never_issues h token op \<Longrightarrow> dead_key (h token) st \<Longrightarrow> dead_key (h token) (run_key_op h op st)"
proof (induction h op st rule: run_key_op.induct)
  case (2 h env who i req t w between st)
  have "dead_key (h token) (foldl (\<lambda>s op. run_key_op h op s) st between)"
    unfolding foldl_conv_fold using "2.prems"(2)
    by (rule fold_invariant [where Q = "\<lambda>op. op \<in> set between" and P = "dead_key (h token)", rotated])
      (use "2.IH" never_issues_between [OF "2.prems"(1)] in auto)
  then show ?case
    unfolding run_key_op.simps
    using update_cases [of env who i req t w "\<lambda>s. foldl (\<lambda>s op. run_key_op h op s) s between" st] "2.prems"(2)
    by (elim disjE exE conjE) (simp_all, erule dead_key_cong, simp_all)
next
  case (3 h env who i cw kw st)
  then show ?case
    unfolding run_key_op.simps using delete_cases [of env who i cw kw st]
    by (elim disjE exE conjE) (simp, auto simp: saved_keys dead_key_def dead_keys_def)
next
  case (4 h env who i req secret kid t w st)
  then show ?case
    unfolding run_key_op.simps using issue_cases [of h env who i req secret kid t w st]
    by (elim disjE exE conjE)
      (simp, simp only:, rule dead_key_save, assumption, auto simp: dead_key_def dead_keys_def never_issues_def)
next
  case (5 h env who i kid w st)
  then show ?case
    unfolding run_key_op.simps using revoke_cases [of env who i kid w st]
    by (elim disjE exE conjE)
      (simp, simp only:, rule dead_key_save, assumption, auto simp: dead_key_def intro!: dead_keys_update)
next
  case (6 h w kid t st)
  have "dead_keys (h token) ((kc_keys st)[n := (kc_keys st ! n)\<lparr>key_last_used_at := Some t\<rparr>])"
    if "n < length (kc_keys st)" for n
    using "6.prems"(2) that by (intro dead_keys_update) (auto simp: dead_key_def dead_keys_def)
  then show ?case
    unfolding run_key_op.simps using touch_cases [of w kid t st] "6.prems"(2)
    by (elim disjE exE conjE) (simp_all add: saved_keys dead_key_def)
next
  case (8 h st)
  then show ?case by (cases "kc_keys_file st") (auto simp: dead_key_def restart_def load_api_keys_def dead_keys_def)
qed (simp_all add: dead_key_def)

lemma dead_key_refused:
  "dead_key (h token) st \<Longrightarrow>
     resolve_bearer_token lib h now token (kc_keys st) (kc_clients st) \<in> {Inl KeyRevoked, Inl Unauthorized}"
  by (auto simp: resolve_bearer_token_def dead_key_def dead_keys_def dest!: find_SomeD split: option.splits)

text \<open>
  C38: a revoked key stays dead: when a revocation answers that it succeeded and its file was written, no
  later history of requests of any tenant, public calls, restarts and failing writes makes its token
  resolve again, as long as no new key with the same hash is issued.
\<close>

theorem revoked_key_stays_dead:
  assumes "revoke_api_key_handler env who i kid True st = (KeyRevokedOk kid, st')"
    and "k \<in> set (kc_keys st)" and "key_id k = kid" and "key_hash k = h token"
    and "distinct (map key_id (kc_keys st))" and "distinct (map key_hash (kc_keys st))"
    and "\<forall>op \<in> set ops. never_issues h token op"
  shows "resolve_bearer_token lib h now token (kc_keys (run_key_ops h ops st')) (kc_clients (run_key_ops h ops st'))
    \<in> {Inl KeyRevoked, Inl Unauthorized}"
proof -
  from assms(1) obtain n where n: "n < length (kc_keys st)" "key_id (kc_keys st ! n) = kid"
    and st': "st' = save_api_keys True (st\<lparr>kc_keys := (kc_keys st)[n := (kc_keys st ! n)\<lparr>key_status := ''revoked''\<rparr>]\<rparr>)"
    by (auto simp: revoke_api_key_handler_def Let_def key_not_found_def client_id_conflict_def
        dest!: position_SomeD split: sum.splits option.splits if_splits)
  obtain m where m: "m < length (kc_keys st)" "kc_keys st ! m = k" using assms(2) by (meson in_set_conv_nth)
  have "m = n" using n m assms(3,5) by (metis distinct_conv_nth length_map nth_map)
  have other: "key_hash (kc_keys st ! j) \<noteq> h token" if "j < length (kc_keys st)" "j \<noteq> n" for j
    using that n m \<open>m = n\<close> assms(4,6) by (metis distinct_conv_nth length_map nth_map)
  have "dead_keys (h token) (kc_keys st')"
  proof -
    have "\<not> (key_hash (kc_keys st' ! j) = h token \<and> key_status (kc_keys st' ! j) = ''active'')"
      if "j < length (kc_keys st')" for j
      using that other [of j] n(1) by (cases "j = n") (auto simp: st')
    then show ?thesis by (auto simp: dead_keys_def in_set_conv_nth)
  qed
  then have "dead_key (h token) st'" by (simp add: dead_key_def st' saved_keys)
  then have "dead_key (h token) (run_key_ops h ops st')"
    unfolding run_key_ops_def
    by (rule fold_invariant [where Q = "never_issues h token" and P = "dead_key (h token)", rotated])
      (use assms(7) dead_key_step in auto)
  then show ?thesis by (rule dead_key_refused)
qed

section \<open>Tokens of other tenants\<close>

text \<open>What resolution reads of a key, and the lists it is found in.\<close>

lemma find_filter_keep: "find P xs = Some x \<Longrightarrow> Q x \<Longrightarrow> find P (filter Q xs) = Some x"
  by (induction xs) (auto split: if_splits)

lemma find_append_old: "find P xs = Some x \<Longrightarrow> find P (xs @ ys) = Some x"
  by (induction xs) (auto split: if_splits)

lemma find_list_update:
  "n < length xs \<Longrightarrow> P y = P (xs ! n) \<Longrightarrow> find P xs = Some x \<Longrightarrow>
     find P (xs[n := y]) = Some x \<or> (x = xs ! n \<and> find P (xs[n := y]) = Some y)"
proof (induction xs arbitrary: n)
  case (Cons a xs)
  then show ?case by (cases n) (auto split: if_splits)
qed simp

lemma find_update_same:
  assumes "find P xs = Some x" and "n < length xs" and "P y = P (xs ! n)" and "xs ! n = x \<Longrightarrow> f y = f x"
  shows "\<exists>x'. find P (xs[n := y]) = Some x' \<and> f x' = f x"
  using find_list_update [OF assms(2,3,1)] assms(4) by auto

definition resolves_to ::
  "chrono_lib \<Rightarrow> (string \<Rightarrow> string) \<Rightarrow> time \<Rightarrow> string \<Rightarrow> api_caller_context \<Rightarrow> key_center \<Rightarrow> bool" where
  "resolves_to lib h now token ctx st \<longleftrightarrow>
     resolve_bearer_token lib h now token (kc_keys st) (kc_clients st) = Inr ctx"

lemma resolves_key:
  assumes "resolves_to lib h now token ctx st"
  obtains k c where "find (\<lambda>k. key_hash k = h token) (kc_keys st) = Some k" and "key_client_id k = ctx_client_id ctx"
    and "filter (\<lambda>c. cl_id c = ctx_client_id ctx) (kc_clients st) = [c]" and "cl_tenant_id c = ctx_tenant_id ctx"
proof -
  from assms obtain k c where k: "find (\<lambda>k. key_hash k = h token) (kc_keys st) = Some k"
    and c: "filter (\<lambda>c. cl_id c = key_client_id k) (kc_clients st) = [c]"
    and ctx: "ctx_client_id ctx = cl_id c" "cl_tenant_id c = ctx_tenant_id ctx"
    unfolding resolves_to_def resolve_Inr by auto
  have id: "key_client_id k = ctx_client_id ctx" using filter_single(2) [OF c] ctx by simp
  show thesis by (rule that [OF k id c [unfolded id] ctx(2)])
qed

lemma resolves_cong:
  assumes "resolves_to lib h now token ctx st"
    and "\<And>k. find (\<lambda>k. key_hash k = h token) (kc_keys st) = Some k \<Longrightarrow> key_client_id k = ctx_client_id ctx \<Longrightarrow>
      \<exists>k'. find (\<lambda>k. key_hash k = h token) (kc_keys st') = Some k'
        \<and> k'\<lparr>key_last_used_at := None\<rparr> = k\<lparr>key_last_used_at := None\<rparr>"
    and "filter (\<lambda>c. cl_id c = ctx_client_id ctx) (kc_clients st') = filter (\<lambda>c. cl_id c = ctx_client_id ctx) (kc_clients st)"
  shows "resolves_to lib h now token ctx st'"
proof -
  obtain k c where k: "find (\<lambda>k. key_hash k = h token) (kc_keys st) = Some k"
    and id: "key_client_id k = ctx_client_id ctx"
    and c: "filter (\<lambda>c. cl_id c = ctx_client_id ctx) (kc_clients st) = [c]"
    by (rule resolves_key [OF assms(1)])
  obtain k' where k': "find (\<lambda>k. key_hash k = h token) (kc_keys st') = Some k'"
    and same: "k'\<lparr>key_last_used_at := None\<rparr> = k\<lparr>key_last_used_at := None\<rparr>"
    using assms(2) [OF k id] by blast
  from same have eqs: "key_id k' = key_id k" "key_client_id k' = ctx_client_id ctx" "key_prefix k' = key_prefix k"
    "key_status k' = key_status k" "key_expires_at k' = key_expires_at k"
    using id by (cases k; cases k'; simp)+
  have "resolve_bearer_token lib h now token (kc_keys st') (kc_clients st')
      = resolve_bearer_token lib h now token (kc_keys st) (kc_clients st)"
    unfolding resolve_bearer_token_def key_has_generated_tenant_prefix_def key_prefix_matches_tenant_def
      k k' option.case eqs id assms(3) c list.case by (rule refl)
  then show ?thesis using assms(1) unfolding resolves_to_def by (rule trans)
qed

text \<open>The client of a token is the only one with its identifier.\<close>

lemma resolves_sole:
  assumes "resolves_to lib h now token ctx st" and "c \<in> set (kc_clients st)" and "cl_id c = ctx_client_id ctx"
  shows "cl_tenant_id c = ctx_tenant_id ctx"
proof -
  obtain d where d: "filter (\<lambda>c. cl_id c = ctx_client_id ctx) (kc_clients st) = [d]" "cl_tenant_id d = ctx_tenant_id ctx"
    by (rule resolves_key [OF assms(1)])
  have "c = d" by (rule filter_single(3) [OF d(1) assms(2,3)])
  then show ?thesis using d(2) by simp
qed

definition acts_for_other :: "environment \<Rightarrow> user_identity \<Rightarrow> string \<Rightarrow> bool" where
  "acts_for_other env who tenant \<longleftrightarrow> da_tenant env ''API client operations'' who \<noteq> Inr tenant"

fun foreign :: "string \<Rightarrow> key_op \<Rightarrow> bool" where
  "foreign tenant (CreateClient env who req new_id now_text w) = acts_for_other env who tenant"
| "foreign tenant (UpdateClient env who i req now_text w between) =
     (acts_for_other env who tenant \<and> list_all (foreign tenant) between)"
| "foreign tenant (DeleteClient env who i cw kw) = acts_for_other env who tenant"
| "foreign tenant (IssueKey env who i req secret new_id now_text w) = acts_for_other env who tenant"
| "foreign tenant (RevokeKey env who i kid w) = acts_for_other env who tenant"
| "foreign tenant (TouchKey w kid now_text) = True"
| "foreign tenant (PublicStep u audit) = True"
| "foreign tenant Restart = False"

lemma create_clients:
  "kc_clients (snd (create_api_client_handler env who req i t w st)) = kc_clients st
   \<or> (\<exists>c. cl_id c = i \<and> kc_clients (snd (create_api_client_handler env who req i t w st)) = kc_clients st @ [c])"
  by (auto simp: create_api_client_handler_def Let_def split: sum.splits)

lemma update_client_keeps [simp]:
  "cl_id (update_client req t c) = cl_id c" "cl_tenant_id (update_client req t c) = cl_tenant_id c"
  by (simp_all add: update_client_def Let_def split: option.splits)

lemma other_client:
  assumes "resolves_to lib h now token ctx st" and "acts_for_other env who (ctx_tenant_id ctx)"
    and "da_tenant env ''API client operations'' who = Inr tenant"
    and "list_ex (\<lambda>c. cl_id c = i \<and> cl_tenant_id c = tenant) (kc_clients st)"
  shows "i \<noteq> ctx_client_id ctx"
  using assms resolves_sole [OF assms(1)] by (auto simp: acts_for_other_def list_ex_iff)

lemma foreign_step:
  "foreign (ctx_tenant_id ctx) op \<Longrightarrow> never_issues h token op \<Longrightarrow> ctx_client_id ctx \<notin> set (created_ids op)
   \<Longrightarrow> resolves_to lib h now token ctx st \<Longrightarrow> resolves_to lib h now token ctx (run_key_op h op st)"
proof (induction h op st rule: run_key_op.induct)
  case (1 h env who req i t w st)
  then show ?case
    using create_clients [of env who req i t w st] by (auto intro!: resolves_cong [OF "1.prems"(4)])
next
  case (2 h env who i req t w between st)
  let ?b = "foldl (\<lambda>s op. run_key_op h op s) st between"
  have b: "resolves_to lib h now token ctx ?b"
    unfolding foldl_conv_fold using "2.prems"(4)
    by (rule fold_invariant [where Q = "\<lambda>op. op \<in> set between", rotated])
      (use "2.IH" never_issues_between [OF "2.prems"(2)] "2.prems"(1,3) in \<open>auto simp: list_all_iff\<close>)
  have "resolves_to lib h now token ctx (save_api_clients w (?b\<lparr>kc_clients := (kc_clients ?b)[n := c]\<rparr>))"
    if "da_tenant env ''API client operations'' who = Inr tenant" "n < length (kc_clients ?b)"
      "cl_id (kc_clients ?b ! n) = i" "cl_tenant_id (kc_clients ?b ! n) = tenant" "cl_id c = i" for tenant n c
  proof -
    have "i \<noteq> ctx_client_id ctx"
      using other_client [OF b _ that(1)] "2.prems"(1) that(2-4) by (force simp: list_ex_iff)
    then show ?thesis using that by (auto intro!: resolves_cong [OF b] filter_list_update)
  qed
  then show ?case
    unfolding run_key_op.simps
    using update_cases [of env who i req t w "\<lambda>s. foldl (\<lambda>s op. run_key_op h op s) s between" st] "2.prems"(4) b
    by (elim disjE exE conjE) simp_all
next
  case (3 h env who i cw kw st)
  have "i \<noteq> ctx_client_id ctx" if "da_tenant env ''API client operations'' who = Inr tenant"
      "list_ex (\<lambda>c. cl_id c = i \<and> cl_tenant_id c = tenant) (kc_clients st)" for tenant
    using other_client [OF "3.prems"(4) _ that] "3.prems"(1) by simp
  then show ?case
    unfolding run_key_op.simps using delete_cases [of env who i cw kw st] "3.prems"(4)
    by (elim disjE exE conjE) (simp, simp only:, rule resolves_cong, assumption,
      auto intro!: exI find_filter_keep filter_cong)
next
  case (4 h env who i req secret kid t w st)
  then show ?case
    unfolding run_key_op.simps using issue_cases [of h env who i req secret kid t w st]
    by (elim disjE exE conjE) (simp, simp only:, rule resolves_cong, assumption, auto intro!: exI find_append_old)
next
  case (5 h env who i kid w st)
  have "resolves_to lib h now token ctx
      (save_api_keys w (st\<lparr>kc_keys := (kc_keys st)[n := (kc_keys st ! n)\<lparr>key_status := ''revoked''\<rparr>]\<rparr>))"
    if "da_tenant env ''API client operations'' who = Inr tenant"
      "list_ex (\<lambda>c. cl_id c = i \<and> cl_tenant_id c = tenant) (kc_clients st)"
      "n < length (kc_keys st)" "key_client_id (kc_keys st ! n) = i" for tenant n
    using other_client [OF "5.prems"(4) _ that(1,2)] "5.prems"(1) that(3,4)
    by (intro resolves_cong [OF "5.prems"(4)]) (simp, rule find_update_same, auto)
  then show ?case
    unfolding run_key_op.simps using revoke_cases [of env who i kid w st] "5.prems"(4)
    by (elim disjE exE conjE) simp_all
next
  case (6 h w kid t st)
  have "resolves_to lib h now token ctx
      (save_api_keys w (st\<lparr>kc_keys := (kc_keys st)[n := (kc_keys st ! n)\<lparr>key_last_used_at := Some t\<rparr>]\<rparr>))"
    if "n < length (kc_keys st)" for n
    using that by (intro resolves_cong [OF "6.prems"(4)]) (simp, rule find_update_same, auto)
  then show ?case
    unfolding run_key_op.simps using touch_cases [of w kid t st] "6.prems"(4)
    by (elim disjE exE conjE) (simp_all add: resolves_to_def)
qed (simp_all add: resolves_to_def)

text \<open>
  C39: what one tenant does to its clients and keys, in any order and with any failing writes, does not
  change what the token of another tenant resolves to, as long as it is issued no key with the same hash
  and is given no client identifier that exists.
\<close>

theorem tokens_of_others_unaffected:
  assumes "resolve_bearer_token lib h now token (kc_keys st) (kc_clients st) = Inr ctx"
    and "\<forall>op \<in> set ops. foreign (ctx_tenant_id ctx) op \<and> never_issues h token op \<and> ctx_client_id ctx \<notin> set (created_ids op)"
  shows "resolve_bearer_token lib h now token (kc_keys (run_key_ops h ops st)) (kc_clients (run_key_ops h ops st)) = Inr ctx"
proof -
  have "resolves_to lib h now token ctx (run_key_ops h ops st)"
    unfolding run_key_ops_def
    by (rule fold_invariant [where P = "resolves_to lib h now token ctx" and Q = "\<lambda>op. op \<in> set ops"])
      (use assms foreign_step in \<open>auto simp: resolves_to_def\<close>)
  then show ?thesis by (simp add: resolves_to_def)
qed

section \<open>The audit log\<close>

lemma visible_to_one:
  assumes "audit_visible t (legacy_audit_client_ids clients t) e" and "audit_visible t' (legacy_audit_client_ids clients t') e"
  shows "t = t'"
proof (cases "json_get e ''tenant_id''")
  case None
  then obtain i where "i \<in> legacy_audit_client_ids clients t" "i \<in> legacy_audit_client_ids clients t'"
    using assms by (auto simp: audit_visible_def split: option.splits)
  then obtain c d where "c \<in> set clients" "d \<in> set clients" "cl_id c = i" "cl_id d = i"
      "cl_tenant_id c = t" "cl_tenant_id d = t'" "cross_tenant_client_id_collisions clients i = None"
    by (auto simp: legacy_audit_client_ids_def Let_def)
  then show ?thesis using collides_iff [of clients i] by blast
next
  case (Some v)
  then show ?thesis using assms by (simp add: audit_visible_def)
qed

lemma read_audit_records:
  "e \<in> set (read_audit_for_tenant pj file t ids cl ag n) \<Longrightarrow>
     audit_visible t ids e \<and> (\<exists>content line. file = Some content \<and> line \<in> set (str_lines content) \<and> pj line = Some e)"
  by (auto simp: read_audit_for_tenant_def List.map_filter_def split: option.splits dest!: in_set_takeD; blast)

text \<open>
  Audit records are confined to their tenant: whatever filters and limits two requests for the audit
  log use, requests of two tenants are never answered the same record, each answer has at most a thousand
  records, and every record answered is a line of the log.
\<close>

theorem audit_confined:
  assumes "list_api_audit_handler pj env who q st = AuditRecords es"
    and "list_api_audit_handler pj env' who' q' st = AuditRecords es'"
    and "da_tenant env ''API audit access'' who \<noteq> da_tenant env' ''API audit access'' who'"
  shows "set es \<inter> set es' = {} \<and> length es \<le> 1000
    \<and> (\<forall>e \<in> set es. \<exists>content line. kc_audit st = Some content \<and> line \<in> set (str_lines content) \<and> pj line = Some e)"
proof -
  have answer: "\<exists>t cl ag n. da_tenant env ''API audit access'' who = Inr t \<and> n \<le> 1000
      \<and> es = read_audit_for_tenant pj (kc_audit st) t (legacy_audit_client_ids (kc_clients st) t) cl ag n"
    if "list_api_audit_handler pj env who q st = AuditRecords es" for env who q es
  proof -
    from that obtain t q' where "da_tenant env ''API audit access'' who = Inr t" and "q = Some q'"
      by (cases "da_tenant env ''API audit access'' who"; cases q) (simp_all add: list_api_audit_handler_def)
    then have "da_tenant env ''API audit access'' who = Inr t"
      "es = read_audit_for_tenant pj (kc_audit st) t (legacy_audit_client_ids (kc_clients st) t) (aq_client_id q')
        (aq_agent_id q') (min (case aq_limit q' of None \<Rightarrow> 200 | Some n \<Rightarrow> n) 1000)"
      using that by (simp_all add: list_api_audit_handler_def)
    then show ?thesis by (intro exI conjI) (assumption | rule min.cobounded2)+
  qed
  from answer [OF assms(1)] obtain t cl ag n where
    a: "da_tenant env ''API audit access'' who = Inr t" "n \<le> 1000"
      "es = read_audit_for_tenant pj (kc_audit st) t (legacy_audit_client_ids (kc_clients st) t) cl ag n" by blast
  from answer [OF assms(2)] obtain t' cl' ag' n' where
    b: "da_tenant env' ''API audit access'' who' = Inr t'"
      "es' = read_audit_for_tenant pj (kc_audit st) t' (legacy_audit_client_ids (kc_clients st) t') cl' ag' n'" by blast
  have "t \<noteq> t'" using assms(3) a(1) b(1) by simp
  then have "set es \<inter> set es' = {}"
    using read_audit_records visible_to_one unfolding a(3) b(2) by blast
  moreover have "length es \<le> n" unfolding a(3) by (auto simp: read_audit_for_tenant_def split: option.splits)
  moreover have "\<forall>e \<in> set es. \<exists>content line. kc_audit st = Some content \<and> line \<in> set (str_lines content) \<and> pj line = Some e"
    using read_audit_records unfolding a(3) by blast
  ultimately show ?thesis using a(2) by simp
qed

end
