(* ===== verification/Api_Samples.thy ===== *)
theory Api_Samples
  imports Key_Lifecycle
begin

text \<open>
  Concrete requests, keys and calls at which the properties of identities, keys and the public gate
  apply: a tenant with one client, its key, a DA of the tenant and a published agent.
\<close>

section \<open>One tenant, one client\<close>

definition plain_env :: environment where
  "plain_env = (\<lambda>_. None)"

definition da_claims :: "string \<Rightarrow> isolation_claims" where
  "da_claims t = \<lparr>tenant_id = t, project_id = ''p'', actor_id = ''da'', provenance = VerifiedExplicit,
     missing_scope_field = None\<rparr>"

definition da_of :: "string \<Rightarrow> user_identity" where
  "da_of t = \<lparr>user_id = ''da'', identity_tenant_id = t, roles = [''DA''], auth_method_of = Jwt,
     isolation_claims_of = Some (da_claims t)\<rparr>"

lemma da_tenant_da_of [simp]: "da_tenant env resource (da_of t) = Inr t"
  by (simp add: da_tenant_def require_control_plane_da_def require_verified_isolation_claims_def require_role_def
      da_of_def da_claims_def has_role_def)

definition one_client :: api_client where
  "one_client = \<lparr>cl_id = ''c1'', cl_name = ''bot'', cl_description = [], cl_tenant_id = ''acme'', cl_owner = ''da'',
     cl_granted_agent_ids = [''a1''], cl_status = ''active'', cl_rate_limit = \<lparr>rl_rpm = 60, rl_concurrency = 4\<rparr>,
     cl_quota = \<lparr>q_daily = 0, q_monthly = 0\<rparr>, cl_created_at = [], cl_updated_at = []\<rparr>"

definition one_token :: string where
  "one_token = ''sk-acme-0123456789abcdef''"

definition one_key :: api_key where
  "one_key = \<lparr>key_id = ''k1'', key_name = ''first'', key_client_id = ''c1'', key_prefix = ''sk-acme-012345'',
     key_hash = one_token, key_status = ''active'', key_last_used_at = None, key_expires_at = None, key_created_at = []\<rparr>"

definition one_agent :: json where
  "one_agent = JObject [(''id'', JString ''a1''), (''tenant_id'', JString ''acme''), (''published'', JBool True)]"

definition one_center :: key_center where
  "one_center = \<lparr>kc_clients = [one_client], kc_keys = [one_key], kc_clients_file = None, kc_keys_file = None,
     kc_agents = [one_agent], kc_usage = no_usage, kc_audit = None\<rparr>"

definition plain_chrono :: chrono_lib where
  "plain_chrono = \<lparr>parse_from_rfc3339 = (\<lambda>_. None), to_rfc3339_micros = (\<lambda>_. [])\<rparr>"

lemmas one_defs = one_client_def one_token_def one_key_def one_agent_def one_center_def

lemma no_collision: "cross_tenant_client_id_collisions [c] i = None"
  using collides_iff [of "[c]" i] by simp

lemma slug_acme: "tenant_key_slug ''acme'' = ''acme''"
  by code_simp

definition one_context :: api_caller_context where
  "one_context = \<lparr>ctx_client_id = ''c1'', ctx_key_id = ''k1'', ctx_key_prefix = ''sk-acme-012345'', ctx_tenant_id = ''acme'',
     ctx_owner = ''da'', ctx_granted_agent_ids = [''a1'']\<rparr>"

lemma one_resolves:
  "resolve_bearer_token plain_chrono (\<lambda>s. s) 0 one_token (kc_keys one_center) (kc_clients one_center) = Inr one_context"
  by code_simp

section \<open>Keys\<close>


theorem revoked_key_stays_dead_witness:
  "resolve_bearer_token plain_chrono (\<lambda>s. s) 0 one_token
     (kc_keys (run_key_ops (\<lambda>s. s) [Restart, TouchKey False ''k1'' ''now'', Restart]
        (snd (revoke_api_key_handler plain_env (da_of ''acme'') ''c1'' ''k1'' True one_center))))
     (kc_clients (run_key_ops (\<lambda>s. s) [Restart, TouchKey False ''k1'' ''now'', Restart]
        (snd (revoke_api_key_handler plain_env (da_of ''acme'') ''c1'' ''k1'' True one_center))))
   \<in> {Inl KeyRevoked, Inl Unauthorized}"
proof -
  let ?r = "revoke_api_key_handler plain_env (da_of ''acme'') ''c1'' ''k1'' True one_center"
  have "fst ?r = KeyRevokedOk ''k1''"
    by (simp add: revoke_api_key_handler_def one_defs no_collision tenant_may_manage_key_def Let_def)
  then have "?r = (KeyRevokedOk ''k1'', snd ?r)" by (metis prod.collapse)
  from revoked_key_stays_dead [OF this, of one_key "\<lambda>s. s" one_token] show ?thesis
    by (simp add: one_center_def one_key_def never_issues_def)
qed

theorem tokens_of_others_unaffected_witness:
  "resolve_bearer_token plain_chrono (\<lambda>s. s) 0 one_token
     (kc_keys (run_key_ops (\<lambda>s. s) [DeleteClient plain_env (da_of ''evil'') ''c1'' True True,
        RevokeKey plain_env (da_of ''evil'') ''c1'' ''k1'' True] one_center))
     (kc_clients (run_key_ops (\<lambda>s. s) [DeleteClient plain_env (da_of ''evil'') ''c1'' True True,
        RevokeKey plain_env (da_of ''evil'') ''c1'' ''k1'' True] one_center)) = Inr one_context"
  by (rule tokens_of_others_unaffected [OF one_resolves])
    (simp add: acts_for_other_def never_issues_def one_context_def)

text \<open>A log with one line of each tenant.\<close>

definition two_lines :: "string \<Rightarrow> json option" where
  "two_lines line = Some (JObject [(''tenant_id'', JString line)])"

theorem audit_confined_witness:
  "\<exists>es es'. es = [JObject [(''tenant_id'', JString ''acme'')]] \<and> es' = [JObject [(''tenant_id'', JString ''evil'')]]
    \<and> set es \<inter> set es' = {} \<and> length es \<le> 1000"
proof -
  let ?st = "one_center\<lparr>kc_audit := Some (''acme'' @ [CHR 0x0A] @ ''evil'' @ [CHR 0x0A])\<rparr>"
  let ?q = "Some \<lparr>aq_client_id = None, aq_agent_id = None, aq_limit = None\<rparr>"
  have lines: "str_lines (''acme'' @ [CHR 0x0A] @ ''evil'' @ [CHR 0x0A]) = [''acme'', ''evil'']" by code_simp
  have "list_api_audit_handler two_lines plain_env (da_of t) ?q ?st
      = AuditRecords [JObject [(''tenant_id'', JString t)]]" if "t = ''acme'' \<or> t = ''evil''" for t
    using that by (auto simp: list_api_audit_handler_def read_audit_for_tenant_def lines [simplified] two_lines_def
        List.map_filter_def audit_visible_def json_get_def)
  from audit_confined [OF this this, of "''acme''" "''evil''"] show ?thesis by simp
qed

section \<open>Calls\<close>

definition sample_jwt :: jwt_claims where
  "sample_jwt = \<lparr>jwt_sub = ''alice'', jwt_tenant_id = ''acme'', jwt_project_id = Some ''p1'', jwt_roles = [''DA''], jwt_exp = 0\<rparr>"

definition sample_jwt_identity :: user_identity where
  "sample_jwt_identity = \<lparr>user_id = ''alice'', identity_tenant_id = ''acme'', roles = [''DA''], auth_method_of = Jwt,
     isolation_claims_of = Some \<lparr>tenant_id = ''acme'', project_id = ''p1'', actor_id = ''alice'',
       provenance = VerifiedExplicit, missing_scope_field = None\<rparr>\<rparr>"

definition accepting_jwt :: "(unit, unit) jwt_lib" where
  "accepting_jwt = \<lparr>decode_hs256 = (\<lambda>secret token. Some sample_jwt), decode_header = (\<lambda>_. None),
     find_jwk = (\<lambda>_ _. None), decode_oidc = (\<lambda>_ _ _ _ _. None)\<rparr>"

definition parts_of_request where
  "parts_of_request = from_request_parts
     (\<lambda>t. verify_jwt accepting_jwt (\<lambda>s. s) (\<lambda>_. None) (\<lambda>_. None) (\<lambda>_. None) 0 plain_env t None) (\<lambda>_. None) plain_env
     (Some ''Bearer t'') None None"

lemma bearer_request:
  "header_to_str val = Some val \<Longrightarrow> split_ascii_whitespace val = s # token # ws \<Longrightarrow> eq_ignore_ascii_case s ''bearer''
   \<Longrightarrow> verify token = (Some identity, cache') \<Longrightarrow> from_request_parts verify dec env (Some val) x cache = (Inr identity, cache')"
  by (simp add: from_request_parts_def)


definition calm_call :: call_env where
  "calm_call = \<lparr>call_now = (\<lambda>_. 0), call_others = (\<lambda>_ s. s), call_audit_writable = True, call_keys_writable = True,
     call_latency_ms = 0\<rparr>"

definition plain_lib :: public_lib where
  "plain_lib = \<lparr>pl_chrono = plain_chrono, pl_hash_key = (\<lambda>s. s),
     pl_calendar = \<lparr>day_of = (\<lambda>_. ''day''), month_of = (\<lambda>_. ''month'')\<rparr>, pl_show_json = (\<lambda>_. []), pl_rfc3339 = (\<lambda>_. [])\<rparr>"


end
