(* ===== verification/Llm_Stream.thy ===== *)
theory Llm_Stream
  imports Json Rust_Text
begin

text \<open>
  Streamed model answers: the parser of server-sent events (\<open>src/llm/sse.rs\<close>) with the two wire formats it
  reads, and the events it yields (\<open>src/llm/stream_types.rs\<close>). A floating-point number is an element of a
  parameter type with the operations the code uses of it; the JSON reader is a parameter.
\<close>

section \<open>Events\<close>

record 'f f64_lib =
  f64_of :: "jnum \<Rightarrow> 'f"
  finite_and_not_negative :: "'f \<Rightarrow> bool"
  f64_zero :: 'f
  f64_add :: "'f \<Rightarrow> 'f \<Rightarrow> 'f"

record 'f stream_usage =
  prompt_tokens :: u32
  completion_tokens :: u32
  su_total_tokens :: u32
  cached_tokens :: "u32 option"
  cost_usd :: "'f option"

record message_start_event =
  ms_id :: "string option"
  ms_model :: "string option"
  ms_role :: string

record 'f message_delta_event =
  md_finish_reason :: "string option"
  md_usage :: "'f stream_usage option"

datatype content_block =
    TextBlock string
  | ToolUse string string
  | ThinkingBlock string

datatype content_block_delta =
    TextDelta string
  | InputJsonDelta string
  | ThinkingDelta string
  | ToolCallDelta "string option" "string option" "string option"

datatype 'f stream_event =
    MessageStart message_start_event
  | MessageDelta "'f message_delta_event"
  | ContentBlockStart u32 content_block
  | ContentBlockDelta u32 content_block_delta
  | ContentBlockStop u32
  | MessageStop

datatype sse_error = SseError string

section \<open>Usage blocks\<close>

definition u32_of :: "u64 \<Rightarrow> u32 option" where
  "u32_of n = (if unat n < 2 ^ 32 then Some (ucast n) else None)"

definition checked_add_u32 :: "u32 \<Rightarrow> u32 \<Rightarrow> u32 option" where
  "checked_add_u32 a b = (if unat a + unat b < 2 ^ 32 then Some (a + b) else None)"

definition tokens_of :: "json \<Rightarrow> string \<Rightarrow> u32 option" where
  "tokens_of u key = Option.bind (Option.bind (json_get u key) as_u64) u32_of"

definition reported_token_counts :: "json \<Rightarrow> string \<Rightarrow> string \<Rightarrow> (u32 \<times> u32 \<times> u32) option" where
  "reported_token_counts u input_key output_key =
     Option.bind (tokens_of u input_key) (\<lambda>input.
     Option.bind (tokens_of u output_key) (\<lambda>output.
     Option.bind (if json_get u ''total_tokens'' \<in> {None, Some JNull} then checked_add_u32 input output
                  else tokens_of u ''total_tokens'') (\<lambda>total.
       Some (input, output, total))))"

fun as_number :: "json \<Rightarrow> jnum option" where
  "as_number (JNumber n) = Some n"
| "as_number _ = None"

definition reported_cost_usd :: "'f f64_lib \<Rightarrow> json \<Rightarrow> 'f option" where
  "reported_cost_usd fl u =
     (case Option.bind (json_get u ''cost'') as_number of
        None \<Rightarrow> None
      | Some n \<Rightarrow> if finite_and_not_negative fl (f64_of fl n) then Some (f64_of fl n) else None)"

text \<open>The cast \<open>as u32\<close> keeps the low 32 bits.\<close>

definition cached_prompt_tokens :: "json \<Rightarrow> u32 option" where
  "cached_prompt_tokens u =
     map_option ucast
       (case Option.bind (Option.bind (json_get u ''prompt_tokens_details'') (\<lambda>d. json_get d ''cached_tokens'')) as_u64 of
          Some n \<Rightarrow> Some n
        | None \<Rightarrow> Option.bind (json_get u ''cache_read_input_tokens'') as_u64)"

definition usage_block :: "'f f64_lib \<Rightarrow> string \<Rightarrow> string \<Rightarrow> json \<Rightarrow> 'f stream_usage option" where
  "usage_block fl input_key output_key u =
     map_option (\<lambda>(input, output, total).
         \<lparr>prompt_tokens = input, completion_tokens = output, su_total_tokens = total,
          cached_tokens = cached_prompt_tokens u, cost_usd = reported_cost_usd fl u\<rparr>)
       (reported_token_counts u input_key output_key)"

definition chat_chunk_usage :: "'f f64_lib \<Rightarrow> json \<Rightarrow> 'f stream_usage option" where
  "chat_chunk_usage fl u = usage_block fl ''prompt_tokens'' ''completion_tokens'' u"

definition responses_usage :: "'f f64_lib \<Rightarrow> json \<Rightarrow> 'f stream_usage option" where
  "responses_usage fl u = usage_block fl ''input_tokens'' ''output_tokens'' u"

section \<open>The chat-completions format\<close>

definition index_of :: "json \<Rightarrow> string \<Rightarrow> u32" where
  "index_of v key = (case Option.bind (json_get v key) as_u64 of None \<Rightarrow> 0 | Some n \<Rightarrow> ucast n)"

definition str_or_empty :: "string option \<Rightarrow> string" where
  "str_or_empty s = (case s of None \<Rightarrow> [] | Some t \<Rightarrow> t)"

text \<open>The delta of a choice: text, then reasoning, then the first tool call, whichever is there.\<close>

definition delta_event :: "u32 \<Rightarrow> json \<Rightarrow> 'f stream_event option" where
  "delta_event index d =
     (case get_str d ''content'' of
        Some (c # text) \<Rightarrow> Some (ContentBlockDelta index (TextDelta (c # text)))
      | _ \<Rightarrow>
     (case get_str d ''reasoning_content'' of
        Some (c # text) \<Rightarrow> Some (ContentBlockDelta index (ThinkingDelta (c # text)))
      | _ \<Rightarrow>
     (case Option.bind (json_get d ''tool_calls'') as_array of
        Some (tc # _) \<Rightarrow>
          let f = json_get tc ''function''
          in Some (ContentBlockDelta (index_of tc ''index'')
               (ToolCallDelta (get_str tc ''id'') (Option.bind f (\<lambda>f. get_str f ''name''))
                  (Option.bind f (\<lambda>f. get_str f ''arguments''))))
      | _ \<Rightarrow> None)))"

definition usage_only :: "'f f64_lib \<Rightarrow> json \<Rightarrow> 'f stream_event option" where
  "usage_only fl v =
     map_option (\<lambda>u. MessageDelta \<lparr>md_finish_reason = None, md_usage = Some u\<rparr>)
       (Option.bind (json_get v ''usage'') (chat_chunk_usage fl))"

definition choice_event :: "'f f64_lib \<Rightarrow> json \<Rightarrow> json \<Rightarrow> 'f stream_event option" where
  "choice_event fl v choice =
     (case Option.bind (json_get choice ''delta'') (delta_event (index_of choice ''index'')) of
        Some e \<Rightarrow> Some e
      | None \<Rightarrow>
          (case get_str choice ''finish_reason'' of
             Some (c # r) \<Rightarrow> Some (MessageDelta \<lparr>md_finish_reason = Some (c # r),
                 md_usage = Option.bind (json_get v ''usage'') (chat_chunk_usage fl)\<rparr>)
           | _ \<Rightarrow> None))"

definition parse_openai_stream_event :: "'f f64_lib \<Rightarrow> json \<Rightarrow> sse_error + 'f stream_event option" where
  "parse_openai_stream_event fl v =
     (if str_or_empty (get_str v ''type'') = ''ping'' then Inr None
      else case Option.bind (json_get v ''choices'') as_array of
        Some [] \<Rightarrow> Inr (usage_only fl v)
      | cs \<Rightarrow>
          (case (case cs of Some (choice # _) \<Rightarrow> choice_event fl v choice | _ \<Rightarrow> None) of
             Some e \<Rightarrow> Inr (Some e)
           | None \<Rightarrow>
               (case usage_only fl v of
                  Some e \<Rightarrow> Inr (Some e)
                | None \<Rightarrow>
                    Inr (map_option (\<lambda>i. MessageStart \<lparr>ms_id = Some i, ms_model = get_str v ''model'', ms_role = ''assistant''\<rparr>)
                      (get_str v ''id'')))))"

section \<open>The responses format\<close>

definition has_tool_call_items :: "json option \<Rightarrow> bool" where
  "has_tool_call_items response =
     (case Option.bind (Option.bind response (\<lambda>r. json_get r ''output'')) as_array of
        None \<Rightarrow> False
      | Some items \<Rightarrow> list_ex (\<lambda>i. get_str i ''type'' \<in> {Some ''function_call'', Some ''custom_tool_call''}) items)"

definition parse_responses_api_event :: "'f f64_lib \<Rightarrow> json \<Rightarrow> sse_error + 'f stream_event option" where
  "parse_responses_api_event fl v =
     (let event_type = str_or_empty (get_str v ''type'');
          response = json_get v ''response'';
          item = json_get v ''item'';
          d = str_or_empty (get_str v ''delta'')
      in if event_type = ''response.created'' then
           Inr (Some (MessageStart \<lparr>ms_id = Option.bind response (\<lambda>r. get_str r ''id''),
             ms_model = Option.bind response (\<lambda>r. get_str r ''model''), ms_role = ''assistant''\<rparr>))
         else if event_type = ''response.output_item.added'' then
           (if str_or_empty (Option.bind item (\<lambda>i. get_str i ''type'')) \<in> {''function_call'', ''custom_tool_call''} then
              Inr (Some (ContentBlockStart (index_of v ''output_index'')
                (ToolUse (str_or_empty (Option.bind
                     (case Option.bind item (\<lambda>i. json_get i ''call_id'') of
                        Some c \<Rightarrow> Some c | None \<Rightarrow> Option.bind item (\<lambda>i. json_get i ''id'')) as_str))
                   (str_or_empty (Option.bind item (\<lambda>i. get_str i ''name''))))))
            else Inr None)
         else if event_type = ''response.output_text.delta'' then
           Inr (if d = [] then None else Some (ContentBlockDelta (index_of v ''output_index'') (TextDelta d)))
         else if event_type = ''response.reasoning_text.delta'' then
           Inr (if d = [] then None else Some (ContentBlockDelta 0 (ThinkingDelta d)))
         else if event_type \<in> {''response.function_call_arguments.delta'', ''response.custom_tool_call_input.delta''} then
           Inr (if d = [] then None
                else Some (ContentBlockDelta (index_of v ''output_index'') (ToolCallDelta None None (Some d))))
         else if event_type \<in> {''response.completed'', ''response.incomplete'', ''response.failed''} then
           (let status = (case Option.bind response (\<lambda>r. get_str r ''status'') of
                  Some s \<Rightarrow> s | None \<Rightarrow> trim_start_matches ''response.'' event_type);
                reason = (if status = ''completed'' then if has_tool_call_items response then ''tool_calls'' else ''stop''
                          else if status = ''incomplete'' then ''length'' else ''error'')
            in Inr (Some (MessageDelta \<lparr>md_finish_reason = Some reason,
                 md_usage = Option.bind (Option.bind response (\<lambda>r. json_get r ''usage'')) (responses_usage fl)\<rparr>)))
         else Inr None)"

section \<open>Frames\<close>

text \<open>The data lines and the last event name of a frame; comments and other fields are skipped.\<close>

fun scan_lines :: "string list \<Rightarrow> string option \<Rightarrow> string list \<Rightarrow> string option \<times> string list" where
  "scan_lines [] name datas = (name, datas)"
| "scan_lines (l # ls) name datas =
     (if starts_with '':'' l then scan_lines ls name datas
      else case strip_prefix ''event:'' l of
        Some n \<Rightarrow> scan_lines ls (Some (trim n)) datas
      | None \<Rightarrow>
          (case strip_prefix ''data:'' l of
             Some d \<Rightarrow> scan_lines ls name (datas @ [trim_start d])
           | None \<Rightarrow> scan_lines ls name datas))"

definition parse_frame ::
  "'f f64_lib \<Rightarrow> (string \<Rightarrow> json option) \<Rightarrow> string \<Rightarrow> sse_error + 'f stream_event option" where
  "parse_frame fl parse_json frame =
     (let trimmed = trim frame
      in if trimmed = [] then Inr None
         else case scan_lines (str_lines trimmed) None [] of
           (name, datas) \<Rightarrow>
             if name = Some ''ping'' then Inr None
             else if datas = [] then Inr None
             else let payload = join_with [CHR 0x0A] datas
             in if payload = ''[DONE]'' then Inr None
             else (case parse_json payload of
                     None \<Rightarrow> Inr None
                   | Some v \<Rightarrow>
                       if starts_with ''response.'' (str_or_empty (get_str v ''type''))
                       then parse_responses_api_event fl v
                       else parse_openai_stream_event fl v))"

section \<open>The parser\<close>

definition MAX_SSE_BUFFER_BYTES :: nat where
  "MAX_SSE_BUFFER_BYTES = 1048576"

text \<open>The loop with a read and a write index, as the list it leaves behind.\<close>

fun crlf_to_lf :: "string \<Rightarrow> string" where
  "crlf_to_lf [] = []"
| "crlf_to_lf (c # s) =
     (case s of
        d # t \<Rightarrow> if c = CHR 0x0D \<and> d = CHR 0x0A then CHR 0x0A # crlf_to_lf t else c # crlf_to_lf s
      | [] \<Rightarrow> [c])"

definition ends_in_cr :: "string \<Rightarrow> bool" where
  "ends_in_cr s \<longleftrightarrow> s \<noteq> [] \<and> last s = CHR 0x0D"

definition normalize_crlf_from :: "string \<Rightarrow> nat \<Rightarrow> string" where
  "normalize_crlf_from buffer start =
     (let limit = (if ends_in_cr buffer then length buffer - 1 else length buffer)
      in if start \<ge> limit then buffer
         else take start buffer @ crlf_to_lf (take (limit - start) (drop start buffer)) @ drop limit buffer)"

abbreviation blank_line :: string where
  "blank_line \<equiv> [CHR 0x0A, CHR 0x0A]"

definition next_frame :: "string \<Rightarrow> (string \<times> string) option" where
  "next_frame buffer = split_once blank_line buffer"

lemma next_frame_shorter: "next_frame b = Some (f, r) \<Longrightarrow> length r < length b"
  unfolding next_frame_def by (drule split_once_Some) simp

function frame_loop ::
  "(string \<Rightarrow> sse_error + 'e option) \<Rightarrow> string \<Rightarrow> 'e list \<Rightarrow> (sse_error + 'e list) \<times> string" where
  "frame_loop parse buffer events =
     (case next_frame buffer of
        None \<Rightarrow> (Inr events, buffer)
      | Some (frame, rest) \<Rightarrow>
          (case parse (from_utf8_lossy frame) of
             Inl e \<Rightarrow> (Inl e, rest)
           | Inr None \<Rightarrow> frame_loop parse rest events
           | Inr (Some event) \<Rightarrow> frame_loop parse rest (events @ [event])))"
  by pat_completeness auto
termination
  by (relation "measure (\<lambda>(p, b, es). length b)") (auto simp: next_frame_shorter)

definition overflow_error :: sse_error where
  "overflow_error = SseError (''SSE buffer exceeded '' @ show_nat MAX_SSE_BUFFER_BYTES @ '' bytes'')"

definition sse_push ::
  "(string \<Rightarrow> sse_error + 'e option) \<Rightarrow> string \<Rightarrow> string \<Rightarrow> (sse_error + 'e list) \<times> string" where
  "sse_push parse chunk buffer =
     (let start = (if ends_in_cr buffer then length buffer - 1 else length buffer)
      in case frame_loop parse (normalize_crlf_from (buffer @ chunk) start) [] of
           (Inl e, buffer) \<Rightarrow> (Inl e, buffer)
         | (Inr events, buffer) \<Rightarrow>
             if length buffer > MAX_SSE_BUFFER_BYTES then (Inl overflow_error, []) else (Inr events, buffer))"

definition sse_finish :: "(string \<Rightarrow> sse_error + 'e option) \<Rightarrow> string \<Rightarrow> (sse_error + 'e list) \<times> string" where
  "sse_finish parse buffer =
     (if buffer = [] then (Inr [], [])
      else case parse (from_utf8_lossy buffer) of
        Inl e \<Rightarrow> (Inl e, [])
      | Inr None \<Rightarrow> (Inr [], [])
      | Inr (Some event) \<Rightarrow> (Inr [event], []))"

end
