(* ===== verification/Stream_Framing.thy ===== *)
theory Stream_Framing
  imports Llm_Stream
begin

text \<open>
  Frames of a byte stream, independent of how it was cut into chunks: normalising and splitting the whole
  stream at once is what the incremental parser does chunk by chunk, and its buffer stays below its cap when
  every frame does.
\<close>

section \<open>The frames of a whole stream\<close>

function frames_of :: "string \<Rightarrow> string list \<times> string" where
  "frames_of b =
     (case next_frame b of
        None \<Rightarrow> ([], b)
      | Some (f, r) \<Rightarrow> (f # fst (frames_of r), snd (frames_of r)))"
  by pat_completeness auto
termination
  by (relation "measure length") (auto simp: next_frame_shorter)

declare frames_of.simps [simp del] frame_loop.simps [simp del]

definition event_of :: "(string \<Rightarrow> sse_error + 'e option) \<Rightarrow> string \<Rightarrow> 'e option" where
  "event_of parse f = (case parse (from_utf8_lossy f) of Inr e \<Rightarrow> e | Inl _ \<Rightarrow> None)"

definition never_fails :: "(string \<Rightarrow> sse_error + 'e option) \<Rightarrow> bool" where
  "never_fails parse \<longleftrightarrow> (\<forall>f. \<exists>e. parse f = Inr e)"

lemma parse_frame_never_fails: "never_fails (parse_frame fl pj)"
  unfolding never_fails_def parse_frame_def parse_responses_api_event_def parse_openai_stream_event_def Let_def
  by (auto split: prod.splits option.splits list.splits if_splits)

lemma frame_loop_frames:
  "never_fails parse \<Longrightarrow>
   frame_loop parse b es = (Inr (es @ List.map_filter (event_of parse) (fst (frames_of b))), snd (frames_of b))"
proof (induction parse b es rule: frame_loop.induct)
  case (1 parse b es)
  show ?case
  proof (cases "next_frame b")
    case None
    then show ?thesis by (simp add: frame_loop.simps [of parse b] frames_of.simps [of b])
  next
    case (Some p)
    obtain f r where p: "p = (f, r)" by fastforce
    obtain e where e: "parse (from_utf8_lossy f) = Inr e" using "1.prems" unfolding never_fails_def by blast
    show ?thesis
    proof (cases e)
      case None
      with Some p e "1.IH"(1) [OF Some p [symmetric] e None "1.prems"] show ?thesis
        by (simp add: frame_loop.simps [of parse b] frames_of.simps [of b] event_of_def)
    next
      case (Some ev)
      with \<open>next_frame b = Some p\<close> p e "1.IH"(2) [OF \<open>next_frame b = Some p\<close> p [symmetric] e Some "1.prems"]
      show ?thesis by (simp add: frame_loop.simps [of parse b] frames_of.simps [of b] event_of_def)
    qed
  qed
qed

section \<open>Splitting\<close>

text \<open>The first blank line of a text is where it was found, whatever comes after it.\<close>

lemma next_frame_Some: "next_frame b = Some (f, r) \<Longrightarrow> b = f @ blank_line @ r"
  unfolding next_frame_def by (rule split_once_Some)

lemma next_frame_more: "next_frame b = Some (f, r) \<Longrightarrow> next_frame (f @ blank_line @ z) = Some (f, z)"
  unfolding next_frame_def
proof (induction "blank_line" b arbitrary: f r rule: split_once.induct)
  case (2 c s)
  show ?case
  proof (cases f)
    case Nil
    then show ?thesis by (simp add: starts_with_def)
  next
    case (Cons d g)
    with "2.prems" have d: "d = c" and g: "\<not> starts_with blank_line (c # s)" "split_once blank_line s = Some (g, r)"
      by (auto split: if_splits)
    have s: "s = g @ blank_line @ r" using split_once_Some [OF g(2)] .
    have "\<not> starts_with blank_line (c # g @ blank_line @ z)"
      using g(1) unfolding s by (cases g) (auto simp: starts_with_def)
    then show ?thesis using "2.hyps" [OF g] Cons d by simp
  qed
qed simp

lemma frames_of_None: "next_frame b = None \<Longrightarrow> frames_of b = ([], b)"
  by (simp add: frames_of.simps [of b])

lemma frames_of_Some:
  "next_frame b = Some (f, r) \<Longrightarrow> frames_of b = (f # fst (frames_of r), snd (frames_of r))"
  by (simp add: frames_of.simps [of b])

lemma frames_of_rest: "next_frame (snd (frames_of b)) = None"
proof (induction b rule: frames_of.induct)
  case (1 b)
  then show ?case by (cases "next_frame b") (auto simp: frames_of.simps [of b])
qed

text \<open>Frames that were split off stay split off: the rest is where a longer stream continues.\<close>

definition sealed :: "string list \<Rightarrow> string" where
  "sealed fs = concat (map (\<lambda>f. f @ blank_line) fs)"

lemma sealed_Cons [simp]: "sealed (f # fs) = f @ blank_line @ sealed fs" "sealed [] = []"
  by (simp_all add: sealed_def)

lemma frames_of_join: "sealed (fst (frames_of b)) @ snd (frames_of b) = b"
proof (induction b rule: frames_of.induct)
  case (1 b)
  then show ?case
    by (cases "next_frame b") (auto simp: frames_of.simps [of b] dest!: next_frame_Some)
qed

lemma frames_of_more:
  "frames_of (sealed (fst (frames_of b)) @ z) = (fst (frames_of b) @ fst (frames_of z), snd (frames_of z))"
proof (induction b rule: frames_of.induct)
  case (1 b)
  show ?case
  proof (cases "next_frame b")
    case None
    then show ?thesis by (simp add: frames_of.simps [of b])
  next
    case (Some p)
    obtain f r where p: "p = (f, r)" by fastforce
    have "next_frame (f @ blank_line @ (sealed (fst (frames_of r)) @ z)) = Some (f, sealed (fst (frames_of r)) @ z)"
      by (rule next_frame_more) (use Some p in simp)
    from frames_of_Some [OF this] frames_of_Some [OF Some [unfolded p]] "1.IH"(1) [OF Some p [symmetric]]
    show ?thesis by simp
  qed
qed

section \<open>Normalising\<close>

lemma ends_in_cr_simps [simp]: "\<not> ends_in_cr []" "ends_in_cr (s @ [c]) \<longleftrightarrow> c = CHR 0x0D"
  by (simp_all add: ends_in_cr_def)

lemma crlf_to_lf_append:
  "crlf_to_lf (s @ t) =
     (if ends_in_cr s then butlast (crlf_to_lf s) @ crlf_to_lf (CHR 0x0D # t) else crlf_to_lf s @ crlf_to_lf t)"
proof (induction s rule: crlf_to_lf.induct)
  case 1
  then show ?case by simp
next
  case (2 c s)
  show ?case
  proof (cases s)
    case Nil
    then show ?thesis by (cases t) (auto simp: ends_in_cr_def)
  next
    case (Cons d u)
    have ne: "crlf_to_lf (d # u) \<noteq> []" by (auto split: list.splits)
    show ?thesis
    proof (cases "c = CHR 0x0D \<and> d = CHR 0x0A")
      case True
      then have "ends_in_cr (c # s) = ends_in_cr u" using Cons by (auto simp: ends_in_cr_def)
      moreover have "crlf_to_lf u \<noteq> []" if "ends_in_cr u"
        using that by (cases u) (auto simp: ends_in_cr_def split: list.splits)
      ultimately show ?thesis using "2.IH"(1) [OF Cons True] True Cons by auto
    next
      case False
      have "ends_in_cr (c # s) = ends_in_cr s" using Cons by (simp add: ends_in_cr_def)
      then show ?thesis using "2.IH"(2) [OF Cons False] False Cons ne by auto
    qed
  qed
qed

lemma ends_in_cr_crlf: "ends_in_cr (crlf_to_lf s) = ends_in_cr s"
proof (induction s rule: crlf_to_lf.induct)
  case (2 c s)
  show ?case
  proof (cases s)
    case (Cons d u)
    have ne: "crlf_to_lf (d # u) \<noteq> []" by (auto split: list.splits)
    have "ends_in_cr (CHR 0x0A # crlf_to_lf u) = ends_in_cr (crlf_to_lf u)"
      by (cases "crlf_to_lf u = []") (auto simp: ends_in_cr_def)
    moreover have "ends_in_cr (d # u) = ends_in_cr u" if "d = CHR 0x0A"
      using that by (cases "u = []") (auto simp: ends_in_cr_def)
    ultimately show ?thesis using 2 Cons ne by (auto simp: ends_in_cr_def)
  qed simp
qed simp

lemma crlf_to_lf_last_cr: "ends_in_cr s \<Longrightarrow> crlf_to_lf s = crlf_to_lf (butlast s) @ [CHR 0x0D]"
proof -
  assume a: "ends_in_cr s"
  then obtain u where s: "s = u @ [CHR 0x0D]" by (metis append_butlast_last_id ends_in_cr_def)
  show ?thesis
  proof (cases "ends_in_cr u")
    case True
    then have "crlf_to_lf u = butlast (crlf_to_lf u) @ [CHR 0x0D]"
      using ends_in_cr_crlf [of u] by (metis append_butlast_last_id ends_in_cr_def)
    then show ?thesis using crlf_to_lf_append [of u "[CHR 0x0D]"] True by (simp add: s)
  next
    case False
    then show ?thesis using crlf_to_lf_append [of u "[CHR 0x0D]"] by (simp add: s)
  qed
qed

text \<open>What the parser does to its buffer and a new chunk.\<close>

lemma normalize_buffer:
  "normalize_crlf_from (b @ c) (if ends_in_cr b then length b - 1 else length b) =
     (if ends_in_cr b then butlast b @ crlf_to_lf (CHR 0x0D # c) else b @ crlf_to_lf c)"
proof -
  define x y where "x = (if ends_in_cr b then butlast b else b)" and "y = (if ends_in_cr b then CHR 0x0D # c else c)"
  have xy: "b @ c = x @ y"
    unfolding x_def y_def ends_in_cr_def by (cases b rule: rev_cases) auto
  have start: "(if ends_in_cr b then length b - 1 else length b) = length x" by (simp add: x_def)
  have "normalize_crlf_from (x @ y) (length x) = x @ crlf_to_lf y"
  proof (cases "y = []")
    case True
    then show ?thesis by (simp add: normalize_crlf_from_def Let_def)
  next
    case y: False
    show ?thesis
    proof (cases "ends_in_cr (x @ y)")
      case True
      then have yc: "ends_in_cr y" using y by (simp add: ends_in_cr_def)
      then obtain u where u: "y = u @ [CHR 0x0D]" by (metis append_butlast_last_id ends_in_cr_def)
      have "crlf_to_lf (u @ [CHR 0x0D]) = crlf_to_lf u @ [CHR 0x0D]" using crlf_to_lf_last_cr [of "u @ [CHR 0x0D]"] by simp
      moreover have "ends_in_cr (x @ u @ [CHR 0x0D])" using True u by simp
      ultimately show ?thesis unfolding u by (cases "u = []") (simp_all add: normalize_crlf_from_def Let_def)
    next
      case False
      then show ?thesis using y by (simp add: normalize_crlf_from_def Let_def)
    qed
  qed
  then show ?thesis unfolding start xy by (simp add: x_def y_def)
qed

section \<open>Chunks\<close>

text \<open>What the parser has seen and what it holds after the bytes \<open>s\<close>.\<close>

definition seen :: "string \<Rightarrow> string list" where
  "seen s = fst (frames_of (crlf_to_lf s))"

definition held :: "string \<Rightarrow> string" where
  "held s = snd (frames_of (crlf_to_lf s))"

lemma seen_held: "sealed (seen s) @ held s = crlf_to_lf s"
  unfolding seen_def held_def by (rule frames_of_join)

lemma seen_held_Nil [simp]: "seen [] = []" "held [] = []"
  by (simp_all add: seen_def held_def frames_of_None next_frame_def)

lemma sealed_last: "fs \<noteq> [] \<Longrightarrow> \<exists>u. sealed fs = u @ [CHR 0x0A]"
proof (cases fs rule: rev_cases)
  case (snoc gs f)
  then have "sealed fs = (sealed gs @ f @ [CHR 0x0A]) @ [CHR 0x0A]" by (simp add: sealed_def)
  then show ?thesis by blast
qed simp

lemma held_cr: "ends_in_cr (held s) = ends_in_cr s"
proof -
  have "ends_in_cr (sealed (seen s) @ held s) = ends_in_cr (held s)"
  proof (cases "held s = []")
    case True
    then show ?thesis
      using sealed_last [of "seen s"] by (cases "seen s = []") auto
  qed (simp add: ends_in_cr_def)
  then show ?thesis unfolding seen_held ends_in_cr_crlf by simp
qed

definition next_buffer :: "string \<Rightarrow> string \<Rightarrow> string" where
  "next_buffer b c = (if ends_in_cr b then butlast b @ crlf_to_lf (CHR 0x0D # c) else b @ crlf_to_lf c)"

lemma seen_held_append:
  "seen (s @ c) = seen s @ fst (frames_of (next_buffer (held s) c))"
  "held (s @ c) = snd (frames_of (next_buffer (held s) c))"
proof -
  have "crlf_to_lf (s @ c) = sealed (seen s) @ next_buffer (held s) c"
  proof (cases "ends_in_cr s")
    case True
    then have "held s \<noteq> []" using held_cr [of s] by auto
    then have "butlast (crlf_to_lf s) = sealed (seen s) @ butlast (held s)"
      unfolding seen_held [of s, symmetric] by (simp add: butlast_append)
    then show ?thesis using True crlf_to_lf_append [of s c] held_cr [of s] by (simp add: next_buffer_def)
  next
    case False
    then show ?thesis using crlf_to_lf_append [of s c] seen_held [of s] held_cr [of s] by (simp add: next_buffer_def)
  qed
  then have "frames_of (crlf_to_lf (s @ c))
      = (seen s @ fst (frames_of (next_buffer (held s) c)), snd (frames_of (next_buffer (held s) c)))"
    using frames_of_more [of "crlf_to_lf s"] by (simp add: seen_def)
  then show "seen (s @ c) = seen s @ fst (frames_of (next_buffer (held s) c))"
    "held (s @ c) = snd (frames_of (next_buffer (held s) c))"
    by (simp_all add: seen_def [of "s @ c"] held_def [of "s @ c"])
qed

text \<open>One push, from the state after \<open>s\<close> to the state after \<open>s @ c\<close>.\<close>

lemma push_step:
  assumes "never_fails parse"
  shows "sse_push parse c (held s) =
    (if length (held (s @ c)) > MAX_SSE_BUFFER_BYTES then (Inl overflow_error, [])
     else (Inr (List.map_filter (event_of parse) (fst (frames_of (next_buffer (held s) c)))), held (s @ c)))"
  unfolding sse_push_def Let_def normalize_buffer frame_loop_frames [OF assms]
  by (simp add: next_buffer_def [symmetric] seen_held_append)

section \<open>The bound\<close>

lemma next_frame_found: "next_frame (f @ blank_line @ r) \<noteq> None"
  unfolding next_frame_def by (induction f) (auto simp: starts_with_def)

lemma held_bound: "\<exists>f \<in> set (seen (s @ t)) \<union> {held (s @ t)}. length (held s) \<le> length f + 2"
proof -
  define b x y where "b = held s" and "x = (if ends_in_cr b then butlast b else b)"
    and "y = (if ends_in_cr b then crlf_to_lf (CHR 0x0D # t) else crlf_to_lf t)"
  have N: "next_buffer b t = x @ y" by (simp add: next_buffer_def x_def y_def)
  have len: "length b \<le> length x + 1" by (cases b rule: rev_cases) (simp_all add: x_def)
  have none: "next_frame b = None" unfolding b_def held_def by (rule frames_of_rest)
  show ?thesis
  proof (cases "next_frame (x @ y)")
    case None
    then have "held (s @ t) = x @ y"
      using seen_held_append(2) [of s t] N by (simp add: b_def frames_of_None)
    then show ?thesis using len by (auto simp: b_def)
  next
    case (Some p)
    obtain f r where p: "p = (f, r)" by fastforce
    have xy: "x @ y = f @ blank_line @ r" using next_frame_Some Some p by blast
    have "length x \<le> length f + 1"
    proof (rule ccontr)
      assume "\<not> length x \<le> length f + 1"
      then have "take (length f + 2) (x @ y) = take (length f + 2) x" by simp
      then have "take (length f + 2) x = f @ blank_line" unfolding xy by simp
      then have "x = f @ blank_line @ drop (length f + 2) x" by (metis append.assoc append_take_drop_id)
      moreover obtain u where "b = x @ u" unfolding x_def by (metis append_butlast_last_id append_Nil2 ends_in_cr_def)
      ultimately have "b = f @ blank_line @ (drop (length f + 2) x @ u)" by (metis append.assoc)
      then show False using none next_frame_found by metis
    qed
    moreover have "f \<in> set (seen (s @ t))"
      using seen_held_append(1) [of s t] N frames_of_Some [OF Some [unfolded p]] by (simp add: b_def)
    ultimately show ?thesis using len by (intro bexI [of _ f]) (auto simp: b_def)
  qed
qed

text \<open>A stream whose frames are shorter than the cap never overflows the buffer.\<close>

definition frames_fit :: "string \<Rightarrow> bool" where
  "frames_fit s \<longleftrightarrow> (\<forall>f \<in> set (seen s) \<union> {held s}. length f + 2 \<le> MAX_SSE_BUFFER_BYTES)"

lemma held_fits: "frames_fit (s @ t) \<Longrightarrow> length (held s) \<le> MAX_SSE_BUFFER_BYTES"
  using held_bound [of s t] unfolding frames_fit_def by fastforce

text \<open>The events of a whole stream.\<close>

definition stream_events :: "(string \<Rightarrow> sse_error + 'e option) \<Rightarrow> string \<Rightarrow> 'e list" where
  "stream_events parse s = List.map_filter (event_of parse) (seen s @ (if held s = [] then [] else [held s]))"

lemma finish_step:
  "never_fails parse \<Longrightarrow> sse_finish parse (held s) =
     (Inr (List.map_filter (event_of parse) (if held s = [] then [] else [held s])), [])"
  unfolding never_fails_def
  by (auto simp: sse_finish_def event_of_def List.map_filter_def split: sum.splits option.splits)
    (metis sum.distinct(1))+

end
