(* ===== verification/Stream_Response.thy ===== *)
theory Stream_Response
  imports Stream_Framing
begin

text \<open>
  From stream events to a response: the accumulator (\<open>src/llm/stream_types.rs\<close>), the processor and the message
  stream that drive it (\<open>src/llm/stream_processor.rs\<close>), and the meter of a run that every stream reports to once
  (\<open>src/gateway/usage_meter.rs\<close>). The chunks of the upstream are a list; a transport error is an \<open>Inl\<close> in it.
\<close>

section \<open>The accumulator\<close>

record tool_call_state =
  tc_id :: string
  tc_name :: string
  tc_arguments :: string

definition no_tool_call :: tool_call_state where
  "no_tool_call = \<lparr>tc_id = [], tc_name = [], tc_arguments = []\<rparr>"

record 'f stream_accumulator =
  text_blocks :: "string list"
  thinking :: string
  tool_calls :: "tool_call_state list"
  finish_reason :: "string option"
  acc_usage :: "'f stream_usage option"
  acc_model :: "string option"
  message_id :: "string option"
  acc_block_index :: "u32 option"

definition empty_accumulator :: "'f stream_accumulator" where
  "empty_accumulator = \<lparr>text_blocks = [], thinking = [], tool_calls = [], finish_reason = None, acc_usage = None,
     acc_model = None, message_id = None, acc_block_index = None\<rparr>"

text \<open>\<open>while xs.len() <= i { xs.push(default) }\<close>, and the change of an entry after it.\<close>

definition grow_to :: "nat \<Rightarrow> 'a \<Rightarrow> 'a list \<Rightarrow> 'a list" where
  "grow_to i d xs = xs @ replicate (Suc i - length xs) d"

definition update_at :: "nat \<Rightarrow> 'a \<Rightarrow> ('a \<Rightarrow> 'a) \<Rightarrow> 'a list \<Rightarrow> 'a list" where
  "update_at i d f xs = (let ys = grow_to i d xs in ys[i := f (ys ! i)])"

definition tool_call_delta ::
  "string option \<Rightarrow> string option \<Rightarrow> string option \<Rightarrow> tool_call_state \<Rightarrow> tool_call_state" where
  "tool_call_delta i n a tc =
     (let tc = (case i of None \<Rightarrow> tc | Some v \<Rightarrow> tc\<lparr>tc_id := v\<rparr>);
          tc = (case n of None \<Rightarrow> tc | Some v \<Rightarrow> tc\<lparr>tc_name := v\<rparr>)
      in (case a of None \<Rightarrow> tc | Some v \<Rightarrow> tc\<lparr>tc_arguments := tc_arguments tc @ v\<rparr>))"

fun accumulate :: "'f stream_event \<Rightarrow> 'f stream_accumulator \<Rightarrow> 'f stream_accumulator" where
  "accumulate (MessageStart e) acc = acc\<lparr>message_id := ms_id e, acc_model := ms_model e\<rparr>"
| "accumulate (ContentBlockStart i b) acc =
     (let acc = acc\<lparr>acc_block_index := Some i\<rparr>
      in case b of
           TextBlock t \<Rightarrow> acc\<lparr>text_blocks := grow_to (unat i) [] (text_blocks acc)\<rparr>
         | ToolUse call_id name \<Rightarrow>
             acc\<lparr>tool_calls := update_at (unat i) no_tool_call (\<lambda>tc. tc\<lparr>tc_id := call_id, tc_name := name\<rparr>) (tool_calls acc)\<rparr>
         | ThinkingBlock t \<Rightarrow> acc)"
| "accumulate (ContentBlockDelta i d) acc =
     (case d of
        TextDelta t \<Rightarrow> acc\<lparr>text_blocks := update_at (unat i) [] (\<lambda>s. s @ t) (text_blocks acc)\<rparr>
      | ThinkingDelta t \<Rightarrow> acc\<lparr>thinking := thinking acc @ t\<rparr>
      | InputJsonDelta p \<Rightarrow>
          acc\<lparr>tool_calls := update_at (unat i) no_tool_call (\<lambda>tc. tc\<lparr>tc_arguments := tc_arguments tc @ p\<rparr>) (tool_calls acc)\<rparr>
      | ToolCallDelta call_id name args \<Rightarrow>
          acc\<lparr>tool_calls := update_at (unat i) no_tool_call (tool_call_delta call_id name args) (tool_calls acc)\<rparr>)"
| "accumulate (MessageDelta e) acc =
     (let acc = acc\<lparr>finish_reason := md_finish_reason e\<rparr>
      in case md_usage e of None \<Rightarrow> acc | Some u \<Rightarrow> acc\<lparr>acc_usage := Some u\<rparr>)"
| "accumulate (ContentBlockStop i) acc = acc"
| "accumulate MessageStop acc = acc"

definition get_text :: "'f stream_accumulator \<Rightarrow> string" where
  "get_text acc = concat (text_blocks acc)"

record tool_call =
  call_id :: string
  call_name :: string
  call_arguments :: json

definition named_tool_calls :: "(string \<Rightarrow> json option) \<Rightarrow> 'f stream_accumulator \<Rightarrow> tool_call list" where
  "named_tool_calls parse_json acc =
     map (\<lambda>tc. \<lparr>call_id = tc_id tc, call_name = tc_name tc,
         call_arguments = (case parse_json (tc_arguments tc) of None \<Rightarrow> JNull | Some v \<Rightarrow> v)\<rparr>)
       (filter (\<lambda>tc. tc_name tc \<noteq> []) (tool_calls acc))"

definition is_tool_call :: "'f stream_accumulator \<Rightarrow> bool" where
  "is_tool_call acc \<longleftrightarrow>
     finish_reason acc = Some ''tool_calls'' \<or> \<not> list_ex (\<lambda>tc. tc_name tc \<noteq> []) (tool_calls acc)"

section \<open>The response\<close>

record 'f stream_response =
  r_thought :: "string option"
  r_content :: string
  r_summary :: "string option"
  r_tool_calls :: "tool_call list"
  r_finish_reason :: string
  r_usage :: "'f stream_usage option"

definition unstructured_response :: "(string \<Rightarrow> json option) \<Rightarrow> 'f stream_accumulator \<Rightarrow> 'f stream_response" where
  "unstructured_response parse_json acc =
     \<lparr>r_thought = (if thinking acc = [] then None else Some (thinking acc)), r_content = get_text acc, r_summary = None,
      r_tool_calls = named_tool_calls parse_json acc,
      r_finish_reason = (case finish_reason acc of None \<Rightarrow> ''stop'' | Some r \<Rightarrow> r), r_usage = acc_usage acc\<rparr>"

definition parse_structured_content_static ::
  "(string \<Rightarrow> json option) \<Rightarrow> (json \<Rightarrow> string) \<Rightarrow> string \<Rightarrow> (string option \<times> string \<times> string option) option" where
  "parse_structured_content_static parse_json show_json content =
     (let content = trim content
      in if content = [] then None
         else map_option (\<lambda>v.
            (Option.bind (case json_get v ''thought'' of Some t \<Rightarrow> Some t | None \<Rightarrow> json_get v ''reasoning'') as_str,
             (case json_get v ''content'' of
                None \<Rightarrow> content
              | Some (JString s) \<Rightarrow> s
              | Some other \<Rightarrow> show_json other),
             get_str v ''summary'')) (parse_json content))"

definition into_response ::
  "(string \<Rightarrow> json option) \<Rightarrow> (json \<Rightarrow> string) \<Rightarrow> 'f stream_accumulator \<Rightarrow> 'f stream_response" where
  "into_response parse_json show_json acc =
     (let r = unstructured_response parse_json acc
      in if r_thought r \<noteq> None then r
         else case parse_structured_content_static parse_json show_json (r_content r) of
           None \<Rightarrow> r
         | Some (thought, content, summary) \<Rightarrow>
             r\<lparr>r_thought := thought, r_content := content, r_summary := summary\<rparr>)"

text \<open>\<open>StreamingResponseBuilder\<close>.\<close>

record 'f response_builder =
  b_thought :: string
  b_content :: string
  b_summary :: string
  b_tool_calls :: "tool_call list"
  b_finish_reason :: string
  b_usage :: "'f stream_usage option"

definition new_builder :: "'f response_builder" where
  "new_builder = \<lparr>b_thought = [], b_content = [], b_summary = [], b_tool_calls = [], b_finish_reason = ''stop'', b_usage = None\<rparr>"

definition with_thought :: "string \<Rightarrow> 'f response_builder \<Rightarrow> 'f response_builder" where
  "with_thought t b = b\<lparr>b_thought := b_thought b @ t\<rparr>"

definition with_content :: "string \<Rightarrow> 'f response_builder \<Rightarrow> 'f response_builder" where
  "with_content t b = b\<lparr>b_content := b_content b @ t\<rparr>"

definition with_summary :: "string \<Rightarrow> 'f response_builder \<Rightarrow> 'f response_builder" where
  "with_summary t b = b\<lparr>b_summary := b_summary b @ t\<rparr>"

definition with_tool_call :: "tool_call \<Rightarrow> 'f response_builder \<Rightarrow> 'f response_builder" where
  "with_tool_call t b = b\<lparr>b_tool_calls := b_tool_calls b @ [t]\<rparr>"

definition with_finish_reason :: "string \<Rightarrow> 'f response_builder \<Rightarrow> 'f response_builder" where
  "with_finish_reason r b = b\<lparr>b_finish_reason := r\<rparr>"

definition with_usage :: "'f stream_usage \<Rightarrow> 'f response_builder \<Rightarrow> 'f response_builder" where
  "with_usage u b = b\<lparr>b_usage := Some u\<rparr>"

definition build_response :: "'f response_builder \<Rightarrow> 'f stream_response" where
  "build_response b =
     \<lparr>r_thought = (if b_thought b = [] then None else Some (b_thought b)), r_content = b_content b,
      r_summary = (if b_summary b = [] then None else Some (b_summary b)), r_tool_calls = b_tool_calls b,
      r_finish_reason = b_finish_reason b, r_usage = b_usage b\<rparr>"

section \<open>The meter of a run\<close>

record 'f call_usage =
  cu_model :: string
  cu_input :: u64
  cu_output :: u64
  cu_cost :: "'f option"

record model_tokens =
  mt_input :: u64
  mt_output :: u64

record 'f run_usage_snapshot =
  sn_calls :: u64
  calls_without_usage :: u64
  calls_without_cost :: u64
  sn_input :: u64
  sn_output :: u64
  sn_cost :: 'f
  per_model :: "(string \<times> model_tokens) list"
  last_model :: "string option"

definition new_meter :: "'f f64_lib \<Rightarrow> 'f run_usage_snapshot" where
  "new_meter fl = \<lparr>sn_calls = 0, calls_without_usage = 0, calls_without_cost = 0, sn_input = 0, sn_output = 0,
     sn_cost = f64_zero fl, per_model = [], last_model = None\<rparr>"

text \<open>The entry of a model in the ordered map.\<close>

fun add_tokens :: "string \<Rightarrow> u64 \<Rightarrow> u64 \<Rightarrow> (string \<times> model_tokens) list \<Rightarrow> (string \<times> model_tokens) list" where
  "add_tokens m i out [] = [(m, \<lparr>mt_input = i, mt_output = out\<rparr>)]"
| "add_tokens m i out ((n, t) # rest) =
     (if m = n then (n, \<lparr>mt_input = mt_input t + i, mt_output = mt_output t + out\<rparr>) # rest
      else if m < n then (m, \<lparr>mt_input = i, mt_output = out\<rparr>) # (n, t) # rest
      else (n, t) # add_tokens m i out rest)"

definition record_call ::
  "'f f64_lib \<Rightarrow> string \<Rightarrow> 'f call_usage option \<Rightarrow> 'f run_usage_snapshot \<Rightarrow> 'f run_usage_snapshot" where
  "record_call fl requested u s =
     (let s = s\<lparr>sn_calls := sn_calls s + 1\<rparr>
      in case u of
           None \<Rightarrow> s\<lparr>calls_without_usage := calls_without_usage s + 1\<rparr>
         | Some u \<Rightarrow>
             let m = (if is_blank (cu_model u) then requested else cu_model u);
                 s = s\<lparr>sn_input := sn_input s + cu_input u, sn_output := sn_output s + cu_output u\<rparr>;
                 s = (case cu_cost u of
                        Some c \<Rightarrow> if finite_and_not_negative fl c then s\<lparr>sn_cost := f64_add fl (sn_cost s) c\<rparr>
                                  else s\<lparr>calls_without_cost := calls_without_cost s + 1\<rparr>
                      | None \<Rightarrow> s\<lparr>calls_without_cost := calls_without_cost s + 1\<rparr>)
             in s\<lparr>per_model := add_tokens m (cu_input u) (cu_output u) (per_model s), last_model := Some m\<rparr>)"

definition tokens_complete :: "'f run_usage_snapshot \<Rightarrow> bool" where
  "tokens_complete s \<longleftrightarrow> sn_calls s > 0 \<and> calls_without_usage s = 0"

definition gateway_cost_complete :: "'f run_usage_snapshot \<Rightarrow> bool" where
  "gateway_cost_complete s \<longleftrightarrow> tokens_complete s \<and> calls_without_cost s = 0"

definition primary_model :: "'f run_usage_snapshot \<Rightarrow> string option" where
  "primary_model s =
     (if per_model s = [] then None
      else let total = (\<lambda>(m, t). mt_input t + mt_output t);
               most = foldl max (total (hd (per_model s))) (map total (tl (per_model s)));
               leaders = map fst (filter (\<lambda>p. total p = most) (per_model s))
           in case leaders of
                [] \<Rightarrow> None
              | first # rest \<Rightarrow>
                  if rest = [] then Some first
                  else (case last_model s of
                          Some m \<Rightarrow> if m = first \<or> m \<in> set rest then Some m else Some first
                        | None \<Rightarrow> Some first))"

record metered_tool_call =
  mtc_name :: string
  transport :: string

definition record_tool_call :: "string \<Rightarrow> string \<Rightarrow> metered_tool_call list \<Rightarrow> metered_tool_call list" where
  "record_tool_call name t calls = calls @ [\<lparr>mtc_name = name, transport = t\<rparr>]"

section \<open>The processor\<close>

record 'f processor =
  parser_buffer :: string
  accumulator :: "'f stream_accumulator"
  pending :: "'f stream_event list"
  is_done :: bool
  message_started :: bool
  current_block_index :: u32
  tool_call_states :: "tool_call_state list"

definition new_processor :: "'f processor" where
  "new_processor = \<lparr>parser_buffer = [], accumulator = empty_accumulator, pending = [], is_done = False,
     message_started = False, current_block_index = 0, tool_call_states = []\<rparr>"

fun note_event :: "'f stream_event \<Rightarrow> 'f processor \<Rightarrow> 'f processor" where
  "note_event (MessageStart e) p = p\<lparr>message_started := True\<rparr>"
| "note_event (ContentBlockStart i b) p =
     (let p = p\<lparr>current_block_index := i\<rparr>
      in case b of
           ToolUse cid name \<Rightarrow> p\<lparr>tool_call_states :=
             update_at (unat i) no_tool_call (\<lambda>tc. tc\<lparr>tc_id := cid, tc_name := name\<rparr>) (tool_call_states p)\<rparr>
         | _ \<Rightarrow> p)"
| "note_event (ContentBlockDelta i d) p =
     (case d of
        ToolCallDelta cid name args \<Rightarrow> p\<lparr>tool_call_states :=
          update_at (unat i) no_tool_call (tool_call_delta cid name args) (tool_call_states p)\<rparr>
      | _ \<Rightarrow> p)"
| "note_event MessageStop p = p\<lparr>is_done := True\<rparr>"
| "note_event _ p = p"

definition process_event :: "'f stream_event \<Rightarrow> 'f processor \<Rightarrow> 'f processor" where
  "process_event e p = note_event e (p\<lparr>accumulator := accumulate e (accumulator p)\<rparr>)"

type_synonym 'f frame_parser = "string \<Rightarrow> sse_error + 'f stream_event option"

definition push_chunk :: "'f frame_parser \<Rightarrow> string \<Rightarrow> 'f processor \<Rightarrow> (sse_error + 'f stream_event list) \<times> 'f processor" where
  "push_chunk parse chunk p =
     (case sse_push parse chunk (parser_buffer p) of
        (Inl e, b) \<Rightarrow> (Inl e, p\<lparr>parser_buffer := b\<rparr>)
      | (Inr events, b) \<Rightarrow> (Inr events, fold process_event events (p\<lparr>parser_buffer := b\<rparr>)))"

definition finish_parser :: "'f frame_parser \<Rightarrow> 'f processor \<Rightarrow> (sse_error + 'f stream_event list) \<times> 'f processor" where
  "finish_parser parse p =
     (case sse_finish parse (parser_buffer p) of
        (Inl e, b) \<Rightarrow> (Inl e, p\<lparr>parser_buffer := b\<rparr>)
      | (Inr events, b) \<Rightarrow> (Inr events, fold process_event events (p\<lparr>parser_buffer := b\<rparr>)))"

section \<open>The message stream\<close>

record 'f message_stream =
  upstream :: "(string + string) list"
  proc :: "'f processor"
  attached_meter :: "string option"
  run_meter :: "'f run_usage_snapshot"

definition new_stream :: "(string + string) list \<Rightarrow> string \<Rightarrow> 'f run_usage_snapshot \<Rightarrow> 'f message_stream" where
  "new_stream chunks requested m =
     \<lparr>upstream = chunks, proc = new_processor, attached_meter = Some requested, run_meter = m\<rparr>"

definition call_usage_of :: "string \<Rightarrow> 'f stream_accumulator \<Rightarrow> 'f call_usage option" where
  "call_usage_of requested acc =
     map_option (\<lambda>u. \<lparr>cu_model = (case acc_model acc of None \<Rightarrow> requested | Some m \<Rightarrow> m),
       cu_input = ucast (prompt_tokens u), cu_output = ucast (completion_tokens u), cu_cost = cost_usd u\<rparr>) (acc_usage acc)"

definition finish_metering :: "'f f64_lib \<Rightarrow> 'f message_stream \<Rightarrow> 'f message_stream" where
  "finish_metering fl ms =
     (case attached_meter ms of
        None \<Rightarrow> ms
      | Some requested \<Rightarrow>
          ms\<lparr>attached_meter := None,
             run_meter := record_call fl requested (call_usage_of requested (accumulator (proc ms))) (run_meter ms)\<rparr>)"

function next_event ::
  "'f f64_lib \<Rightarrow> 'f frame_parser \<Rightarrow> 'f message_stream \<Rightarrow> (sse_error + 'f stream_event option) \<times> 'f message_stream" where
  "next_event fl parse ms =
     (case pending (proc ms) of
        e # es \<Rightarrow> (Inr (Some e), ms\<lparr>proc := (proc ms)\<lparr>pending := es\<rparr>\<rparr>)
      | [] \<Rightarrow>
          if is_done (proc ms)
          then (case finish_parser parse (proc ms) of
                  (Inl e, p) \<Rightarrow> (Inl e, ms\<lparr>proc := p\<rparr>)
                | (Inr [], p) \<Rightarrow> (Inr None, finish_metering fl (ms\<lparr>proc := p\<rparr>))
                | (Inr (e # es), p) \<Rightarrow> (Inr (Some e), ms\<lparr>proc := p\<lparr>pending := es\<rparr>\<rparr>))
          else case upstream ms of
            Inl e # rest \<Rightarrow> (Inl (SseError e), ms\<lparr>upstream := rest\<rparr>)
          | Inr bytes # rest \<Rightarrow>
              (case push_chunk parse bytes (proc ms) of
                 (Inl e, p) \<Rightarrow> (Inl e, ms\<lparr>upstream := rest, proc := p\<rparr>)
               | (Inr events, p) \<Rightarrow> next_event fl parse (ms\<lparr>upstream := rest, proc := p\<lparr>pending := events\<rparr>\<rparr>))
          | [] \<Rightarrow>
              (case finish_parser parse (proc ms) of
                 (Inl e, p) \<Rightarrow> (Inl e, ms\<lparr>proc := p\<rparr>)
               | (Inr [], p) \<Rightarrow> (Inr None, finish_metering fl (ms\<lparr>proc := p\<rparr>))
               | (Inr (e # es), p) \<Rightarrow> next_event fl parse (ms\<lparr>proc := p\<lparr>pending := e # es\<rparr>\<rparr>)))"
  by pat_completeness auto
termination
  by (relation "measures [\<lambda>(fl, parse, ms). length (upstream ms), \<lambda>(fl, parse, ms). if pending (proc ms) = [] then 1 else 0]")
    auto

declare next_event.simps [simp del]

partial_function (option) drain_stream ::
  "'f f64_lib \<Rightarrow> 'f frame_parser \<Rightarrow> 'f message_stream \<Rightarrow> (sse_error option \<times> 'f message_stream) option" where
  "drain_stream fl parse ms =
     (case next_event fl parse ms of
        (Inl e, ms) \<Rightarrow> Some (Some e, ms)
      | (Inr None, ms) \<Rightarrow> Some (None, ms)
      | (Inr (Some _), ms) \<Rightarrow> drain_stream fl parse ms)"

text \<open>\<open>collect_all\<close>; dropping the stream afterwards meters it if nothing did before.\<close>

definition collect_all ::
  "'f f64_lib \<Rightarrow> (string \<Rightarrow> json option) \<Rightarrow> (json \<Rightarrow> string) \<Rightarrow> 'f message_stream
   \<Rightarrow> ((sse_error + 'f stream_response) \<times> 'f message_stream) option" where
  "collect_all fl parse_json show_json ms =
     map_option (\<lambda>(failed, ms).
         case failed of
           Some e \<Rightarrow> (Inl e, ms)
         | None \<Rightarrow>
             let ms = finish_metering fl ms
             in (Inr (into_response parse_json show_json (accumulator (proc ms))), ms\<lparr>proc := new_processor\<rparr>))
       (drain_stream fl (parse_frame fl parse_json) ms)"

partial_function (option) drain_with_callback ::
  "'f f64_lib \<Rightarrow> 'f frame_parser \<Rightarrow> ('f stream_event \<Rightarrow> 's \<Rightarrow> 's) \<Rightarrow> 's \<Rightarrow> 'f message_stream
   \<Rightarrow> (sse_error option \<times> 's \<times> 'f message_stream) option" where
  "drain_with_callback fl parse callback s ms =
     (case next_event fl parse ms of
        (Inl e, ms) \<Rightarrow> Some (Some e, s, ms)
      | (Inr None, ms) \<Rightarrow> Some (None, s, ms)
      | (Inr (Some e), ms) \<Rightarrow> drain_with_callback fl parse callback (callback e s) ms)"

text \<open>The callback of \<open>collect_with_callback\<close> updates a state of its own.\<close>

definition collect_with_callback ::
  "'f f64_lib \<Rightarrow> (string \<Rightarrow> json option) \<Rightarrow> (json \<Rightarrow> string) \<Rightarrow> ('f stream_event \<Rightarrow> 's \<Rightarrow> 's) \<Rightarrow> 's \<Rightarrow> 'f message_stream
   \<Rightarrow> ((sse_error + 'f stream_response) \<times> 's \<times> 'f message_stream) option" where
  "collect_with_callback fl parse_json show_json callback s ms =
     map_option (\<lambda>(failed, s, ms).
         case failed of
           Some e \<Rightarrow> (Inl e, s, ms)
         | None \<Rightarrow>
             let ms = finish_metering fl ms
             in (Inr (into_response parse_json show_json (accumulator (proc ms))), s, ms\<lparr>proc := new_processor\<rparr>))
       (drain_with_callback fl (parse_frame fl parse_json) callback s ms)"

definition drop_stream :: "'f f64_lib \<Rightarrow> 'f message_stream \<Rightarrow> 'f message_stream" where
  "drop_stream fl ms = finish_metering fl ms"

end
