(* ===== verification/Stream_Properties.thy ===== *)
theory Stream_Properties
  imports Stream_Response
begin

text \<open>
  The claims on streamed answers: reading a stream ends and does not depend on how it was cut into chunks, the
  response is exactly what the events say, and every stream reports to its meter once.
\<close>

section \<open>Processing\<close>

lemma note_event_keeps [simp]:
  "accumulator (note_event e p) = accumulator p" "parser_buffer (note_event e p) = parser_buffer p"
  "pending (note_event e p) = pending p"
  by (cases e; auto simp: Let_def split: content_block.splits content_block_delta.splits)+

lemma process_event_simps [simp]:
  "accumulator (process_event e p) = accumulate e (accumulator p)"
  "parser_buffer (process_event e p) = parser_buffer p" "pending (process_event e p) = pending p"
  by (simp_all add: process_event_def)

lemma process_events_simps [simp]:
  "accumulator (fold process_event es p) = fold accumulate es (accumulator p)"
  "parser_buffer (fold process_event es p) = parser_buffer p" "pending (fold process_event es p) = pending p"
  by (induction es arbitrary: p) simp_all

lemma process_event_done: "e \<noteq> MessageStop \<Longrightarrow> is_done (process_event e p) = is_done p"
proof -
  have "e \<noteq> MessageStop \<Longrightarrow> is_done (note_event e p) = is_done p" for p
    by (cases e) (auto simp: Let_def split: content_block.splits content_block_delta.splits)
  then show "e \<noteq> MessageStop \<Longrightarrow> is_done (process_event e p) = is_done p" by (simp add: process_event_def)
qed

lemma process_events_done: "MessageStop \<notin> set es \<Longrightarrow> is_done (fold process_event es p) = is_done p"
proof (induction es arbitrary: p)
  case (Cons e es)
  then have e: "e \<noteq> MessageStop" and es: "MessageStop \<notin> set es" by auto
  show ?case unfolding fold_simps o_apply Cons.IH [OF es] process_event_done [OF e] by (rule refl)
qed simp

lemma usage_only_no_stop: "usage_only fl v \<noteq> Some MessageStop"
  by (auto simp: usage_only_def)

lemma delta_event_no_stop: "delta_event i d \<noteq> Some MessageStop"
  by (auto simp: delta_event_def Let_def split: option.splits list.splits)

lemma choice_event_no_stop: "choice_event fl v c \<noteq> Some MessageStop"
  unfolding choice_event_def using delta_event_no_stop
  by (auto split: option.splits list.splits Option.bind_splits)

lemma openai_no_stop: "parse_openai_stream_event fl v \<noteq> Inr (Some MessageStop)"
  unfolding parse_openai_stream_event_def using usage_only_no_stop [of fl v] choice_event_no_stop [of fl v]
  by (auto split: option.splits list.splits if_splits)

lemma responses_no_stop: "parse_responses_api_event fl v \<noteq> Inr (Some MessageStop)"
  unfolding parse_responses_api_event_def Let_def by (simp split: if_splits)

lemma parse_frame_no_stop: "parse_frame fl pj f \<noteq> Inr (Some MessageStop)"
  unfolding parse_frame_def Let_def using openai_no_stop responses_no_stop
  by (auto split: prod.splits option.splits)

lemma events_no_stop: "MessageStop \<notin> set (List.map_filter (event_of (parse_frame fl pj)) fs)"
proof -
  have "event_of (parse_frame fl pj) f \<noteq> Some MessageStop" for f
    unfolding event_of_def using parse_frame_no_stop [of fl pj "from_utf8_lossy f"] by (auto split: sum.splits)
  then show ?thesis by (auto simp: List.map_filter_def)
qed

lemma finish_parser_events:
  "finish_parser parse p = (Inr es, p') \<Longrightarrow> es \<noteq> [] \<Longrightarrow> parser_buffer p \<noteq> [] \<and> parser_buffer p' = []"
  by (auto simp: finish_parser_def sse_finish_def split: if_splits sum.splits option.splits prod.splits)

section \<open>Reading ends\<close>

definition left_to_read :: "'f message_stream \<Rightarrow> nat \<times> nat \<times> nat" where
  "left_to_read ms = (length (upstream ms), if parser_buffer (proc ms) = [] then 0 else 1, length (pending (proc ms)))"

abbreviation less_left :: "((nat \<times> nat \<times> nat) \<times> (nat \<times> nat \<times> nat)) set" where
  "less_left \<equiv> less_than <*lex*> less_than <*lex*> less_than"

lemma less_left_trans: "(a, b) \<in> less_left \<Longrightarrow> (b, c) \<in> less_left \<Longrightarrow> (a, c) \<in> less_left"
  by (auto simp: lex_prod_def)

lemma next_event_progress:
  "next_event fl parse ms = (Inr (Some e), ms') \<Longrightarrow> (left_to_read ms', left_to_read ms) \<in> less_left"
proof (induction fl parse ms rule: next_event.induct)
  case (1 fl parse ms)
  show ?case
  proof (cases "pending (proc ms)")
    case (Cons d ds)
    then show ?thesis using "1.prems" by (auto simp: next_event.simps [of fl parse ms] left_to_read_def)
  next
    case Nil
    show ?thesis
    proof (cases "is_done (proc ms)")
      case True
      with Nil "1.prems" obtain es p where "finish_parser parse (proc ms) = (Inr (e # es), p)"
          "ms' = ms\<lparr>proc := p\<lparr>pending := es\<rparr>\<rparr>"
        by (auto simp: next_event.simps [of fl parse ms] split: sum.splits prod.splits list.splits)
      then show ?thesis using finish_parser_events by (fastforce simp: left_to_read_def)
    next
      case ongoing: False
      show ?thesis
      proof (cases "upstream ms")
        case eof: Nil
        with Nil ongoing "1.prems" obtain d es p where f: "finish_parser parse (proc ms) = (Inr (d # es), p)"
            and n: "next_event fl parse (ms\<lparr>proc := p\<lparr>pending := d # es\<rparr>\<rparr>) = (Inr (Some e), ms')"
          by (auto simp: next_event.simps [of fl parse ms] split: sum.splits prod.splits list.splits)
        have "(left_to_read (ms\<lparr>proc := p\<lparr>pending := d # es\<rparr>\<rparr>), left_to_read ms) \<in> less_left"
          using finish_parser_events [OF f] by (simp add: left_to_read_def)
        with "1.IH"(1) [OF Nil ongoing eof f [symmetric] refl refl n] show ?thesis by (rule less_left_trans)
      next
        case (Cons u rest)
        with Nil ongoing "1.prems" obtain bytes events p where u: "u = Inr bytes" "push_chunk parse bytes (proc ms) = (Inr events, p)"
            and n: "next_event fl parse (ms\<lparr>upstream := rest, proc := p\<lparr>pending := events\<rparr>\<rparr>) = (Inr (Some e), ms')"
          by (auto simp: next_event.simps [of fl parse ms] split: sum.splits prod.splits list.splits)
        have "(left_to_read (ms\<lparr>upstream := rest, proc := p\<lparr>pending := events\<rparr>\<rparr>), left_to_read ms) \<in> less_left"
          using Cons by (simp add: left_to_read_def)
        with "1.IH"(2) [OF Nil ongoing Cons u(1) u(2) [symmetric] refl n] show ?thesis by (rule less_left_trans)
      qed
    qed
  qed
qed

lemma drain_stream_returns: "\<exists>r. drain_stream fl parse ms = Some r"
proof (induction ms rule: wf_induct_rule [OF wf_inv_image [of less_left left_to_read]])
  case 1
  show ?case by (intro wf_lex_prod wf_less_than)
next
  case (2 ms)
  then show ?case
    by (subst drain_stream.simps)
      (auto split: prod.splits sum.splits option.splits dest!: next_event_progress)
qed

section \<open>Every stream is metered once\<close>

definition unmetered :: "string \<Rightarrow> 'f run_usage_snapshot \<Rightarrow> 'f message_stream \<Rightarrow> bool" where
  "unmetered q m ms \<longleftrightarrow> attached_meter ms = Some q \<and> run_meter ms = m"

definition metered :: "'f f64_lib \<Rightarrow> string \<Rightarrow> 'f run_usage_snapshot \<Rightarrow> 'f message_stream \<Rightarrow> bool" where
  "metered fl q m ms \<longleftrightarrow> attached_meter ms = None
     \<and> run_meter ms = record_call fl q (call_usage_of q (accumulator (proc ms))) m"

lemma finish_metering_metered: "unmetered q m ms \<Longrightarrow> metered fl q m (finish_metering fl ms)"
  by (simp add: unmetered_def metered_def finish_metering_def)

lemma finish_metering_again: "metered fl q m ms \<Longrightarrow> finish_metering fl ms = ms"
  by (simp add: metered_def finish_metering_def)

lemma finish_metering_proc [simp]: "proc (finish_metering fl ms) = proc ms" "upstream (finish_metering fl ms) = upstream ms"
  by (simp_all add: finish_metering_def split: option.splits)

lemma next_event_meter:
  "next_event fl parse ms = (res, ms') \<Longrightarrow> unmetered q m ms \<Longrightarrow>
     (if res = Inr None then metered fl q m ms' else unmetered q m ms')"
proof (induction fl parse ms rule: next_event.induct)
  case (1 fl parse ms)
  have step: "unmetered q m (ms\<lparr>proc := p\<rparr>)" "unmetered q m (ms\<lparr>upstream := u\<rparr>)"
      "unmetered q m (ms\<lparr>upstream := u, proc := p\<rparr>)" for p u
    using "1.prems"(2) by (simp_all add: unmetered_def)
  show ?case
  proof (cases "pending (proc ms)")
    case (Cons d ds)
    then show ?thesis using "1.prems"(1) step by (auto simp: next_event.simps [of fl parse ms])
  next
    case Nil
    show ?thesis
    proof (cases "is_done (proc ms)")
      case True
      then show ?thesis
        using Nil "1.prems"(1) step finish_metering_metered [OF step(1)]
        by (auto simp: next_event.simps [of fl parse ms] split: sum.splits prod.splits list.splits)
    next
      case ongoing: False
      show ?thesis
      proof (cases "upstream ms")
        case eof: Nil
        show ?thesis
        proof (cases "finish_parser parse (proc ms)")
          case (Pair r p)
          show ?thesis
          proof (cases "\<exists>d es. r = Inr (d # es)")
            case True
            then obtain d es where r: "r = Inr (d # es)" by blast
            have "next_event fl parse (ms\<lparr>proc := p\<lparr>pending := d # es\<rparr>\<rparr>) = (res, ms')"
              using "1.prems"(1) Nil ongoing eof Pair r by (simp add: next_event.simps [of fl parse ms])
            then show ?thesis using "1.IH"(1) [OF Nil ongoing eof Pair [symmetric] r refl _ step(1)] by simp
          next
            case False
            then show ?thesis
              using "1.prems"(1) Nil ongoing eof Pair step finish_metering_metered [OF step(1)]
              by (auto simp: next_event.simps [of fl parse ms] split: sum.splits list.splits)
          qed
        qed
      next
        case (Cons u rest)
        show ?thesis
        proof (cases u)
          case (Inl e)
          then show ?thesis using "1.prems"(1) Nil ongoing Cons step by (auto simp: next_event.simps [of fl parse ms])
        next
          case (Inr bytes)
          show ?thesis
          proof (cases "push_chunk parse bytes (proc ms)")
            case (Pair r p)
            show ?thesis
            proof (cases r)
              case (Inl e)
              then show ?thesis
                using "1.prems"(1) Nil ongoing Cons \<open>u = Inr bytes\<close> Pair step by (auto simp: next_event.simps [of fl parse ms])
            next
              case (Inr events)
              have "next_event fl parse (ms\<lparr>upstream := rest, proc := p\<lparr>pending := events\<rparr>\<rparr>) = (res, ms')"
                using "1.prems"(1) Nil ongoing Cons \<open>u = Inr bytes\<close> Pair Inr by (simp add: next_event.simps [of fl parse ms])
              then show ?thesis
                using "1.IH"(2) [OF Nil ongoing Cons \<open>u = Inr bytes\<close> Pair [symmetric] Inr _ step(3)] by simp
            qed
          qed
        qed
      qed
    qed
  qed
qed

lemma drain_stream_meter:
  "drain_stream fl parse ms = Some (failed, ms') \<Longrightarrow> unmetered q m ms \<Longrightarrow>
     (if failed = None then metered fl q m ms' else unmetered q m ms')"
proof (induction ms rule: wf_induct_rule [OF wf_inv_image [of less_left left_to_read]])
  case 1
  show ?case by (intro wf_lex_prod wf_less_than)
next
  case (2 ms)
  obtain res ms1 where n: "next_event fl parse ms = (res, ms1)" by fastforce
  note meter = next_event_meter [OF n "2.prems"(2)]
  show ?case
  proof (cases "\<exists>e. res = Inr (Some e)")
    case True
    then obtain e where e: "res = Inr (Some e)" by blast
    have "(ms1, ms) \<in> inv_image less_left left_to_read" using next_event_progress n e by fastforce
    moreover have "drain_stream fl parse ms1 = Some (failed, ms')"
      using "2.prems"(1) n e by (simp add: drain_stream.simps [of fl parse ms])
    moreover have "unmetered q m ms1" using meter e by simp
    ultimately show ?thesis by (rule "2.IH")
  next
    case False
    then show ?thesis
      using "2.prems"(1) n meter by (auto simp: drain_stream.simps [of fl parse ms] split: sum.splits option.splits)
  qed
qed


section \<open>Chunks\<close>

lemma map_filter_append [simp]: "List.map_filter f (xs @ ys) = List.map_filter f xs @ List.map_filter f ys"
  by (simp add: List.map_filter_def)

lemma drain_pending: "drain_stream fl parse ms = drain_stream fl parse (ms\<lparr>proc := (proc ms)\<lparr>pending := []\<rparr>\<rparr>)"
proof (induction "pending (proc ms)" arbitrary: ms)
  case Nil
  then have "ms\<lparr>proc := (proc ms)\<lparr>pending := []\<rparr>\<rparr> = ms" by (cases ms; cases "proc ms") simp
  then show ?case by simp
next
  case (Cons e es)
  have "drain_stream fl parse ms = drain_stream fl parse (ms\<lparr>proc := (proc ms)\<lparr>pending := es\<rparr>\<rparr>)"
    by (subst drain_stream.simps) (simp add: next_event.simps [of fl parse ms] Cons.hyps(2) [symmetric])
  then show ?case using Cons.hyps(1) [of "ms\<lparr>proc := (proc ms)\<lparr>pending := es\<rparr>\<rparr>"] by simp
qed

text \<open>Two states with the same next event are drained alike.\<close>

lemma drain_cong: "next_event fl parse ms = next_event fl parse ms' \<Longrightarrow> drain_stream fl parse ms = drain_stream fl parse ms'"
  by (simp add: drain_stream.simps [of fl parse ms] drain_stream.simps [of fl parse ms'])

definition new_frames :: "string \<Rightarrow> string \<Rightarrow> string list" where
  "new_frames s c = fst (frames_of (next_buffer (held s) c))"

lemma seen_new: "seen (s @ c) = seen s @ new_frames s c"
  by (simp add: new_frames_def seen_held_append)

lemma new_frames_append: "new_frames s (c @ t) = new_frames s c @ new_frames (s @ c) t"
proof -
  have "seen s @ new_frames s (c @ t) = seen s @ new_frames s c @ new_frames (s @ c) t"
    using seen_new [of s "c @ t"] seen_new [of "s @ c" t] seen_new [of s c] by simp
  then show ?thesis by simp
qed

definition last_frame :: "string \<Rightarrow> string list" where
  "last_frame s = (if held s = [] then [] else [held s])"

text \<open>The rest of a stream: every event of its frames is processed, in order, and then it is metered.\<close>

lemma drain_done:
  assumes "upstream ms = []" and "parser_buffer (proc ms) = []" and "pending (proc ms) = []" and "\<not> is_done (proc ms)"
  shows "drain_stream fl parse ms = Some (None, finish_metering fl ms)"
proof -
  have "finish_parser parse (proc ms) = (Inr [], (proc ms)\<lparr>parser_buffer := []\<rparr>)"
    using assms(2) by (simp add: finish_parser_def sse_finish_def)
  moreover have "(proc ms)\<lparr>parser_buffer := []\<rparr> = proc ms" using assms(2) by (cases "proc ms") simp
  ultimately show ?thesis
    using assms by (simp add: drain_stream.simps [of fl parse ms] next_event.simps [of fl parse ms])
qed

lemma drain_chunks:
  fixes fl :: "'f f64_lib" and pj :: "string \<Rightarrow> json option"
  defines "parse \<equiv> parse_frame fl pj"
  assumes "upstream ms = map Inr cs" and "\<not> is_done (proc ms)" and "parser_buffer (proc ms) = held s"
    and "frames_fit (s @ concat cs)"
  shows "\<exists>ms'. drain_stream fl parse ms = Some (None, finish_metering fl ms') \<and> upstream ms' = []
    \<and> attached_meter ms' = attached_meter ms \<and> run_meter ms' = run_meter ms
    \<and> accumulator (proc ms') = fold accumulate
        (List.map_filter (event_of parse) (new_frames s (concat cs) @ last_frame (s @ concat cs))) (accumulator (proc ms))"
  using assms(2-5)
proof (induction cs arbitrary: s ms)
  case Nil
  let ?ms = "ms\<lparr>proc := (proc ms)\<lparr>pending := []\<rparr>\<rparr>"
  define es where "es = List.map_filter (event_of parse) (last_frame s)"
  have never: "never_fails parse" unfolding parse_def by (rule parse_frame_never_fails)
  have no_new: "new_frames s [] = []" using seen_new [of s "[]"] by simp
  have f: "finish_parser parse (proc ?ms) = (Inr es, fold process_event es ((proc ?ms)\<lparr>parser_buffer := []\<rparr>))"
    using finish_step [OF never, of s] Nil.prems(3) by (simp add: finish_parser_def es_def last_frame_def)
  define p where "p = fold process_event es ((proc ?ms)\<lparr>parser_buffer := []\<rparr>)"
  have open_p: "\<not> is_done p" "parser_buffer p = []" "pending p = []"
    and acc: "accumulator p = fold accumulate es (accumulator (proc ms))"
    using Nil.prems(2) process_events_done [OF events_no_stop [of fl pj "last_frame s"], of "(proc ?ms)\<lparr>parser_buffer := []\<rparr>"]
    by (simp_all add: p_def es_def parse_def)
  have "next_event fl parse ?ms = next_event fl parse (ms\<lparr>proc := p\<lparr>pending := es\<rparr>\<rparr>)"
  proof (cases es)
    case Nil
    then have same: "ms\<lparr>proc := p\<lparr>pending := es\<rparr>\<rparr> = ms\<lparr>proc := p\<rparr>" using open_p(3) by (cases p) simp
    have "finish_parser parse p = (Inr [], p)" using open_p(2) by (cases p) (simp add: finish_parser_def sse_finish_def)
    then show ?thesis
      using Nil.prems(1,2) f Nil open_p p_def [symmetric] unfolding same
      by (simp add: next_event.simps [of fl parse ?ms] next_event.simps [of fl parse "ms\<lparr>proc := p\<rparr>"])
  next
    case (Cons d ds)
    then show ?thesis using Nil.prems(1,2) f p_def [symmetric] by (simp add: next_event.simps [of fl parse ?ms])
  qed
  then have "drain_stream fl parse ms = drain_stream fl parse (ms\<lparr>proc := p\<lparr>pending := es\<rparr>\<rparr>)"
    using drain_pending [of fl parse ms] drain_cong by metis
  also have "\<dots> = drain_stream fl parse (ms\<lparr>proc := p\<lparr>pending := []\<rparr>\<rparr>)" by (subst drain_pending) simp
  also have "\<dots> = Some (None, finish_metering fl (ms\<lparr>proc := p\<lparr>pending := []\<rparr>\<rparr>))"
    using Nil.prems(1) open_p by (intro drain_done) simp_all
  finally show ?case
    using Nil.prems(1) acc by (intro exI [of _ "ms\<lparr>proc := p\<lparr>pending := []\<rparr>\<rparr>"]) (simp add: no_new es_def)
next
  case (Cons c cs)
  let ?ms = "ms\<lparr>proc := (proc ms)\<lparr>pending := []\<rparr>\<rparr>"
  define es where "es = List.map_filter (event_of parse) (new_frames s c)"
  have never: "never_fails parse" unfolding parse_def by (rule parse_frame_never_fails)
  have "length (held (s @ c)) \<le> MAX_SSE_BUFFER_BYTES" using held_fits [of "s @ c" "concat cs"] Cons.prems(4) by simp
  then have "sse_push parse c (held s) = (Inr es, held (s @ c))"
    using push_step [OF never, of c s] by (simp add: es_def new_frames_def)
  then have f: "push_chunk parse c (proc ?ms) = (Inr es, fold process_event es ((proc ?ms)\<lparr>parser_buffer := held (s @ c)\<rparr>))"
    using Cons.prems(3) by (simp add: push_chunk_def)
  define p where "p = fold process_event es ((proc ?ms)\<lparr>parser_buffer := held (s @ c)\<rparr>)"
  define ms1 where "ms1 = ms\<lparr>upstream := map Inr cs, proc := p\<lparr>pending := es\<rparr>\<rparr>"
  have st: "upstream ms1 = map Inr cs" "\<not> is_done (proc ms1)" "parser_buffer (proc ms1) = held (s @ c)"
    "attached_meter ms1 = attached_meter ms" "run_meter ms1 = run_meter ms"
    "accumulator (proc ms1) = fold accumulate es (accumulator (proc ms))"
    using Cons.prems(2) process_events_done [OF events_no_stop [of fl pj "new_frames s c"],
        of "(proc ?ms)\<lparr>parser_buffer := held (s @ c)\<rparr>"]
    by (simp_all add: ms1_def p_def es_def parse_def)
  have "next_event fl parse ?ms = next_event fl parse ms1"
    using Cons.prems(1,2) f p_def [symmetric] by (simp add: next_event.simps [of fl parse ?ms] ms1_def)
  then have "drain_stream fl parse ms = drain_stream fl parse ms1"
    using drain_pending [of fl parse ms] drain_cong by metis
  moreover have "new_frames s (concat (c # cs)) = new_frames s c @ new_frames (s @ c) (concat cs)"
    by (simp add: new_frames_append)
  ultimately show ?case
    using Cons.IH [OF st(1-3)] Cons.prems(4) st(4-6) by (simp add: es_def)
qed

text \<open>
  C32: the chunks of a stream do not matter: for every stream whose frames, comments and unfinished rest included,
  are shorter than the buffer's cap, and every way of cutting its bytes into chunks, within a line break or a
  character as well, collecting succeeds with the response of the events of the whole stream, read at once.
\<close>

theorem chunks_do_not_matter:
  assumes "frames_fit (concat chunks)"
  shows "map_option fst (collect_all fl pj sj (new_stream (map Inr chunks) q m))
    = Some (Inr (into_response pj sj
        (fold accumulate (stream_events (parse_frame fl pj) (concat chunks)) empty_accumulator)))"
proof -
  let ?s = "new_stream (map Inr chunks) q m" and ?parse = "parse_frame fl pj"
  have s: "upstream ?s = map Inr chunks" "\<not> is_done (proc ?s)" "parser_buffer (proc ?s) = held []"
      "accumulator (proc ?s) = empty_accumulator"
    by (simp_all add: new_stream_def new_processor_def)
  obtain ms' where d: "drain_stream fl ?parse ?s = Some (None, finish_metering fl ms')"
    and acc: "accumulator (proc ms') = fold accumulate
        (List.map_filter (event_of ?parse) (new_frames [] (concat chunks) @ last_frame (concat chunks))) empty_accumulator"
    using drain_chunks [OF s(1-3), of fl pj] assms s(4) by auto
  have "new_frames [] (concat chunks) = seen (concat chunks)" using seen_new [of "[]" "concat chunks"] by simp
  with d acc show ?thesis by (simp add: collect_all_def stream_events_def last_frame_def)
qed

text \<open>A frame cut inside its line break and inside the blank line after it.\<close>

definition cut_stream :: "string list" where
  "cut_stream = [''data: x'' @ [CHR 0x0D], [CHR 0x0A, CHR 0x0D], CHR 0x0A # ''data: y'']"

definition sample_f64 :: "nat f64_lib" where
  "sample_f64 = \<lparr>f64_of = (\<lambda>n. 1), finite_and_not_negative = (\<lambda>x. True), f64_zero = 0, f64_add = (+)\<rparr>"

theorem chunks_do_not_matter_witness:
  "map_option fst (collect_all sample_f64 (\<lambda>_. None) (\<lambda>_. []) (new_stream (map Inr cut_stream) ''m'' (new_meter sample_f64)))
    = Some (Inr (into_response (\<lambda>_. None) (\<lambda>_. [])
        (fold accumulate (stream_events (parse_frame sample_f64 (\<lambda>_. None)) (concat cut_stream)) empty_accumulator)))"
proof (rule chunks_do_not_matter)
  have "seen (concat cut_stream) = [''data: x'']" "held (concat cut_stream) = ''data: y''" by code_simp+
  then show "frames_fit (concat cut_stream)" by (simp add: frames_fit_def MAX_SSE_BUFFER_BYTES_def)
qed

section \<open>What the accumulator holds\<close>

text \<open>The entry of an index, and what an event adds to it.\<close>

definition entry :: "'a \<Rightarrow> 'a list \<Rightarrow> nat \<Rightarrow> 'a" where
  "entry d xs i = (if i < length xs then xs ! i else d)"

lemma entry_grow_to [simp]: "entry d (grow_to i d xs) j = entry d xs j"
  by (auto simp: entry_def grow_to_def nth_append)

lemma entry_update_at [simp]: "entry d (update_at i d f xs) j = (if i = j then f (entry d xs j) else entry d xs j)"
  by (auto simp: entry_def update_at_def grow_to_def Let_def nth_append nth_list_update)

fun text_part :: "nat \<Rightarrow> 'f stream_event \<Rightarrow> string" where
  "text_part i (ContentBlockDelta j (TextDelta t)) = (if unat j = i then t else [])"
| "text_part i _ = []"

fun thinking_part :: "'f stream_event \<Rightarrow> string" where
  "thinking_part (ContentBlockDelta j (ThinkingDelta t)) = t"
| "thinking_part _ = []"

fun argument_part :: "nat \<Rightarrow> 'f stream_event \<Rightarrow> string" where
  "argument_part i (ContentBlockDelta j (InputJsonDelta p)) = (if unat j = i then p else [])"
| "argument_part i (ContentBlockDelta j (ToolCallDelta cid n (Some a))) = (if unat j = i then a else [])"
| "argument_part i _ = []"

fun name_part :: "nat \<Rightarrow> 'f stream_event \<Rightarrow> string option" where
  "name_part i (ContentBlockStart j (ToolUse cid n)) = (if unat j = i then Some n else None)"
| "name_part i (ContentBlockDelta j (ToolCallDelta cid n a)) = (if unat j = i then n else None)"
| "name_part i _ = None"

fun id_part :: "nat \<Rightarrow> 'f stream_event \<Rightarrow> string option" where
  "id_part i (ContentBlockStart j (ToolUse cid n)) = (if unat j = i then Some cid else None)"
| "id_part i (ContentBlockDelta j (ToolCallDelta cid n a)) = (if unat j = i then cid else None)"
| "id_part i _ = None"

fun reason_part :: "'f stream_event \<Rightarrow> string option option" where
  "reason_part (MessageDelta e) = Some (md_finish_reason e)"
| "reason_part _ = None"

fun usage_part :: "'f stream_event \<Rightarrow> 'f stream_usage option" where
  "usage_part (MessageDelta e) = md_usage e"
| "usage_part _ = None"

fun last_given :: "'a \<Rightarrow> ('e \<Rightarrow> 'a option) \<Rightarrow> 'e list \<Rightarrow> 'a" where
  "last_given d f [] = d"
| "last_given d f (e # es) = last_given (case f e of None \<Rightarrow> d | Some v \<Rightarrow> v) f es"

lemma fold_concat:
  "(\<And>e acc. get (step e acc) = get acc @ part e) \<Longrightarrow> get (fold step es acc) = get acc @ concat (map part es)"
  by (induction es arbitrary: acc) simp_all

lemma fold_last_given:
  "(\<And>e acc. get (step e acc) = (case part e of None \<Rightarrow> get acc | Some v \<Rightarrow> v)) \<Longrightarrow>
     get (fold step es acc) = last_given (get acc) part es"
  by (induction es arbitrary: acc) simp_all

lemma accumulate_text:
  "entry [] (text_blocks (accumulate e acc)) i = entry [] (text_blocks acc) i @ text_part i e"
  "thinking (accumulate e acc) = thinking acc @ thinking_part e"
  by (cases e; auto simp: Let_def split: content_block.splits content_block_delta.splits option.splits)+

lemma accumulate_tool_call:
  "tc_arguments (entry no_tool_call (tool_calls (accumulate e acc)) i)
     = tc_arguments (entry no_tool_call (tool_calls acc) i) @ argument_part i e"
  "tc_name (entry no_tool_call (tool_calls (accumulate e acc)) i)
     = (case name_part i e of None \<Rightarrow> tc_name (entry no_tool_call (tool_calls acc) i) | Some n \<Rightarrow> n)"
  "tc_id (entry no_tool_call (tool_calls (accumulate e acc)) i)
     = (case id_part i e of None \<Rightarrow> tc_id (entry no_tool_call (tool_calls acc) i) | Some n \<Rightarrow> n)"
  by (cases e; auto simp: Let_def tool_call_delta_def split: content_block.splits content_block_delta.splits option.splits)+

lemma accumulate_message:
  "finish_reason (accumulate e acc) = (case reason_part e of None \<Rightarrow> finish_reason acc | Some r \<Rightarrow> r)"
  "acc_usage (accumulate e acc) = (case map_option Some (usage_part e) of None \<Rightarrow> acc_usage acc | Some u \<Rightarrow> u)"
  by (cases e; auto simp: Let_def split: content_block.splits content_block_delta.splits option.splits)+


text \<open>A usage chunk after the finish chunk hides the finish reason: the response then says \<open>stop\<close>.\<close>

lemma usage_chunk_hides_finish_reason:
  "r_finish_reason (unstructured_response pj (fold accumulate
     (es @ [MessageDelta \<lparr>md_finish_reason = Some ''length'', md_usage = None\<rparr>,
            MessageDelta \<lparr>md_finish_reason = None, md_usage = Some u\<rparr>]) empty_accumulator)) = ''stop''"
  by (simp add: unstructured_response_def Let_def)

text \<open>A response without any tool call counts as a tool call.\<close>

lemma no_tool_calls_is_tool_call: "tool_calls acc = [] \<Longrightarrow> is_tool_call acc"
  by (simp add: is_tool_call_def)

section \<open>The meter adds up\<close>

definition charged_to :: "string \<Rightarrow> string \<times> 'f call_usage option \<Rightarrow> u64 \<times> u64" where
  "charged_to m = (\<lambda>(requested, u). case u of
       None \<Rightarrow> (0, 0)
     | Some u \<Rightarrow> if (if is_blank (cu_model u) then requested else cu_model u) = m then (cu_input u, cu_output u) else (0, 0))"

definition charged :: "string \<times> 'f call_usage option \<Rightarrow> u64 \<times> u64" where
  "charged = (\<lambda>(_, u). case u of None \<Rightarrow> (0, 0) | Some u \<Rightarrow> (cu_input u, cu_output u))"

definition tokens_of_model :: "string \<Rightarrow> (string \<times> model_tokens) list \<Rightarrow> u64 \<times> u64" where
  "tokens_of_model m ms = (case map_of ms m of None \<Rightarrow> (0, 0) | Some t \<Rightarrow> (mt_input t, mt_output t))"

definition record_calls :: "'f f64_lib \<Rightarrow> (string \<times> 'f call_usage option) list \<Rightarrow> 'f run_usage_snapshot \<Rightarrow> 'f run_usage_snapshot" where
  "record_calls fl calls s = fold (\<lambda>(requested, u). record_call fl requested u) calls s"

definition models_sorted :: "(string \<times> model_tokens) list \<Rightarrow> bool" where
  "models_sorted ms \<longleftrightarrow> sorted_wrt (<) (map fst ms)"

lemma add_tokens_keys: "set (map fst (add_tokens m i out ms)) = insert m (set (map fst ms))"
  by (induction m i out ms rule: add_tokens.induct) auto

lemma add_tokens_sorted: "models_sorted ms \<Longrightarrow> models_sorted (add_tokens m i out ms)"
proof (induction m i out ms rule: add_tokens.induct)
  case (2 m i out n t rest)
  then have n: "\<forall>k \<in> set (map fst rest). n < k" and r: "models_sorted rest" by (auto simp: models_sorted_def)
  show ?case
  proof (cases "m = n \<or> m < n")
    case True
    then show ?thesis using n r by (auto simp: models_sorted_def)
  next
    case False
    then have "\<forall>k \<in> set (map fst (add_tokens m i out rest)). n < k" using n unfolding add_tokens_keys by auto
    then show ?thesis using False 2 r by (auto simp: models_sorted_def)
  qed
qed (simp add: models_sorted_def)

lemma add_tokens_lookup:
  "models_sorted ms \<Longrightarrow> tokens_of_model k (add_tokens m i out ms)
     = (if k = m then (fst (tokens_of_model k ms) + i, snd (tokens_of_model k ms) + out) else tokens_of_model k ms)"
proof (induction m i out ms rule: add_tokens.induct)
  case (2 m i out n t rest)
  have "map_of rest m = None" if "m < n"
    using 2(2) that by (fastforce simp: models_sorted_def map_of_eq_None_iff)
  then show ?case using 2 by (auto simp: tokens_of_model_def models_sorted_def)
qed (simp add: tokens_of_model_def)

lemma record_call_fields:
  "sn_calls (record_call fl q u s) = sn_calls s + 1"
  "calls_without_usage (record_call fl q u s) = calls_without_usage s + (if u = None then 1 else 0)"
  "sn_input (record_call fl q u s) = sn_input s + fst (charged (q, u))"
  "sn_output (record_call fl q u s) = sn_output s + snd (charged (q, u))"
  "models_sorted (per_model s) \<Longrightarrow> models_sorted (per_model (record_call fl q u s))"
  "models_sorted (per_model s) \<Longrightarrow> tokens_of_model m (per_model (record_call fl q u s))
     = (fst (tokens_of_model m (per_model s)) + fst (charged_to m (q, u)),
        snd (tokens_of_model m (per_model s)) + snd (charged_to m (q, u)))"
  by (auto simp: record_call_def charged_def charged_to_def Let_def add_tokens_sorted add_tokens_lookup split: option.splits)

lemma record_calls_fields:
  assumes "models_sorted (per_model s)"
  shows "models_sorted (per_model (record_calls fl calls s))
    \<and> sn_calls (record_calls fl calls s) = sn_calls s + of_nat (length calls)
    \<and> calls_without_usage (record_calls fl calls s) = calls_without_usage s + of_nat (length (filter (\<lambda>c. snd c = None) calls))
    \<and> sn_input (record_calls fl calls s) = sn_input s + sum_list (map (fst \<circ> charged) calls)
    \<and> sn_output (record_calls fl calls s) = sn_output s + sum_list (map (snd \<circ> charged) calls)
    \<and> (\<forall>m. tokens_of_model m (per_model (record_calls fl calls s)) =
         (fst (tokens_of_model m (per_model s)) + sum_list (map (fst \<circ> charged_to m) calls),
          snd (tokens_of_model m (per_model s)) + sum_list (map (snd \<circ> charged_to m) calls)))"
  using assms
proof (induction calls arbitrary: s)
  case Nil
  then show ?case by (simp add: record_calls_def)
next
  case (Cons c calls)
  obtain q u where c: "c = (q, u)" by fastforce
  have r: "record_calls fl (c # calls) s = record_calls fl calls (record_call fl q u s)" by (simp add: record_calls_def c)
  show ?case
    unfolding r using Cons.IH [OF record_call_fields(5) [OF Cons.prems, of fl q u]] record_call_fields(6) [OF Cons.prems]
    by (simp add: record_call_fields c add_ac)
qed

text \<open>
  The usage of a run adds up: after any calls the meter counts every call and every call without usage, its
  totals are the sums of what the calls reported, and the tokens of each model are the sums of the calls that
  model served, modulo the width of the counters; the tokens are complete exactly when calls were made and none
  lacked usage.
\<close>

theorem run_usage_adds_up:
  fixes fl :: "'f f64_lib" and calls :: "(string \<times> 'f call_usage option) list" and m :: string
  defines "s \<equiv> record_calls fl calls (new_meter fl)"
  shows "sn_calls s = of_nat (length calls)
    \<and> calls_without_usage s = of_nat (length (filter (\<lambda>c. snd c = None) calls))
    \<and> sn_input s = sum_list (map (fst \<circ> charged) calls) \<and> sn_output s = sum_list (map (snd \<circ> charged) calls)
    \<and> tokens_of_model m (per_model s) = (sum_list (map (fst \<circ> charged_to m) calls), sum_list (map (snd \<circ> charged_to m) calls))
    \<and> (length calls < 2 ^ 64 \<longrightarrow> (tokens_complete s \<longleftrightarrow> calls \<noteq> [] \<and> (\<forall>c \<in> set calls. snd c \<noteq> None)))"
proof -
  have "models_sorted (per_model (new_meter fl))" by (simp add: new_meter_def models_sorted_def)
  note f = record_calls_fields [OF this, of fl calls, folded s_def]
  have start: "sn_calls (new_meter fl) = 0" "calls_without_usage (new_meter fl) = 0" "sn_input (new_meter fl) = 0"
      "sn_output (new_meter fl) = 0" "tokens_of_model m (per_model (new_meter fl)) = (0, 0)"
    by (simp_all add: new_meter_def tokens_of_model_def)
  have small: "(of_nat n = (0 :: u64)) = (n = 0)" if "n < 2 ^ 64" for n
    using that by (auto simp: of_nat_eq_0_iff dvd_eq_mod_eq_0 word_of_nat_eq_0_iff)
  have "length (filter P calls) < 2 ^ 64" if "length calls < 2 ^ 64" for P using that length_filter_le le_less_trans by blast
  then have "tokens_complete s \<longleftrightarrow> calls \<noteq> [] \<and> (\<forall>c \<in> set calls. snd c \<noteq> None)" if "length calls < 2 ^ 64"
    using that f start by (simp add: tokens_complete_def word_greater_zero_iff small filter_empty_conv)
  then show ?thesis using f start by simp
qed

definition sample_calls :: "(string \<times> 'f call_usage option) list" where
  "sample_calls = [(''a'', Some \<lparr>cu_model = ''b'', cu_input = 3, cu_output = 5, cu_cost = None\<rparr>), (''a'', None),
     (''b'', Some \<lparr>cu_model = '' '', cu_input = 1, cu_output = 2, cu_cost = None\<rparr>)]"

theorem run_usage_adds_up_witness:
  "tokens_of_model ''b'' (per_model (record_calls sample_f64 sample_calls (new_meter sample_f64))) = (4, 7)
    \<and> \<not> tokens_complete (record_calls sample_f64 sample_calls (new_meter sample_f64))"
proof -
  have "is_blank '' ''" "\<not> is_blank ''b''" by code_simp+
  then show ?thesis
    using run_usage_adds_up [of sample_f64 sample_calls "''b''"] by (simp add: sample_calls_def charged_to_def)
qed

end
