(* ===== verification/Incremental_Json.thy ===== *)
theory Incremental_Json
  imports Stream_Response
begin

text \<open>
  The parsers for fields that arrive in pieces (\<open>IncrementalJsonParser\<close> and \<open>StreamingFieldParser\<close> in
  \<open>src/llm/sse.rs\<close>). Positions count bytes; the characters the scanner looks for are ASCII.
\<close>

section \<open>Scanning for the end of a value\<close>

record incremental_parser =
  inc_buffer :: string
  in_string :: bool
  escape_next :: bool
  brace_depth :: int
  bracket_depth :: int
  last_check_pos :: nat

definition new_incremental :: incremental_parser where
  "new_incremental = \<lparr>inc_buffer = [], in_string = False, escape_next = False, brace_depth = 0, bracket_depth = 0,
     last_check_pos = 0\<rparr>"

text \<open>The scan over the unseen characters; it stops early when a closing brace completes the buffer.\<close>

fun scan_chars ::
  "(string \<Rightarrow> json option) \<Rightarrow> string \<Rightarrow> incremental_parser \<Rightarrow> json option \<times> incremental_parser" where
  "scan_chars parse_json [] p = (None, p)"
| "scan_chars parse_json (c # cs) p =
     (if escape_next p
      then scan_chars parse_json cs (p\<lparr>escape_next := False, last_check_pos := last_check_pos p + 1\<rparr>)
      else let p' = (if c = CHR 0x5C \<and> in_string p then p\<lparr>escape_next := True\<rparr>
                     else if c = CHR 0x22 then p\<lparr>in_string := \<not> in_string p\<rparr>
                     else if in_string p then p
                     else if c = CHR ''{'' then p\<lparr>brace_depth := brace_depth p + 1\<rparr>
                     else if c = CHR ''}'' then p\<lparr>brace_depth := brace_depth p - 1\<rparr>
                     else if c = CHR ''['' then p\<lparr>bracket_depth := bracket_depth p + 1\<rparr>
                     else if c = CHR '']'' then p\<lparr>bracket_depth := bracket_depth p - 1\<rparr>
                     else p)
           in case (if c = CHR ''}'' \<and> \<not> in_string p \<and> brace_depth p' = 0 \<and> bracket_depth p' = 0
                    then parse_json (inc_buffer p') else None) of
                Some v \<Rightarrow> (Some v, p')
              | None \<Rightarrow> scan_chars parse_json cs (p'\<lparr>last_check_pos := last_check_pos p' + 1\<rparr>))"

definition inc_try_parse ::
  "(string \<Rightarrow> json option) \<Rightarrow> incremental_parser \<Rightarrow> json option \<times> incremental_parser" where
  "inc_try_parse parse_json p =
     (case scan_chars parse_json (drop (last_check_pos p) (inc_buffer p)) p of
        (Some v, p) \<Rightarrow> (Some v, p)
      | (None, p) \<Rightarrow>
          (if brace_depth p = 0 \<and> bracket_depth p = 0 \<and> inc_buffer p \<noteq> [] then parse_json (inc_buffer p) else None, p))"

definition inc_push ::
  "(string \<Rightarrow> json option) \<Rightarrow> string \<Rightarrow> incremental_parser \<Rightarrow> json option \<times> incremental_parser" where
  "inc_push parse_json chunk p = inc_try_parse parse_json (p\<lparr>inc_buffer := inc_buffer p @ chunk\<rparr>)"

definition inc_finish :: "(string \<Rightarrow> json option) \<Rightarrow> incremental_parser \<Rightarrow> json option" where
  "inc_finish parse_json p = (if inc_buffer p = [] then None else parse_json (inc_buffer p))"

definition inc_reset :: "incremental_parser \<Rightarrow> incremental_parser" where
  "inc_reset p = new_incremental"

text \<open>Whatever it scanned, a value it yields is the value of everything it was given.\<close>

lemma scan_chars_buffer:
  "scan_chars pj cs p = (r, p') \<Longrightarrow> inc_buffer p' = inc_buffer p \<and> (\<forall>v. r = Some v \<longrightarrow> pj (inc_buffer p) = Some v)"
proof (induction pj cs p rule: scan_chars.induct)
  case (2 pj c cs p)
  show ?case
  proof (cases "escape_next p")
    case True
    then show ?thesis using "2.IH"(1) "2.prems" by simp
  next
    case False
    then show ?thesis
      using "2.IH"(2) [OF False refl] "2.prems"
      by (auto simp: Let_def split: if_splits option.splits)
  qed
qed simp

lemma inc_push_value:
  "inc_push pj chunk p = (Some v, p') \<Longrightarrow> pj (inc_buffer p @ chunk) = Some v \<and> inc_buffer p' = inc_buffer p @ chunk"
  unfolding inc_push_def inc_try_parse_def
  by (auto split: prod.splits option.splits if_splits dest!: scan_chars_buffer)

section \<open>Fields\<close>

record field_parser =
  content_parser :: incremental_parser
  fp_thought :: string
  fp_content :: string
  fp_summary :: string

definition new_field_parser :: field_parser where
  "new_field_parser = \<lparr>content_parser = new_incremental, fp_thought = [], fp_content = [], fp_summary = []\<rparr>"

definition push_text :: "string \<Rightarrow> field_parser \<Rightarrow> field_parser" where
  "push_text t p = p\<lparr>fp_content := fp_content p @ t\<rparr>"

definition push_thinking :: "string \<Rightarrow> field_parser \<Rightarrow> field_parser" where
  "push_thinking t p = p\<lparr>fp_thought := fp_thought p @ t\<rparr>"

definition push_json :: "(string \<Rightarrow> json option) \<Rightarrow> string \<Rightarrow> field_parser \<Rightarrow> json option \<times> field_parser" where
  "push_json parse_json part p =
     (case inc_push parse_json part (content_parser p) of (v, cp) \<Rightarrow> (v, p\<lparr>content_parser := cp\<rparr>))"

definition get_thought :: "field_parser \<Rightarrow> string option" where
  "get_thought p = (if fp_thought p = [] then None else Some (fp_thought p))"

definition get_content :: "field_parser \<Rightarrow> string" where
  "get_content p = fp_content p"

definition get_summary :: "field_parser \<Rightarrow> string option" where
  "get_summary p = (if fp_summary p = [] then None else Some (fp_summary p))"

definition parse_structured_content ::
  "(string \<Rightarrow> json option) \<Rightarrow> (json \<Rightarrow> string) \<Rightarrow> field_parser \<Rightarrow> (string option \<times> string \<times> string option) option" where
  "parse_structured_content parse_json show_json p = parse_structured_content_static parse_json show_json (fp_content p)"

text \<open>The first complete value is found again after more text only if all of it is one value.\<close>

lemma stale_depth:
  "snd (inc_push (\<lambda>_. Some JNull) ''{}'' new_incremental) = new_incremental\<lparr>inc_buffer := ''{}'', last_check_pos := 1\<rparr>"
  by (simp add: inc_push_def inc_try_parse_def new_incremental_def)

end
