(* ===== verification/Tool_Policy.thy ===== *)
theory Tool_Policy
  imports Prelude Json
begin

text \<open>
  Which tools a run of an agent may see and execute: agent roles (\<open>src/core/agent_instance.rs\<close>), tool groups
  and per-run activation (\<open>src/tools/tool_groups.rs\<close>), and the role policy (\<open>src/core/tool_policy.rs\<close>). A
  \<open>HashSet\<close> is a set, a \<open>HashMap\<close> a partial map; the compile-time feature \<open>ontology\<close> is an argument.
\<close>

section \<open>Roles\<close>

datatype agent_role = Plan | Do | Check | Act

definition all_roles :: "agent_role list" where
  "all_roles = [Plan, Do, Check, Act]"

fun role_display :: "agent_role \<Rightarrow> string" where
  "role_display Plan = ''PA''"
| "role_display Do = ''DA''"
| "role_display Check = ''CA''"
| "role_display Act = ''AA''"

fun role_name :: "agent_role \<Rightarrow> string" where
  "role_name Plan = ''Plan''"
| "role_name Do = ''Do''"
| "role_name Check = ''Check''"
| "role_name Act = ''Act''"

text \<open>No character outside ASCII has an upper case among the letters of these names.\<close>

definition parse_role :: "string \<Rightarrow> string + agent_role" where
  "parse_role s =
     (let u = to_ascii_uppercase s
      in if u \<in> {''PA'', ''PLAN''} then Inr Plan
         else if u \<in> {''DA'', ''DO''} then Inr Do
         else if u \<in> {''CA'', ''CHECK''} then Inr Check
         else if u \<in> {''AA'', ''ACT''} then Inr Act
         else Inl (''Unknown agent role: '' @ s))"

lemma parse_role_name [simp]: "parse_role (role_name r) = Inr r" "parse_role (role_display r) = Inr r"
proof -
  have "list_all (\<lambda>r. parse_role (role_name r) = Inr r \<and> parse_role (role_display r) = Inr r) all_roles" by code_simp
  moreover have "r \<in> set all_roles" by (cases r) (simp_all add: all_roles_def)
  ultimately show "parse_role (role_name r) = Inr r" "parse_role (role_display r) = Inr r"
    by (auto simp: list_all_iff)
qed

section \<open>Tool groups\<close>

datatype tool_group =
    Core | Workspace | Write | Search | Web | KnowledgeRead | KnowledgePlan | KnowledgeWrite
  | Ingest | Skill | Ontology | System

definition all_groups :: "tool_group list" where
  "all_groups = [Core, Workspace, Write, Search, Web, KnowledgeRead, KnowledgePlan, KnowledgeWrite,
     Ingest, Skill, Ontology, System]"

fun group_name :: "tool_group \<Rightarrow> string" where
  "group_name Core = ''Core''"
| "group_name Workspace = ''Workspace''"
| "group_name Write = ''Write''"
| "group_name Search = ''Search''"
| "group_name Web = ''Web''"
| "group_name KnowledgeRead = ''KnowledgeRead''"
| "group_name KnowledgePlan = ''KnowledgePlan''"
| "group_name KnowledgeWrite = ''KnowledgeWrite''"
| "group_name Ingest = ''Ingest''"
| "group_name Skill = ''Skill''"
| "group_name Ontology = ''Ontology''"
| "group_name System = ''System''"

text \<open>
  The lower case of a text as far as a comparison with ASCII text goes: the Kelvin sign (three bytes) is the
  only character outside ASCII whose lower case is an ASCII letter.
\<close>

fun fold_kelvin :: "string \<Rightarrow> string" where
  "fold_kelvin (a # b # c # s) =
     (if byte a = 0xE2 \<and> byte b = 0x84 \<and> byte c = 0xAA then CHR ''k'' # fold_kelvin s
      else a # fold_kelvin (b # c # s))"
| "fold_kelvin s = s"

definition lower_for_ascii :: "string \<Rightarrow> string" where
  "lower_for_ascii s = to_ascii_lowercase (fold_kelvin s)"

definition parse_group :: "string \<Rightarrow> string + tool_group" where
  "parse_group s =
     (let l = lower_for_ascii s
      in if l = ''core'' then Inr Core
         else if l = ''workspace'' then Inr Workspace
         else if l = ''write'' then Inr Write
         else if l = ''search'' then Inr Search
         else if l = ''web'' then Inr Web
         else if l \<in> {''knowledgeread'', ''knowledge_read''} then Inr KnowledgeRead
         else if l \<in> {''knowledgeplan'', ''knowledge_plan''} then Inr KnowledgePlan
         else if l \<in> {''knowledgewrite'', ''knowledge_write''} then Inr KnowledgeWrite
         else if l = ''ingest'' then Inr Ingest
         else if l = ''skill'' then Inr Skill
         else if l = ''ontology'' then Inr Ontology
         else if l = ''system'' then Inr System
         else Inl (''Unknown tool group: '' @ s))"

lemma all_groups_complete [simp]: "g \<in> set all_groups"
  by (cases g) (simp_all add: all_groups_def)

lemma parse_group_name [simp]: "parse_group (group_name g) = Inr g"
proof -
  have "list_all (\<lambda>g. parse_group (group_name g) = Inr g) all_groups" by code_simp
  then show ?thesis using all_groups_complete [of g] by (simp add: list_all_iff)
qed

record role_tool_config =
  rc_default :: "string list"
  rc_on_demand :: "string list"

record tool_group_settings =
  tg_enabled :: bool
  tg_roles :: "string \<rightharpoonup> role_tool_config"
  max_tools_per_activation :: nat
  max_activated_tools :: nat
  tg_check_bash_enabled :: bool

definition default_settings :: tool_group_settings where
  "default_settings = \<lparr>tg_enabled = True,
     tg_roles = [
       ''Plan'' \<mapsto> \<lparr>rc_default = [''Core'', ''Search'', ''KnowledgePlan'', ''System''], rc_on_demand = [''Web'']\<rparr>,
       ''Do'' \<mapsto> \<lparr>rc_default = [''Core'', ''Workspace'', ''Write'', ''Search'', ''System''],
         rc_on_demand = [''Web'', ''KnowledgePlan'', ''KnowledgeRead'', ''KnowledgeWrite'', ''Ingest'', ''Skill'',
           ''Ontology'']\<rparr>,
       ''Check'' \<mapsto> \<lparr>rc_default = [''Core'', ''Search'', ''System''],
         rc_on_demand = [''Workspace'', ''Web'', ''KnowledgePlan'', ''KnowledgeRead'']\<rparr>,
       ''Act'' \<mapsto> \<lparr>rc_default = [''Core'', ''System''],
         rc_on_demand = [''Search'', ''KnowledgePlan'', ''KnowledgeRead'']\<rparr>],
     max_tools_per_activation = 5, max_activated_tools = 20, tg_check_bash_enabled = False\<rparr>"

record tool_group_manager =
  settings :: tool_group_settings
  group_tools :: "tool_group \<rightharpoonup> string set"

fun build_group_tools :: "bool \<Rightarrow> tool_group \<Rightarrow> string set option" where
  "build_group_tools feature Core = Some {''file_read'', ''file_list''}"
| "build_group_tools feature Workspace = Some {''workspace_status'', ''read_agent_output''}"
| "build_group_tools feature Write = Some {''file_write'', ''bash'', ''powershell'', ''file_edit''}"
| "build_group_tools feature Web = Some {''web_search'', ''web_fetch''}"
| "build_group_tools feature Search = Some {''grep_search'', ''glob_search'', ''rag_search'', ''kg_search''}"
| "build_group_tools feature KnowledgeRead = Some {''knowledge_query'', ''knowledge_neighbors'', ''kb_vector_search''}"
| "build_group_tools feature KnowledgePlan =
     Some {''knowledge_list'', ''knowledge_search'', ''knowledge_extract_code''}"
| "build_group_tools feature KnowledgeWrite =
     Some {''knowledge_update'', ''knowledge_delete'', ''knowledge_extract'', ''knowledge_bridge''}"
| "build_group_tools feature Ingest =
     Some {''rag_index'', ''rag_chunk'', ''knowledge_import_file'', ''knowledge_import_url'',
       ''knowledge_import_directory'', ''knowledge_import_json''}"
| "build_group_tools feature Skill = Some {''create_skill'', ''convert_skill''}"
| "build_group_tools feature System = Some {''tool_search''}"
| "build_group_tools feature Ontology =
     Some {n \<in> {''ontology_register'', ''ontology_validate_turtle'', ''ontology_lint_turtle'', ''ontology_diff_turtle'',
       ''ontology_validate_shacl'', ''ontology_reason''}. feature \<or> n = ''ontology_register''}"

definition new_manager :: "bool \<Rightarrow> tool_group_settings option \<Rightarrow> tool_group_manager" where
  "new_manager feature s =
     \<lparr>settings = (case s of None \<Rightarrow> default_settings | Some s \<Rightarrow> s), group_tools = build_group_tools feature\<rparr>"

definition parsed_groups :: "string list \<Rightarrow> tool_group list" where
  "parsed_groups names = List.map_filter (\<lambda>n. case parse_group n of Inr g \<Rightarrow> Some g | Inl e \<Rightarrow> None) names"

definition get_groups_for_role :: "tool_group_manager \<Rightarrow> string \<Rightarrow> tool_group list \<times> tool_group list" where
  "get_groups_for_role m r =
     (case tg_roles (settings m) r of
        Some c \<Rightarrow> (parsed_groups (rc_default c), parsed_groups (rc_on_demand c))
      | None \<Rightarrow> ([Core, System], []))"

definition get_tools_for_groups :: "tool_group_manager \<Rightarrow> tool_group list \<Rightarrow> string set" where
  "get_tools_for_groups m groups =
     fold (\<lambda>g tools. case group_tools m g of Some ts \<Rightarrow> tools \<union> ts | None \<Rightarrow> tools) groups {}"

text \<open>The search through the hash map, in the order of the enumeration; no tool has two groups.\<close>

definition group_for_tool :: "tool_group_manager \<Rightarrow> string \<Rightarrow> tool_group option" where
  "group_for_tool m tool =
     find (\<lambda>g. case group_tools m g of Some ts \<Rightarrow> tool \<in> ts | None \<Rightarrow> False) all_groups"

definition grouped_tool_names :: "tool_group_manager \<Rightarrow> string list" where
  "grouped_tool_names m =
     sort (concat (map (\<lambda>g. case group_tools m g of Some ts \<Rightarrow> sorted_list_of_set ts | None \<Rightarrow> []) all_groups))"

definition get_tool_names_for_role :: "tool_group_manager \<Rightarrow> string \<Rightarrow> string set \<times> string set" where
  "get_tool_names_for_role m r =
     (case get_groups_for_role m r of (resident, on_demand) \<Rightarrow>
        (get_tools_for_groups m resident, get_tools_for_groups m on_demand))"

definition is_tool_available_for_role :: "tool_group_manager \<Rightarrow> string \<Rightarrow> string \<Rightarrow> bool" where
  "is_tool_available_for_role m r tool =
     (case get_tool_names_for_role m r of (resident, on_demand) \<Rightarrow> tool \<in> resident \<or> tool \<in> on_demand)"

definition summary_descriptions :: "(tool_group \<times> string) list" where
  "summary_descriptions =
     [(Web, ''find or fetch public web content''),
      (KnowledgeRead, ''query imported knowledge and graph data''),
      (KnowledgeWrite, ''update or enrich knowledge graph data''),
      (Ingest, ''index or import documents and structured data''),
      (Skill, ''create or convert skill definitions''),
      (Ontology, ''register, validate, compare, or reason over ontology data''),
      (Search, ''search files and indexed documents'')]"

definition build_tool_summary :: "tool_group_manager \<Rightarrow> string \<Rightarrow> string list \<Rightarrow> string" where
  "build_tool_summary m r registered =
     (if \<not> tg_enabled (settings m) then []
      else let on_demand = snd (get_groups_for_role m r);
               shown = filter (\<lambda>(g, d). g \<in> set on_demand \<and>
                 get_tools_for_groups m [g] \<inter> set registered \<noteq> {}) summary_descriptions;
               entries = map (\<lambda>(g, d). ''- '' @ group_name g @ '': '' @ d @
                 ''; use tool_search to load relevant tools.'') shown
      in if entries = [] then []
         else ''## On-demand tool groups'' @ [CHR 0x0A] @ join_with [CHR 0x0A] entries)"

lemma get_tools_fold:
  "fold (\<lambda>g tools. case gt g of Some ts \<Rightarrow> tools \<union> ts | None \<Rightarrow> tools) groups start
    = start \<union> (\<Union>g \<in> set groups. case gt g of Some ts \<Rightarrow> ts | None \<Rightarrow> {})"
  by (induction groups arbitrary: start) (auto split: option.splits)

lemma get_tools_union:
  "get_tools_for_groups m groups = (\<Union>g \<in> set groups. case group_tools m g of Some ts \<Rightarrow> ts | None \<Rightarrow> {})"
  by (simp add: get_tools_for_groups_def get_tools_fold)

text \<open>The groups are disjoint, so a tool has one group and the order of the search does not matter.\<close>

lemma groups_disjoint:
  "build_group_tools f g = Some A \<Longrightarrow> build_group_tools f h = Some B \<Longrightarrow> t \<in> A \<Longrightarrow> t \<in> B \<Longrightarrow> g = h"
  by (cases g; cases h) auto

lemma groups_finite: "build_group_tools f g = Some A \<Longrightarrow> finite A"
  by (cases g) auto

lemma group_for_tool_iff:
  assumes "group_tools m = build_group_tools f"
  shows "group_for_tool m t = Some g \<longleftrightarrow> (\<exists>A. build_group_tools f g = Some A \<and> t \<in> A)"
proof -
  have some: "\<exists>A. build_group_tools f g = Some A" for g by (cases g) auto
  define P where "P g = (case build_group_tools f g of Some ts \<Rightarrow> t \<in> ts | None \<Rightarrow> False)" for g
  have P: "P g \<longleftrightarrow> (\<exists>A. build_group_tools f g = Some A \<and> t \<in> A)" for g
    using some [of g] by (auto simp: P_def)
  have "group_for_tool m t = find P all_groups" by (simp add: group_for_tool_def assms P_def [abs_def])
  moreover have "find P all_groups = Some g \<longleftrightarrow> P g"
  proof
    assume "P g"
    then obtain h where h: "find P all_groups = Some h" using all_groups_complete [of g] by (fastforce simp: find_None_iff)
    then have "P h" by (metis find_SomeD(1))
    then show "find P all_groups = Some g" using h \<open>P g\<close> groups_disjoint by (auto simp: P)
  qed (metis find_SomeD(1))
  ultimately show ?thesis by (simp add: P)
qed

section \<open>The policy of a run\<close>

record tool_policy =
  tp_groups :: tool_group_manager
  tp_check_bash :: bool
  agent_restrictions :: "string \<rightharpoonup> string set"

definition new_policy :: "bool \<Rightarrow> tool_policy" where
  "new_policy feature = \<lparr>tp_groups = new_manager feature None, tp_check_bash = False, agent_restrictions = Map.empty\<rparr>"

definition with_tool_group_manager :: "tool_group_manager \<Rightarrow> tool_policy \<Rightarrow> tool_policy" where
  "with_tool_group_manager m p = p\<lparr>tp_check_bash := tg_check_bash_enabled (settings m), tp_groups := m\<rparr>"

definition with_check_bash_enabled :: "bool \<Rightarrow> tool_policy \<Rightarrow> tool_policy" where
  "with_check_bash_enabled b p = p\<lparr>tp_check_bash := b\<rparr>"

definition readonly_tools :: "string list" where
  "readonly_tools = [''file_read'', ''file_list'', ''workspace_status'', ''read_agent_output'', ''glob_search'',
     ''grep_search'', ''web_search'', ''web_fetch'', ''tool_search'', ''rag_search'', ''knowledge_list'',
     ''knowledge_search'', ''kg_search'', ''knowledge_extract_code'', ''knowledge_query'', ''knowledge_neighbors'',
     ''kb_vector_search'']"

definition plan_readonly_tools :: "string list" where
  "plan_readonly_tools = [''file_read'', ''file_list'', ''glob_search'', ''grep_search'', ''web_search'', ''web_fetch'',
     ''tool_search'', ''rag_search'', ''knowledge_list'', ''knowledge_search'', ''kg_search'',
     ''knowledge_extract_code'']"

definition is_readonly_tool :: "string \<Rightarrow> bool" where
  "is_readonly_tool name \<longleftrightarrow> name \<in> set readonly_tools"

definition internal_micro_tool_prefixes :: "string list" where
  "internal_micro_tool_prefixes = [''read_full_result_'', ''query_'', ''get_entity_details_'', ''expand_relation_'']"

definition has_internal_micro_tool_prefix :: "string \<Rightarrow> bool" where
  "has_internal_micro_tool_prefix name \<longleftrightarrow> list_ex (\<lambda>p. starts_with p name) internal_micro_tool_prefixes"

definition role_cap :: "tool_policy \<Rightarrow> agent_role \<Rightarrow> string set" where
  "role_cap p r =
     (case get_tool_names_for_role (tp_groups p) (role_name r) of (resident, on_demand) \<Rightarrow>
        let cap = resident \<union> on_demand;
            cap = (case r of
                     Plan \<Rightarrow> {n \<in> cap. n \<in> set plan_readonly_tools}
                   | Act \<Rightarrow> {n \<in> cap. is_readonly_tool n}
                   | Check \<Rightarrow>
                       let cap = {n \<in> cap. is_readonly_tool n}
                       in if tp_check_bash p then insert ''bash'' cap else cap
                   | Do \<Rightarrow> cap)
        in cap - {''knowledge_delete''} - {''ontology_register''})"

definition visible_tools :: "tool_policy \<Rightarrow> agent_role \<Rightarrow> string \<Rightarrow> string list" where
  "visible_tools p r agent =
     (let tools = role_cap p r;
          tools = (case agent_restrictions p agent of
                     Some allowed \<Rightarrow> {n \<in> tools. n \<in> allowed}
                   | None \<Rightarrow> tools)
      in sorted_list_of_set tools)"

definition is_visible :: "tool_policy \<Rightarrow> agent_role \<Rightarrow> string \<Rightarrow> string \<Rightarrow> bool" where
  "is_visible p r agent name \<longleftrightarrow> list_ex (\<lambda>t. t = name) (visible_tools p r agent)"

definition is_executable :: "tool_policy \<Rightarrow> agent_role \<Rightarrow> string \<Rightarrow> string \<Rightarrow> bool" where
  "is_executable p r agent name \<longleftrightarrow> is_visible p r agent name"

definition is_internal_micro_tool_executable :: "tool_policy \<Rightarrow> agent_role \<Rightarrow> string \<Rightarrow> string \<Rightarrow> bool" where
  "is_internal_micro_tool_executable p r agent name \<longleftrightarrow>
     r \<noteq> Plan \<and> has_internal_micro_tool_prefix name
     \<and> list_ex (\<lambda>t. t = ''file_read'') (visible_tools p r agent)"

definition restrict_tools :: "string \<Rightarrow> string list \<Rightarrow> tool_policy \<Rightarrow> tool_policy" where
  "restrict_tools agent tools p =
     (let requested = set tools
      in p\<lparr>agent_restrictions := (agent_restrictions p)(agent \<mapsto>
             (case agent_restrictions p agent of
                Some current \<Rightarrow> {n \<in> current. n \<in> requested}
              | None \<Rightarrow> requested))\<rparr>)"

section \<open>Activation of on-demand tools\<close>

record activated_tools =
  at_tools :: "string list"
  max_per_activation :: nat
  max_total :: nat
  activation_events :: nat
  at_policy :: tool_policy

definition new_activated :: "bool \<Rightarrow> nat \<Rightarrow> nat \<Rightarrow> activated_tools" where
  "new_activated feature n k =
     \<lparr>at_tools = [], max_per_activation = n, max_total = k, activation_events = 0, at_policy = new_policy feature\<rparr>"

definition default_activated :: "bool \<Rightarrow> activated_tools" where
  "default_activated feature = new_activated feature 0 0"

definition with_policy :: "tool_policy \<Rightarrow> activated_tools \<Rightarrow> activated_tools" where
  "with_policy p a = a\<lparr>at_policy := p\<rparr>"

text \<open>One candidate: the tools so far, those activated by this call, those skipped.\<close>

definition activate_one ::
  "activated_tools \<Rightarrow> string set \<Rightarrow> string \<Rightarrow> string list \<times> string list \<times> string list
   \<Rightarrow> string list \<times> string list \<times> string list" where
  "activate_one a allowed name = (\<lambda>(tools, activated, skipped).
     if name \<notin> allowed \<or> name \<in> set tools then (tools, activated, skipped)
     else if length activated = max_per_activation a \<or> length tools = max_total a
     then (tools, activated, skipped @ [name])
     else (tools @ [name], activated @ [name], skipped))"

definition activate ::
  "string list \<Rightarrow> string set \<Rightarrow> activated_tools \<Rightarrow> (string list \<times> string list) \<times> activated_tools" where
  "activate candidates allowed a =
     (case fold (activate_one a allowed) candidates (at_tools a, [], []) of
        (tools, activated, skipped) \<Rightarrow>
          ((activated, skipped),
           a\<lparr>at_tools := tools,
             activation_events := activation_events a + (if activated = [] then 0 else 1)\<rparr>))"

definition restrict_activated :: "string \<Rightarrow> string list \<Rightarrow> activated_tools \<Rightarrow> activated_tools" where
  "restrict_activated agent tools a = a\<lparr>at_policy := restrict_tools agent tools (at_policy a)\<rparr>"

definition manager_activated :: "bool \<Rightarrow> tool_group_manager \<Rightarrow> activated_tools" where
  "manager_activated feature m =
     with_policy (with_tool_group_manager m (new_policy feature))
       (new_activated feature (max_tools_per_activation (settings m)) (max_activated_tools (settings m)))"

end
