(* ===== verification/Permissions.thy ===== *)
theory Permissions
  imports Prelude Json
begin

text \<open>
  The permission policy of tool calls (\<open>src/tools/builtin/permissions.rs\<close>): modes and their order, the rules
  operators write, and the decision over rules, hooks, modes and the interactive prompt. A prompter is a
  function of the request that also updates a state of its own; the JSON reader is a parameter.
\<close>

section \<open>Modes\<close>

datatype permission_mode = ReadOnly | WorkspaceWrite | DangerFullAccess | Prompt | AllowAll

text \<open>The derived order of the enumeration.\<close>

fun mode_rank :: "permission_mode \<Rightarrow> nat" where
  "mode_rank ReadOnly = 0"
| "mode_rank WorkspaceWrite = 1"
| "mode_rank DangerFullAccess = 2"
| "mode_rank Prompt = 3"
| "mode_rank AllowAll = 4"

lemma mode_rank_inject: "mode_rank a = mode_rank b \<longleftrightarrow> a = b"
  by (cases a; cases b) simp_all

instantiation permission_mode :: linorder
begin

definition less_eq_permission_mode :: "permission_mode \<Rightarrow> permission_mode \<Rightarrow> bool" where
  "less_eq_permission_mode a b \<longleftrightarrow> mode_rank a \<le> mode_rank b"

definition less_permission_mode :: "permission_mode \<Rightarrow> permission_mode \<Rightarrow> bool" where
  "less_permission_mode a b \<longleftrightarrow> mode_rank a < mode_rank b"

instance
  by standard (auto simp: less_eq_permission_mode_def less_permission_mode_def mode_rank_inject)

end

fun mode_as_str :: "permission_mode \<Rightarrow> string" where
  "mode_as_str ReadOnly = ''read-only''"
| "mode_as_str WorkspaceWrite = ''workspace-write''"
| "mode_as_str DangerFullAccess = ''danger-full-access''"
| "mode_as_str Prompt = ''prompt''"
| "mode_as_str AllowAll = ''allow''"

datatype permission_override = OverrideAllow | OverrideDeny | OverrideAsk

record permission_context =
  override_decision :: "permission_override option"
  override_reason :: "string option"

definition default_context :: permission_context where
  "default_context = \<lparr>override_decision = None, override_reason = None\<rparr>"

record permission_request =
  pr_tool_name :: string
  pr_input :: string
  pr_current_mode :: permission_mode
  pr_required_mode :: permission_mode
  pr_reason :: "string option"

datatype permission_prompt_decision = PromptAllow | PromptDeny string

datatype permission_outcome = PermissionAllowed | PermissionDenied string

type_synonym 's prompter = "permission_request \<Rightarrow> 's \<Rightarrow> permission_prompt_decision \<times> 's"

section \<open>Rules\<close>

datatype permission_rule_matcher = MatchAny | MatchExact string | MatchPrefix string

record permission_rule =
  rule_raw :: string
  rule_tool_name :: string
  matcher :: permission_rule_matcher

abbreviation backslash :: char where
  "backslash \<equiv> CHR 0x5C"

fun find_unescaped_from :: "bool \<Rightarrow> nat \<Rightarrow> char \<Rightarrow> string \<Rightarrow> nat option" where
  "find_unescaped_from escaped i needle [] = None"
| "find_unescaped_from escaped i needle (c # cs) =
     (if c = backslash then find_unescaped_from (\<not> escaped) (Suc i) needle cs
      else if c = needle \<and> \<not> escaped then Some i
      else find_unescaped_from False (Suc i) needle cs)"

definition find_first_unescaped :: "string \<Rightarrow> char \<Rightarrow> nat option" where
  "find_first_unescaped s needle = find_unescaped_from False 0 needle s"

text \<open>From the right: the needle with an even number of backslashes directly before it.\<close>

definition backslashes_before :: "string \<Rightarrow> nat" where
  "backslashes_before s = length (takeWhile (\<lambda>c. c = backslash) (rev s))"

definition find_last_unescaped :: "string \<Rightarrow> char \<Rightarrow> nat option" where
  "find_last_unescaped s needle =
     find (\<lambda>i. s ! i = needle \<and> even (backslashes_before (take i s))) (rev [0 ..< length s])"

definition unescape_rule_content :: "string \<Rightarrow> string" where
  "unescape_rule_content content =
     replace_all [backslash, backslash] [backslash]
       (replace_all [backslash, CHR '')''] '')'' (replace_all [backslash, CHR ''(''] ''('' content))"

definition parse_rule_matcher :: "string \<Rightarrow> permission_rule_matcher" where
  "parse_rule_matcher content =
     (let unescaped = unescape_rule_content (trim content)
      in if unescaped = [] \<or> unescaped = ''*'' then MatchAny
         else case strip_suffix '':*'' unescaped of
           Some prefix \<Rightarrow> MatchPrefix prefix
         | None \<Rightarrow> MatchExact unescaped)"

definition parse_permission_rule :: "string \<Rightarrow> permission_rule" where
  "parse_permission_rule raw =
     (let trimmed = trim raw;
          any = \<lparr>rule_raw = trimmed, rule_tool_name = trimmed, matcher = MatchAny\<rparr>
      in case (find_first_unescaped trimmed (CHR ''(''), find_last_unescaped trimmed (CHR '')'')) of
           (Some start, Some stop) \<Rightarrow>
             if stop = length trimmed - 1 \<and> start < stop
             then let tool_name = trim (take start trimmed);
                      content = take (stop - (start + 1)) (drop (start + 1) trimmed)
                  in if tool_name \<noteq> []
                     then \<lparr>rule_raw = trimmed, rule_tool_name = tool_name, matcher = parse_rule_matcher content\<rparr>
                     else any
             else any
         | _ \<Rightarrow> any)"

definition permission_subject_keys :: "string list" where
  "permission_subject_keys = [''command'', ''path'', ''file_path'', ''filePath'', ''notebook_path'', ''notebookPath'',
     ''url'', ''pattern'', ''code'', ''message'']"

definition extract_permission_subject :: "(string \<Rightarrow> json option) \<Rightarrow> string \<Rightarrow> string option" where
  "extract_permission_subject parse_json input =
     (case (case parse_json input of
              Some (JObject members) \<Rightarrow>
                List.map_filter (get_str (JObject members)) permission_subject_keys
            | _ \<Rightarrow> []) of
        subject # _ \<Rightarrow> Some subject
      | [] \<Rightarrow> if is_blank input then None else Some input)"

definition rule_matches :: "(string \<Rightarrow> json option) \<Rightarrow> permission_rule \<Rightarrow> string \<Rightarrow> string \<Rightarrow> bool" where
  "rule_matches parse_json rule tool_name input \<longleftrightarrow>
     rule_tool_name rule = tool_name
     \<and> (case matcher rule of
          MatchAny \<Rightarrow> True
        | MatchExact expected \<Rightarrow> extract_permission_subject parse_json input = Some expected
        | MatchPrefix prefix \<Rightarrow>
            (case extract_permission_subject parse_json input of
               None \<Rightarrow> False
             | Some candidate \<Rightarrow> starts_with prefix candidate))"

definition find_matching_rule ::
  "(string \<Rightarrow> json option) \<Rightarrow> permission_rule list \<Rightarrow> string \<Rightarrow> string \<Rightarrow> permission_rule option" where
  "find_matching_rule parse_json rules tool_name input = find (\<lambda>r. rule_matches parse_json r tool_name input) rules"

section \<open>The policy\<close>

record rule_config =
  rc_allow :: "string list"
  rc_deny :: "string list"
  rc_ask :: "string list"

record permission_policy =
  active_mode :: permission_mode
  tool_requirements :: "string \<rightharpoonup> permission_mode"
  allow_rules :: "permission_rule list"
  deny_rules :: "permission_rule list"
  ask_rules :: "permission_rule list"

definition new_permission_policy :: "permission_mode \<Rightarrow> permission_policy" where
  "new_permission_policy m =
     \<lparr>active_mode = m, tool_requirements = Map.empty, allow_rules = [], deny_rules = [], ask_rules = []\<rparr>"

definition with_tool_requirement :: "string \<Rightarrow> permission_mode \<Rightarrow> permission_policy \<Rightarrow> permission_policy" where
  "with_tool_requirement tool_name required p = p\<lparr>tool_requirements := (tool_requirements p)(tool_name \<mapsto> required)\<rparr>"

definition with_permission_rules :: "rule_config \<Rightarrow> permission_policy \<Rightarrow> permission_policy" where
  "with_permission_rules config p =
     p\<lparr>allow_rules := map parse_permission_rule (rc_allow config),
       deny_rules := map parse_permission_rule (rc_deny config),
       ask_rules := map parse_permission_rule (rc_ask config)\<rparr>"

definition required_mode_for :: "permission_policy \<Rightarrow> string \<Rightarrow> permission_mode" where
  "required_mode_for p tool_name =
     (case tool_requirements p tool_name of Some m \<Rightarrow> m | None \<Rightarrow> DangerFullAccess)"

definition quoted_tool :: "string \<Rightarrow> string" where
  "quoted_tool tool_name = ''tool '' @ [CHR 0x27] @ tool_name @ [CHR 0x27]"

definition prompt_or_deny ::
  "string \<Rightarrow> string \<Rightarrow> permission_mode \<Rightarrow> permission_mode \<Rightarrow> string option \<Rightarrow> 's prompter option \<Rightarrow> 's
   \<Rightarrow> permission_outcome \<times> 's" where
  "prompt_or_deny tool_name input current required reason prompter s =
     (let request = \<lparr>pr_tool_name = tool_name, pr_input = input, pr_current_mode = current,
            pr_required_mode = required, pr_reason = reason\<rparr>
      in case prompter of
           Some decide \<Rightarrow>
             (case decide request s of
                (PromptAllow, s) \<Rightarrow> (PermissionAllowed, s)
              | (PromptDeny reason, s) \<Rightarrow> (PermissionDenied reason, s))
         | None \<Rightarrow>
             (PermissionDenied (case reason of
                Some r \<Rightarrow> r
              | None \<Rightarrow> quoted_tool tool_name @ '' requires approval to run while mode is '' @ mode_as_str current), s))"

definition ask_rule_reason :: "string \<Rightarrow> permission_rule \<Rightarrow> string" where
  "ask_rule_reason tool_name rule =
     quoted_tool tool_name @ '' requires approval due to ask rule '' @ [CHR 0x27] @ rule_raw rule @ [CHR 0x27]"

definition authorize_with_context ::
  "(string \<Rightarrow> json option) \<Rightarrow> permission_policy \<Rightarrow> string \<Rightarrow> string \<Rightarrow> permission_context \<Rightarrow> 's prompter option \<Rightarrow> 's
   \<Rightarrow> permission_outcome \<times> 's" where
  "authorize_with_context parse_json p tool_name input context prompter s =
     (case find_matching_rule parse_json (deny_rules p) tool_name input of
        Some rule \<Rightarrow>
          (PermissionDenied (''Permission to use '' @ tool_name @ '' has been denied by rule '' @ [CHR 0x27]
             @ rule_raw rule @ [CHR 0x27]), s)
      | None \<Rightarrow>
          let current = active_mode p;
              required = required_mode_for p tool_name;
              ask_rule = find_matching_rule parse_json (ask_rules p) tool_name input;
              allow_rule = find_matching_rule parse_json (allow_rules p) tool_name input;
              permitted = (allow_rule \<noteq> None \<or> current = AllowAll \<or> current \<ge> required);
              prompt = (\<lambda>reason. prompt_or_deny tool_name input current required reason prompter s);
              by_rules = (case ask_rule of
                  Some rule \<Rightarrow> prompt (Some (ask_rule_reason tool_name rule))
                | None \<Rightarrow>
                    if permitted then (PermissionAllowed, s)
                    else if current = Prompt \<or> current = WorkspaceWrite \<and> required = DangerFullAccess
                    then prompt (Some (quoted_tool tool_name @ '' requires approval to escalate from ''
                           @ mode_as_str current @ '' to '' @ mode_as_str required))
                    else (PermissionDenied (quoted_tool tool_name @ '' requires '' @ mode_as_str required
                           @ '' permission; current mode is '' @ mode_as_str current), s))
          in case override_decision context of
               Some OverrideDeny \<Rightarrow>
                 (PermissionDenied (case override_reason context of
                    Some r \<Rightarrow> r | None \<Rightarrow> quoted_tool tool_name @ '' denied by hook''), s)
             | Some OverrideAsk \<Rightarrow>
                 prompt (Some (case override_reason context of
                    Some r \<Rightarrow> r
                  | None \<Rightarrow> quoted_tool tool_name @ '' requires approval due to hook guidance''))
             | Some OverrideAllow \<Rightarrow>
                 (case ask_rule of
                    Some rule \<Rightarrow> prompt (Some (ask_rule_reason tool_name rule))
                  | None \<Rightarrow> if permitted then (PermissionAllowed, s) else by_rules)
             | None \<Rightarrow> by_rules)"

definition authorize ::
  "(string \<Rightarrow> json option) \<Rightarrow> permission_policy \<Rightarrow> string \<Rightarrow> string \<Rightarrow> 's prompter option \<Rightarrow> 's
   \<Rightarrow> permission_outcome \<times> 's" where
  "authorize parse_json p tool_name input prompter s =
     authorize_with_context parse_json p tool_name input default_context prompter s"

end
