(* ===== verification/Hooks.thy ===== *)
theory Hooks
  imports Permissions Rust_Text
begin

text \<open>
  Tool hooks (\<open>src/tools/builtin/hooks.rs\<close>): the operator's commands run before and after a tool, what their
  exit code and output mean, and how the outcomes of several commands are merged. Running a shell command is a
  parameter that also changes a state of the world; the reporter's events are returned as a list.
\<close>

section \<open>Events and results\<close>

datatype hook_event = PreToolUse | PostToolUse | PostToolUseFailure

fun event_as_str :: "hook_event \<Rightarrow> string" where
  "event_as_str PreToolUse = ''PreToolUse''"
| "event_as_str PostToolUse = ''PostToolUse''"
| "event_as_str PostToolUseFailure = ''PostToolUseFailure''"

datatype hook_progress_event =
    HookStarted hook_event string string
  | HookCompleted hook_event string string
  | HookCancelled hook_event string string

record hook_run_result =
  hr_denied :: bool
  hr_failed :: bool
  hr_cancelled :: bool
  hr_messages :: "string list"
  hr_permission_override :: "permission_override option"
  hr_permission_reason :: "string option"
  hr_updated_input :: "string option"

definition hook_allow :: "string list \<Rightarrow> hook_run_result" where
  "hook_allow messages = \<lparr>hr_denied = False, hr_failed = False, hr_cancelled = False, hr_messages = messages,
     hr_permission_override = None, hr_permission_reason = None, hr_updated_input = None\<rparr>"

record parsed_hook_output =
  po_messages :: "string list"
  po_deny :: bool
  po_permission_override :: "permission_override option"
  po_permission_reason :: "string option"
  po_updated_input :: "string option"

definition default_output :: parsed_hook_output where
  "default_output = \<lparr>po_messages = [], po_deny = False, po_permission_override = None, po_permission_reason = None,
     po_updated_input = None\<rparr>"

definition with_fallback_message :: "string \<Rightarrow> parsed_hook_output \<Rightarrow> parsed_hook_output" where
  "with_fallback_message fallback p = (if po_messages p = [] then p\<lparr>po_messages := [fallback]\<rparr> else p)"

definition primary_message :: "parsed_hook_output \<Rightarrow> string option" where
  "primary_message p = (case po_messages p of [] \<Rightarrow> None | m # _ \<Rightarrow> Some m)"

definition merge_parsed_hook_output :: "parsed_hook_output \<Rightarrow> hook_run_result \<Rightarrow> hook_run_result" where
  "merge_parsed_hook_output p r =
     r\<lparr>hr_messages := hr_messages r @ po_messages p,
       hr_permission_override := (if po_permission_override p \<noteq> None then po_permission_override p else hr_permission_override r),
       hr_permission_reason := (if po_permission_reason p \<noteq> None then po_permission_reason p else hr_permission_reason r),
       hr_updated_input := (if po_updated_input p \<noteq> None then po_updated_input p else hr_updated_input r)\<rparr>"

record json_lib =
  read_json :: "string \<Rightarrow> json option"
  print_json :: "json \<Rightarrow> string"

definition parse_hook_output :: "json_lib \<Rightarrow> string \<Rightarrow> parsed_hook_output" where
  "parse_hook_output lib stdout =
     (if stdout = [] then default_output
      else case read_json lib stdout of
        Some (JObject members) \<Rightarrow>
          let root = JObject members;
              messages = (case get_str root ''systemMessage'' of Some m \<Rightarrow> [m] | None \<Rightarrow> [])
                @ (case get_str root ''reason'' of Some m \<Rightarrow> [m] | None \<Rightarrow> []);
              deny = (Option.bind (json_get root ''continue'') as_bool = Some False
                \<or> get_str root ''decision'' = Some ''block'');
              specific = (case json_get root ''hookSpecificOutput'' of Some (JObject m) \<Rightarrow> Some (JObject m) | _ \<Rightarrow> None);
              messages = messages @ (case Option.bind specific (\<lambda>s. get_str s ''additionalContext'') of
                Some m \<Rightarrow> [m] | None \<Rightarrow> []);
              override = Option.bind (Option.bind specific (\<lambda>s. get_str s ''permissionDecision'')) (\<lambda>d.
                if d = ''allow'' then Some OverrideAllow else if d = ''deny'' then Some OverrideDeny
                else if d = ''ask'' then Some OverrideAsk else None)
          in \<lparr>po_messages = (if messages = [] then [stdout] else messages), po_deny = deny,
               po_permission_override = override,
               po_permission_reason = Option.bind specific (\<lambda>s. get_str s ''permissionDecisionReason''),
               po_updated_input = map_option (print_json lib) (Option.bind specific (\<lambda>s. json_get s ''updatedInput''))\<rparr>
      | _ \<Rightarrow> default_output\<lparr>po_messages := [stdout]\<rparr>)"

section \<open>Commands\<close>

definition parse_tool_input :: "json_lib \<Rightarrow> string \<Rightarrow> json" where
  "parse_tool_input lib input =
     (case read_json lib input of Some v \<Rightarrow> v | None \<Rightarrow> json_object [(''raw'', JString input)])"

definition hook_payload :: "json_lib \<Rightarrow> hook_event \<Rightarrow> string \<Rightarrow> string \<Rightarrow> string option \<Rightarrow> bool \<Rightarrow> json" where
  "hook_payload lib event tool_name input output is_error =
     json_object
       ([(''hook_event_name'', JString (event_as_str event)), (''tool_name'', JString tool_name),
         (''tool_input'', parse_tool_input lib input), (''tool_input_json'', JString input)]
        @ (if event = PostToolUseFailure
           then [(''tool_error'', opt_string output), (''tool_result_is_error'', JBool True)]
           else [(''tool_output'', opt_string output), (''tool_result_is_error'', JBool is_error)]))"

definition show_int :: "int \<Rightarrow> string" where
  "show_int i = (if i < 0 then CHR ''-'' # show_nat (nat (- i)) else show_nat (nat i))"

definition in_backticks :: "string \<Rightarrow> string" where
  "in_backticks s = CHR 0x60 # s @ [CHR 0x60]"

definition format_hook_failure :: "string \<Rightarrow> int \<Rightarrow> string option \<Rightarrow> string \<Rightarrow> string" where
  "format_hook_failure command code stdout stderr =
     ''Hook '' @ in_backticks command @ '' exited with status '' @ show_int code
       @ (case stdout of
            Some (c # out) \<Rightarrow> '': '' @ c # out
          | _ \<Rightarrow> if stderr \<noteq> [] then '': '' @ stderr else [])"

datatype command_execution =
    Finished "int option" string string
  | ExecutionCancelled
  | StartFailed string

datatype hook_command_outcome =
    HookAllow parsed_hook_output
  | HookDeny parsed_hook_output
  | HookFailed parsed_hook_output
  | HookAborted string

record hook_call =
  hc_event :: hook_event
  hc_tool_name :: string
  hc_tool_input :: string
  hc_tool_output :: "string option"
  hc_is_error :: bool

text \<open>A shell: the command, what the child gets in its environment and on its input, the world it changes.\<close>

type_synonym 'w shell = "string \<Rightarrow> hook_call \<Rightarrow> string \<Rightarrow> 'w \<Rightarrow> command_execution \<times> 'w"

definition run_command ::
  "json_lib \<Rightarrow> 'w shell \<Rightarrow> string \<Rightarrow> hook_call \<Rightarrow> string \<Rightarrow> 'w \<Rightarrow> hook_command_outcome \<times> 'w" where
  "run_command lib shell command call payload w =
     (let event = event_as_str (hc_event call)
      in case shell command call payload w of
           (Finished code out err, w) \<Rightarrow>
             let stdout = trim (from_utf8_lossy out);
                 stderr = trim (from_utf8_lossy err);
                 parsed = parse_hook_output lib stdout
             in (case code of
                   Some n \<Rightarrow>
                     if n = 0 then if po_deny parsed then HookDeny parsed else HookAllow parsed
                     else if n = 2 then HookDeny (with_fallback_message
                         (event @ '' hook denied tool '' @ in_backticks (hc_tool_name call)) parsed)
                     else HookFailed (with_fallback_message
                         (format_hook_failure command n (primary_message parsed) stderr) parsed)
                 | None \<Rightarrow> HookFailed (with_fallback_message
                     (event @ '' hook '' @ in_backticks command @ '' terminated by signal while handling ''
                        @ in_backticks (hc_tool_name call)) parsed), w)
         | (ExecutionCancelled, w) \<Rightarrow>
             (HookAborted (event @ '' hook '' @ in_backticks command @ '' cancelled while handling ''
                @ in_backticks (hc_tool_name call)), w)
         | (StartFailed e, w) \<Rightarrow>
             (HookFailed (default_output\<lparr>po_messages :=
                [event @ '' hook '' @ in_backticks command @ '' failed to start for ''
                   @ in_backticks (hc_tool_name call) @ '': '' @ e]\<rparr>), w))"

fun run_command_list ::
  "json_lib \<Rightarrow> 'w shell \<Rightarrow> string list \<Rightarrow> hook_call \<Rightarrow> string \<Rightarrow> hook_run_result \<Rightarrow> 'w
   \<Rightarrow> hook_run_result \<times> hook_progress_event list \<times> 'w" where
  "run_command_list lib shell [] call payload r w = (r, [], w)"
| "run_command_list lib shell (command # commands) call payload r w =
     (let started = HookStarted (hc_event call) (hc_tool_name call) command;
          completed = HookCompleted (hc_event call) (hc_tool_name call) command
      in case run_command lib shell command call payload w of
           (HookAllow parsed, w) \<Rightarrow>
             (case run_command_list lib shell commands call payload (merge_parsed_hook_output parsed r) w of
                (r, events, w) \<Rightarrow> (r, started # completed # events, w))
         | (HookDeny parsed, w) \<Rightarrow>
             ((merge_parsed_hook_output parsed r)\<lparr>hr_denied := True\<rparr>, [started, completed], w)
         | (HookFailed parsed, w) \<Rightarrow>
             ((merge_parsed_hook_output parsed r)\<lparr>hr_failed := True\<rparr>, [started, completed], w)
         | (HookAborted message, w) \<Rightarrow>
             (r\<lparr>hr_cancelled := True, hr_messages := hr_messages r @ [message]\<rparr>,
              [started, HookCancelled (hc_event call) (hc_tool_name call) command], w))"

definition run_commands ::
  "json_lib \<Rightarrow> 'w shell \<Rightarrow> string list \<Rightarrow> hook_call \<Rightarrow> bool \<Rightarrow> 'w
   \<Rightarrow> hook_run_result \<times> hook_progress_event list \<times> 'w" where
  "run_commands lib shell commands call aborted w =
     (if commands = [] then (hook_allow [], [], w)
      else if aborted
      then ((hook_allow [event_as_str (hc_event call) @ '' hook cancelled before execution''])\<lparr>hr_cancelled := True\<rparr>, [], w)
      else let payload = print_json lib (hook_payload lib (hc_event call) (hc_tool_name call) (hc_tool_input call)
                 (hc_tool_output call) (hc_is_error call))
           in run_command_list lib shell commands call payload (hook_allow []) w)"

record hook_config =
  pre_tool_use :: "string list"
  post_tool_use :: "string list"
  post_tool_use_failure :: "string list"

definition run_pre_tool_use ::
  "json_lib \<Rightarrow> 'w shell \<Rightarrow> hook_config \<Rightarrow> string \<Rightarrow> string \<Rightarrow> 'w \<Rightarrow> hook_run_result \<times> 'w" where
  "run_pre_tool_use lib shell config tool_name input w =
     (case run_commands lib shell (pre_tool_use config)
         \<lparr>hc_event = PreToolUse, hc_tool_name = tool_name, hc_tool_input = input, hc_tool_output = None, hc_is_error = False\<rparr>
         False w of (r, _, w) \<Rightarrow> (r, w))"

definition run_post_tool_use ::
  "json_lib \<Rightarrow> 'w shell \<Rightarrow> hook_config \<Rightarrow> string \<Rightarrow> string \<Rightarrow> string \<Rightarrow> bool \<Rightarrow> 'w \<Rightarrow> hook_run_result \<times> 'w" where
  "run_post_tool_use lib shell config tool_name input output is_error w =
     (case run_commands lib shell (post_tool_use config)
         \<lparr>hc_event = PostToolUse, hc_tool_name = tool_name, hc_tool_input = input, hc_tool_output = Some output,
          hc_is_error = is_error\<rparr>
         False w of (r, _, w) \<Rightarrow> (r, w))"

definition run_post_tool_use_failure ::
  "json_lib \<Rightarrow> 'w shell \<Rightarrow> hook_config \<Rightarrow> string \<Rightarrow> string \<Rightarrow> string \<Rightarrow> 'w \<Rightarrow> hook_run_result \<times> 'w" where
  "run_post_tool_use_failure lib shell config tool_name input err w =
     (case run_commands lib shell (post_tool_use_failure config)
         \<lparr>hc_event = PostToolUseFailure, hc_tool_name = tool_name, hc_tool_input = input, hc_tool_output = Some err,
          hc_is_error = True\<rparr>
         False w of (r, _, w) \<Rightarrow> (r, w))"

section \<open>What a run of hooks means\<close>

text \<open>The first command that does not allow decides; the commands after it are not run.\<close>

lemma run_command_list_allowed:
  assumes "run_command_list lib shell (c # cs) call payload r w = (r', events, w')"
    and "\<not> hr_denied r'" "\<not> hr_failed r'" "\<not> hr_cancelled r'"
  obtains parsed w1 events1 where "run_command lib shell c call payload w = (HookAllow parsed, w1)"
    and "run_command_list lib shell cs call payload (merge_parsed_hook_output parsed r) w1 = (r', events1, w')"
  using assms by (auto simp: Let_def split: prod.splits hook_command_outcome.splits)

end
