(* ===== verification/Security_Engine.thy ===== *)
theory Security_Engine
  imports Prelude
begin

text \<open>
  The security engine of skills (\<open>src/skill_graph/security.rs\<close>, data from \<open>src/skill_graph/types.rs\<close>): trust
  and sources of a skill, the policy check, and the engine with its policies, allowlist, approval queue and
  bounded audit log. The graph store is a partial map from names to skills, a single-precision number an
  element of a parameter type with the operations the code uses, and a signature check a parameter.
\<close>

section \<open>Skills\<close>

datatype trust_level = Untrusted | LowTrust | MediumTrust | HighTrust | SystemTrust

fun trust_rank :: "trust_level \<Rightarrow> nat" where
  "trust_rank Untrusted = 0"
| "trust_rank LowTrust = 1"
| "trust_rank MediumTrust = 2"
| "trust_rank HighTrust = 3"
| "trust_rank SystemTrust = 4"

fun trust_debug :: "trust_level \<Rightarrow> string" where
  "trust_debug Untrusted = ''Untrusted''"
| "trust_debug LowTrust = ''Low''"
| "trust_debug MediumTrust = ''Medium''"
| "trust_debug HighTrust = ''High''"
| "trust_debug SystemTrust = ''System''"

definition can_execute :: "trust_level \<Rightarrow> trust_level \<Rightarrow> bool" where
  "can_execute level required \<longleftrightarrow> trust_rank level \<ge> trust_rank required"

datatype skill_source = SystemBuiltin | UserDefined | MCPExternal | BootstrapLearn | BootstrapReduce | Imported

fun source_debug :: "skill_source \<Rightarrow> string" where
  "source_debug SystemBuiltin = ''SystemBuiltin''"
| "source_debug UserDefined = ''UserDefined''"
| "source_debug MCPExternal = ''MCPExternal''"
| "source_debug BootstrapLearn = ''BootstrapLearn''"
| "source_debug BootstrapReduce = ''BootstrapReduce''"
| "source_debug Imported = ''Imported''"

datatype permission_action = ReadAction | WriteAction | ExecuteAction | DeleteAction | AdminAction

fun action_debug :: "permission_action \<Rightarrow> string" where
  "action_debug ReadAction = ''Read''"
| "action_debug WriteAction = ''Write''"
| "action_debug ExecuteAction = ''Execute''"
| "action_debug DeleteAction = ''Delete''"
| "action_debug AdminAction = ''Admin''"

record skill_permission =
  permission_id :: string
  resource_pattern :: string
  sp_action :: permission_action
  sp_constraints :: "string list"

record 'f skill_security_info =
  trust_level :: trust_level
  si_source :: skill_source
  permissions :: "skill_permission list"
  si_signature :: "string option"
  risk_score :: 'f

definition has_permission :: "'f skill_security_info \<Rightarrow> permission_action \<Rightarrow> string \<Rightarrow> bool" where
  "has_permission info action resource =
     list_ex (\<lambda>p.
         if sp_action p \<noteq> action then False
         else if resource_pattern p = ''*'' then True
         else if ends_with ''*'' (resource_pattern p)
         then starts_with (take (length (resource_pattern p) - 1) (resource_pattern p)) resource
         else resource = resource_pattern p)
       (permissions info)"

datatype skill_node_type = Atomic | Composite | MOC | KnowledgeFragment | MCPTool | Bootstrap

text \<open>The fields of a skill that the engine reads; \<open>json_ld\<close> is its printed form.\<close>

record 'f skill_node =
  skill_iri :: string
  node_type :: skill_node_type
  security_info :: "'f skill_security_info option"
  mcp_server_id :: "string option"
  success_rate :: 'f
  failure_modes :: nat
  json_ld :: string

definition is_mcp_tool :: "'f skill_node \<Rightarrow> bool" where
  "is_mcp_tool s \<longleftrightarrow> node_type s = MCPTool \<or> mcp_server_id s \<noteq> None"

definition is_bootstrap :: "'f skill_node \<Rightarrow> bool" where
  "is_bootstrap s \<longleftrightarrow> node_type s = Bootstrap
     \<or> (case security_info s of
          None \<Rightarrow> False
        | Some i \<Rightarrow> si_source i = BootstrapLearn \<or> si_source i = BootstrapReduce)"

section \<open>Policies\<close>

record 'f f32_lib =
  f32_of :: "int \<Rightarrow> int \<Rightarrow> 'f"
  f32_gt :: "'f \<Rightarrow> 'f \<Rightarrow> bool"
  f32_add :: "'f \<Rightarrow> 'f \<Rightarrow> 'f"
  f32_min :: "'f \<Rightarrow> 'f \<Rightarrow> 'f"
  f32_show :: "'f \<Rightarrow> string"

text \<open>The literal \<open>n / 10^k\<close>.\<close>

abbreviation tenths :: "'f f32_lib \<Rightarrow> int \<Rightarrow> 'f" where
  "tenths fl n \<equiv> f32_of fl n 1"

datatype security_decision =
    ExecutionAllowed
  | ExecutionDenied "string list"
  | RequiresApproval string string

record 'f security_policy =
  policy_id :: string
  policy_name :: string
  min_trust_level :: trust_level
  allowed_sources :: "skill_source list"
  max_risk_score :: 'f
  require_signature :: bool

definition new_security_policy :: "'f f32_lib \<Rightarrow> string \<Rightarrow> string \<Rightarrow> 'f security_policy" where
  "new_security_policy fl i name = \<lparr>policy_id = i, policy_name = name, min_trust_level = LowTrust,
     allowed_sources = [SystemBuiltin, UserDefined, BootstrapLearn, BootstrapReduce],
     max_risk_score = tenths fl 5, require_signature = False\<rparr>"

definition check_skill :: "'f f32_lib \<Rightarrow> 'f security_policy \<Rightarrow> 'f skill_node \<Rightarrow> security_decision" where
  "check_skill fl p skill =
     (let violations =
        (case security_info skill of
           Some i \<Rightarrow>
             (if trust_rank (trust_level i) < trust_rank (min_trust_level p)
              then [''Insufficient trust level: '' @ trust_debug (trust_level i) @ '' < '' @ trust_debug (min_trust_level p)]
              else [])
             @ (if si_source i \<notin> set (allowed_sources p) then [''Source not allowed: '' @ source_debug (si_source i)] else [])
             @ (if f32_gt fl (risk_score i) (max_risk_score p)
                then [''Risk score too high: '' @ f32_show fl (risk_score i) @ '' > '' @ f32_show fl (max_risk_score p)]
                else [])
             @ (if require_signature p \<and> si_signature i = None then [''Required signature missing''] else [])
         | None \<Rightarrow> if min_trust_level p \<noteq> Untrusted then [''Security info missing''] else [])
      in if violations = [] then ExecutionAllowed else ExecutionDenied violations)"

section \<open>The engine\<close>

record security_context =
  sc_agent_id :: string
  sc_agent_role :: string
  task_iri :: "string option"
  requested_permissions :: "skill_permission list"

definition new_security_context :: "string \<Rightarrow> string \<Rightarrow> security_context" where
  "new_security_context agent r =
     \<lparr>sc_agent_id = agent, sc_agent_role = r, task_iri = None, requested_permissions = []\<rparr>"

datatype audit_outcome = AuditSuccess | AuditFailure | AuditDenied | AuditWarning

record security_audit_entry =
  ae_action :: string
  ae_agent_id :: string
  ae_resource :: string
  ae_outcome :: audit_outcome

record 'f security_engine =
  policies :: "string \<rightharpoonup> 'f security_policy"
  approval_queue :: "(string \<times> security_context \<times> string) list"
  audit_log :: "security_audit_entry list"
  whitelisted_skills :: "string set"

datatype core_error = SkillNotFound string | CoreInternal string | CoreValidationFailed string

definition core_error_text :: "core_error \<Rightarrow> string" where
  "core_error_text e = (case e of
     SkillNotFound iri \<Rightarrow> ''Skill not found: '' @ iri
   | CoreInternal m \<Rightarrow> ''Internal error: '' @ m
   | CoreValidationFailed m \<Rightarrow> ''Validation failed: '' @ m)"

definition init_default_policies :: "'f f32_lib \<Rightarrow> string \<rightharpoonup> 'f security_policy" where
  "init_default_policies fl =
     [''default'' \<mapsto> (new_security_policy fl ''default'' ''Default Policy'')
         \<lparr>min_trust_level := LowTrust, max_risk_score := tenths fl 5\<rparr>,
      ''strict'' \<mapsto> (new_security_policy fl ''strict'' ''Strict Policy'')
         \<lparr>min_trust_level := HighTrust, max_risk_score := tenths fl 2, require_signature := True\<rparr>,
      ''system'' \<mapsto> (new_security_policy fl ''system'' ''System Policy'')
         \<lparr>min_trust_level := SystemTrust, allowed_sources := [SystemBuiltin], max_risk_score := tenths fl 0\<rparr>]"

definition new_engine :: "'f f32_lib \<Rightarrow> 'f security_engine" where
  "new_engine fl = \<lparr>policies = init_default_policies fl, approval_queue = [], audit_log = [], whitelisted_skills = {}\<rparr>"

definition with_whitelisted_skills :: "'f f32_lib \<Rightarrow> string set \<Rightarrow> 'f security_engine" where
  "with_whitelisted_skills fl skills = (new_engine fl)\<lparr>whitelisted_skills := skills\<rparr>"

definition add_audit_entry ::
  "string \<Rightarrow> string \<Rightarrow> string \<Rightarrow> audit_outcome \<Rightarrow> 'f security_engine \<Rightarrow> 'f security_engine" where
  "add_audit_entry skill agent action outcome e =
     (let log = audit_log e @ [\<lparr>ae_action = action, ae_agent_id = agent, ae_resource = skill, ae_outcome = outcome\<rparr>]
      in e\<lparr>audit_log := (if length log > 10000 then drop 1000 log else log)\<rparr>)"

definition check_execution ::
  "'f f32_lib \<Rightarrow> (string \<rightharpoonup> 'f skill_node) \<Rightarrow> string \<Rightarrow> security_context \<Rightarrow> 'f security_engine
   \<Rightarrow> (core_error + security_decision) \<times> 'f security_engine" where
  "check_execution fl get_skill iri ctx e =
     (case get_skill iri of
        None \<Rightarrow> (Inl (SkillNotFound (''Skill not found: '' @ iri)), e)
      | Some skill \<Rightarrow>
          if iri \<in> whitelisted_skills e
          then (Inr ExecutionAllowed, add_audit_entry iri (sc_agent_id ctx) ''execute_whitelisted'' AuditSuccess e)
          else case policies e ''default'' of
            None \<Rightarrow> (Inl (CoreInternal ''Default policy not found''), e)
          | Some policy \<Rightarrow>
              let decision = check_skill fl policy skill
              in (Inr decision,
                  case decision of
                    ExecutionAllowed \<Rightarrow> add_audit_entry iri (sc_agent_id ctx) ''execute_allowed'' AuditSuccess e
                  | ExecutionDenied reasons \<Rightarrow> add_audit_entry iri (sc_agent_id ctx) ''execute_denied'' AuditDenied e
                  | RequiresApproval approver reason \<Rightarrow>
                      add_audit_entry iri (sc_agent_id ctx) ''execute_pending_approval'' AuditWarning e))"

definition check_permission ::
  "(string \<rightharpoonup> 'f skill_node) \<Rightarrow> string \<Rightarrow> security_context \<Rightarrow> permission_action \<Rightarrow> string \<Rightarrow> 'f security_engine
   \<Rightarrow> (core_error + bool) \<times> 'f security_engine" where
  "check_permission get_skill iri ctx action resource e =
     (case get_skill iri of
        None \<Rightarrow> (Inl (SkillNotFound (''Skill not found: '' @ iri)), e)
      | Some skill \<Rightarrow>
          (case security_info skill of
             Some info \<Rightarrow>
               let has = has_permission info action resource
               in (Inr has, add_audit_entry iri (sc_agent_id ctx) (''permission_check_'' @ action_debug action)
                     (if has then AuditSuccess else AuditDenied) e)
           | None \<Rightarrow> (Inr False, e)))"

definition add_policy :: "'f security_policy \<Rightarrow> 'f security_engine \<Rightarrow> 'f security_engine" where
  "add_policy p e = e\<lparr>policies := (policies e)(policy_id p \<mapsto> p)\<rparr>"

definition get_policy :: "string \<Rightarrow> 'f security_engine \<Rightarrow> 'f security_policy option" where
  "get_policy i e = policies e i"

definition remove_policy :: "string \<Rightarrow> 'f security_engine \<Rightarrow> bool \<times> 'f security_engine" where
  "remove_policy i e = (policies e i \<noteq> None, e\<lparr>policies := (policies e)(i := None)\<rparr>)"

definition whitelist_skill :: "string \<Rightarrow> 'f security_engine \<Rightarrow> 'f security_engine" where
  "whitelist_skill iri e = e\<lparr>whitelisted_skills := insert iri (whitelisted_skills e)\<rparr>"

definition remove_from_whitelist :: "string \<Rightarrow> 'f security_engine \<Rightarrow> bool \<times> 'f security_engine" where
  "remove_from_whitelist iri e =
     (iri \<in> whitelisted_skills e, e\<lparr>whitelisted_skills := whitelisted_skills e - {iri}\<rparr>)"

definition get_audit_log :: "string option \<Rightarrow> string option \<Rightarrow> nat \<Rightarrow> 'f security_engine \<Rightarrow> security_audit_entry list" where
  "get_audit_log skill agent limit e =
     take limit (filter (\<lambda>a.
         (case skill of None \<Rightarrow> True | Some iri \<Rightarrow> ae_resource a = iri)
         \<and> (case agent of None \<Rightarrow> True | Some i \<Rightarrow> ae_agent_id a = i)) (audit_log e))"

definition request_approval :: "string \<Rightarrow> security_context \<Rightarrow> string \<Rightarrow> 'f security_engine \<Rightarrow> 'f security_engine" where
  "request_approval iri ctx reason e = e\<lparr>approval_queue := approval_queue e @ [(iri, ctx, reason)]\<rparr>"

definition approve_request :: "string \<Rightarrow> 'f security_engine \<Rightarrow> bool \<times> 'f security_engine" where
  "approve_request iri e =
     (let queue = filter (\<lambda>(i, _, _). i \<noteq> iri) (approval_queue e);
          e' = e\<lparr>approval_queue := queue\<rparr>
      in if length queue < length (approval_queue e) then (True, whitelist_skill iri e') else (False, e'))"

definition reject_request :: "string \<Rightarrow> 'f security_engine \<Rightarrow> bool \<times> 'f security_engine" where
  "reject_request iri e =
     (let queue = filter (\<lambda>(i, _, _). i \<noteq> iri) (approval_queue e)
      in (length queue < length (approval_queue e), e\<lparr>approval_queue := queue\<rparr>))"

definition calculate_risk_score ::
  "'f f32_lib \<Rightarrow> (string \<rightharpoonup> 'f skill_node) \<Rightarrow> string \<Rightarrow> core_error + 'f" where
  "calculate_risk_score fl get_skill iri =
     (case get_skill iri of
        None \<Rightarrow> Inl (SkillNotFound (''Skill not found: '' @ iri))
      | Some s \<Rightarrow>
          let risk = (case security_info s of Some i \<Rightarrow> risk_score i | None \<Rightarrow> tenths fl 0);
              risk = (if is_mcp_tool s then f32_add fl risk (tenths fl 1) else risk);
              risk = (if is_bootstrap s then f32_add fl risk (f32_of fl 5 2) else risk);
              risk = (if f32_gt fl (tenths fl 7) (success_rate s) then f32_add fl risk (tenths fl 1) else risk);
              risk = (if failure_modes s > 3 then f32_add fl risk (tenths fl 1) else risk)
          in Inr (f32_min fl risk (tenths fl 10)))"

section \<open>Signatures\<close>

record signature_info =
  sig_algorithm :: string
  public_key :: string
  sig_value :: string

record signature_lib =
  key_decode :: "string \<Rightarrow> string + string"
  verify_with_key :: "string \<Rightarrow> string \<Rightarrow> string \<Rightarrow> core_error + bool"

text \<open>No character outside ASCII has a lower case among the letters of \<open>ed25519\<close>.\<close>

definition verify_signature :: "signature_lib \<Rightarrow> signature_info \<Rightarrow> string \<Rightarrow> core_error + bool" where
  "verify_signature lib sg content =
     (if to_ascii_lowercase (sig_algorithm sg) \<noteq> ''ed25519''
      then Inl (CoreValidationFailed (''Unsupported signature algorithm: '' @ sig_algorithm sg))
      else if sig_value sg = [] then Inr False
      else case key_decode lib (public_key sg) of
        Inl e \<Rightarrow> Inl (CoreValidationFailed (''Invalid public key encoding: '' @ e))
      | Inr key \<Rightarrow> verify_with_key lib key content (sig_value sg))"

definition validate_signature ::
  "signature_lib \<Rightarrow> (string \<rightharpoonup> 'f skill_node) \<Rightarrow> string \<Rightarrow> signature_info \<Rightarrow> core_error + bool" where
  "validate_signature lib get_skill iri sg =
     (case get_skill iri of
        None \<Rightarrow> Inl (SkillNotFound iri)
      | Some s \<Rightarrow> verify_signature lib sg (json_ld s))"

end
