(* ===== verification/Micro_Store.thy ===== *)
theory Micro_Store
  imports Rust_Text Json Isolation "HOL-Library.AList"
begin

text \<open>
  The store of large tool results and of the readers generated for them
  (\<open>src/tools/tool_executor/micro_store.rs\<close>), shared by all runs and tenants and keyed by their owner. A hash
  map is an association list with distinct keys; instants and durations are natural numbers of nanoseconds;
  the environment of an operation is its clock and the two configuration variables it reads.
\<close>

section \<open>Owners and keys\<close>

record micro_owner =
  mo_tenant_id :: string
  mo_project_id :: string
  mo_run_id :: string
  mo_agent_id :: string

definition new_micro_owner :: "isolation_claims option \<Rightarrow> string \<Rightarrow> string \<Rightarrow> micro_owner" where
  "new_micro_owner claims run agent =
     \<lparr>mo_tenant_id = (case claims of None \<Rightarrow> [] | Some c \<Rightarrow> tenant_id c),
      mo_project_id = (case claims of None \<Rightarrow> [] | Some c \<Rightarrow> project_id c),
      mo_run_id = run, mo_agent_id = agent\<rparr>"

definition hex_upper :: "nat \<Rightarrow> char" where
  "hex_upper n = (if n < 10 then char_of (48 + n) else char_of (55 + n))"

definition plain_byte :: "char \<Rightarrow> bool" where
  "plain_byte b \<longleftrightarrow> is_ascii_alphanumeric b \<or> b \<in> {CHR ''-'', CHR ''_'', CHR ''.''}"

definition escape_byte :: "char \<Rightarrow> string" where
  "escape_byte b = (if plain_byte b then [b] else [CHR ''%'', hex_upper (byte b div 16), hex_upper (byte b mod 16)])"

definition escape_segment :: "string \<Rightarrow> string" where
  "escape_segment value = concat (map escape_byte value)"

definition storage_key :: "micro_owner \<Rightarrow> string \<Rightarrow> string" where
  "storage_key o' call =
     ''iri://tool-result/'' @ escape_segment (mo_tenant_id o') @ ''/'' @ escape_segment (mo_project_id o') @ ''/''
       @ escape_segment (mo_run_id o') @ ''/'' @ escape_segment (mo_agent_id o') @ ''/'' @ escape_segment call"

section \<open>The store\<close>

record micro_context =
  mc_call_id :: string
  mc_storage_key :: string
  mc_tool_name :: string
  mc_entity_types :: "string list"
  mc_preview_size :: nat
  mc_owner :: micro_owner

record reader_entry =
  re_context :: micro_context
  re_seq :: nat
  re_created :: nat

record data_entry =
  de_owner :: micro_owner
  de_value :: json
  de_seq :: nat
  de_created :: nat

type_synonym reader_map = "((micro_owner \<times> string) \<times> reader_entry) list"
type_synonym data_map = "(string \<times> data_entry) list"

record micro_store =
  readers :: reader_map
  stored :: data_map
  next_seq :: nat

definition empty_micro_store :: micro_store where
  "empty_micro_store = \<lparr>readers = [], stored = [], next_seq = 0\<rparr>"

definition MAX_MICRO_TOOL_ENTRIES :: nat where "MAX_MICRO_TOOL_ENTRIES = 1024"
definition DEFAULT_MICRO_TOOL_TENANT_QUOTA :: nat where "DEFAULT_MICRO_TOOL_TENANT_QUOTA = 256"
definition MAX_MICRO_TOOL_TENANT_QUOTA :: nat where "MAX_MICRO_TOOL_TENANT_QUOTA = 1024"

record micro_env =
  clock :: nat
  ttl_var :: "string option"
  quota_var :: "string option"

definition positive_number :: "string option \<Rightarrow> u64 option" where
  "positive_number v =
     (case Option.bind v (\<lambda>s. parse_u64 (trim s)) of
        Some n \<Rightarrow> if n > 0 then Some n else None
      | None \<Rightarrow> None)"

definition DEFAULT_MICRO_TOOL_TTL :: nat where "DEFAULT_MICRO_TOOL_TTL = 60 * 60 * 1000000000"

definition micro_ttl :: "micro_env \<Rightarrow> nat" where
  "micro_ttl e =
     (case positive_number (ttl_var e) of Some secs \<Rightarrow> unat secs * 1000000000 | None \<Rightarrow> DEFAULT_MICRO_TOOL_TTL)"

definition tenant_quota :: "micro_env \<Rightarrow> nat" where
  "tenant_quota e =
     (case positive_number (quota_var e) of
        Some n \<Rightarrow> max 1 (min (unat n) MAX_MICRO_TOOL_TENANT_QUOTA)
      | None \<Rightarrow> DEFAULT_MICRO_TOOL_TENANT_QUOTA)"

text \<open>
  The eviction loops. Which tenant over its quota is taken first is the order of a hash map; the entry that
  goes is the one of the least sequence number, and those are distinct.
\<close>

definition over_quota :: "('m \<Rightarrow> string) \<Rightarrow> nat \<Rightarrow> 'm list \<Rightarrow> string option" where
  "over_quota tenant quota m =
     map_option tenant (find (\<lambda>e. length (filter (\<lambda>d. tenant d = tenant e) m) > quota) m)"

lemma over_quota_SomeD:
  "over_quota tenant quota m = Some t \<Longrightarrow> length (filter (\<lambda>d. tenant d = t) m) > quota"
  unfolding over_quota_def by (auto dest!: find_SomeD)

lemma shorter_without:
  "min_by_key seq (filter P m) = Some (k, e) \<Longrightarrow> length (AList.delete k m) < length m"
  by (drule min_by_key_Some) (auto simp: AList.delete_eq intro!: length_filter_less)

function evict_over_tenant_quota ::
  "('k \<times> 'e \<Rightarrow> string) \<Rightarrow> ('k \<times> 'e \<Rightarrow> nat) \<Rightarrow> nat \<Rightarrow> ('k \<times> 'e) list \<Rightarrow> ('k \<times> 'e) list" where
  "evict_over_tenant_quota tenant seq quota m =
     (case over_quota tenant quota m of
        None \<Rightarrow> m
      | Some t \<Rightarrow>
          (case min_by_key seq (filter (\<lambda>d. tenant d = t) m) of
             None \<Rightarrow> m
           | Some oldest \<Rightarrow> evict_over_tenant_quota tenant seq quota (AList.delete (fst oldest) m)))"
  by pat_completeness auto
termination
  by (relation "measure (\<lambda>(t, s, q, m). length m)") (auto dest: shorter_without)

function evict_over_capacity :: "('k \<times> 'e \<Rightarrow> nat) \<Rightarrow> nat \<Rightarrow> ('k \<times> 'e) list \<Rightarrow> ('k \<times> 'e) list" where
  "evict_over_capacity seq cap m =
     (if length m > cap
      then case min_by_key seq m of
        None \<Rightarrow> m
      | Some oldest \<Rightarrow> evict_over_capacity seq cap (AList.delete (fst oldest) m)
      else m)"
  by pat_completeness auto
termination
  by (relation "measure (\<lambda>(s, c, m). length m)")
    (auto dest: shorter_without [where P = "\<lambda>_. True", simplified])

declare evict_over_tenant_quota.simps [simp del] evict_over_capacity.simps [simp del]

definition reader_tenant :: "(micro_owner \<times> string) \<times> reader_entry \<Rightarrow> string" where
  "reader_tenant = (\<lambda>((owner, name), e). mo_tenant_id owner)"

definition data_tenant :: "string \<times> data_entry \<Rightarrow> string" where
  "data_tenant = (\<lambda>(key, e). mo_tenant_id (de_owner e))"

definition fresh_at :: "micro_env \<Rightarrow> nat \<Rightarrow> bool" where
  "fresh_at env created \<longleftrightarrow> clock env - created < micro_ttl env"

definition prune :: "micro_env \<Rightarrow> micro_store \<Rightarrow> micro_store" where
  "prune env s =
     (let rs = filter (\<lambda>(k, e). fresh_at env (re_created e)) (readers s);
          ds = filter (\<lambda>(k, e). fresh_at env (de_created e)) (stored s);
          quota = tenant_quota env;
          rs = evict_over_tenant_quota reader_tenant (re_seq \<circ> snd) quota rs;
          ds = evict_over_tenant_quota data_tenant (de_seq \<circ> snd) quota ds;
          rs = evict_over_capacity (re_seq \<circ> snd) MAX_MICRO_TOOL_ENTRIES rs;
          ds = evict_over_capacity (de_seq \<circ> snd) MAX_MICRO_TOOL_ENTRIES ds
      in s\<lparr>readers := rs, stored := ds\<rparr>)"

definition store_data :: "micro_env \<Rightarrow> micro_owner \<Rightarrow> string \<Rightarrow> json \<Rightarrow> micro_store \<Rightarrow> micro_store" where
  "store_data env owner key v s =
     (let seq = next_seq s + 1;
          e = \<lparr>de_owner = owner, de_value = v, de_seq = seq, de_created = clock env\<rparr>
      in prune env (s\<lparr>next_seq := seq, stored := AList.update key e (stored s)\<rparr>))"

definition register_reader :: "micro_env \<Rightarrow> string \<Rightarrow> micro_context \<Rightarrow> micro_store \<Rightarrow> micro_store" where
  "register_reader env name ctx s =
     (let seq = next_seq s + 1;
          e = \<lparr>re_context = ctx, re_seq = seq, re_created = clock env\<rparr>
      in prune env (s\<lparr>next_seq := seq, readers := AList.update (mc_owner ctx, name) e (readers s)\<rparr>))"

definition lookup_reader :: "micro_env \<Rightarrow> micro_owner \<Rightarrow> string \<Rightarrow> micro_store \<Rightarrow> (micro_context \<times> json) option" where
  "lookup_reader env owner name s =
     (case map_of (readers s) (owner, name) of
        None \<Rightarrow> None
      | Some r \<Rightarrow>
          if \<not> fresh_at env (re_created r) then None
          else case map_of (stored s) (mc_storage_key (re_context r)) of
            None \<Rightarrow> None
          | Some d \<Rightarrow>
              if de_owner d = owner \<and> fresh_at env (de_created d) then Some (re_context r, de_value d) else None)"

definition has_reader :: "micro_env \<Rightarrow> micro_owner \<Rightarrow> string \<Rightarrow> micro_store \<Rightarrow> bool" where
  "has_reader env owner name s \<longleftrightarrow> lookup_reader env owner name s \<noteq> None"

definition readers_for :: "micro_env \<Rightarrow> micro_owner \<Rightarrow> micro_store \<Rightarrow> (string \<times> micro_context) list" where
  "readers_for env owner s =
     map (\<lambda>((reader, name), e). (name, re_context e))
       (sort_key (re_seq \<circ> snd)
         (filter (\<lambda>((reader, name), e). reader = owner \<and> fresh_at env (re_created e)) (readers s)))"

definition remove_readers_named :: "string \<Rightarrow> micro_store \<Rightarrow> micro_store" where
  "remove_readers_named name s = s\<lparr>readers := filter (\<lambda>((owner, n), e). n \<noteq> name) (readers s)\<rparr>"

definition remove_run :: "string \<Rightarrow> micro_store \<Rightarrow> micro_store" where
  "remove_run run s =
     s\<lparr>readers := filter (\<lambda>((owner, n), e). mo_run_id owner \<noteq> run) (readers s),
       stored := filter (\<lambda>(k, e). mo_run_id (de_owner e) \<noteq> run) (stored s)\<rparr>"

definition entry_counts :: "micro_store \<Rightarrow> nat \<times> nat" where
  "entry_counts s = (length (readers s), length (stored s))"

section \<open>Reading a stored result\<close>

record micro_lib =
  micro_parse :: "string \<Rightarrow> json option"
  micro_show :: "json \<Rightarrow> string"
  to_lowercase :: "string \<Rightarrow> string"
  show_strings :: "string list \<Rightarrow> string"

definition reader_description :: "micro_lib \<Rightarrow> string \<Rightarrow> micro_context \<Rightarrow> string" where
  "reader_description lib name ctx =
     (if starts_with ''read_full_result_'' name then ''Read full tool result. call_id: '' @ mc_call_id ctx
      else if starts_with ''query_'' name
      then ''Query entity types: '' @ show_strings lib (mc_entity_types ctx) @ ''. call_id: '' @ mc_call_id ctx
      else if starts_with ''get_entity_details_'' name then ''Get entity details. call_id: '' @ mc_call_id ctx
      else ''Micro-tool: '' @ name)"

definition nat_json :: "nat \<Rightarrow> json" where
  "nat_json n = JNumber (PosInt (of_nat n))"

definition reader_parameters :: json where
  "reader_parameters =
     (let field = (\<lambda>d. json_object [(''type'', JString ''integer''), (''description'', JString d)])
      in json_object [(''type'', JString ''object''),
           (''properties'', json_object [(''offset'', field ''Starting offset''), (''limit'', field ''Max results to return'')])])"

definition number_or :: "nat \<Rightarrow> json \<Rightarrow> string \<Rightarrow> nat" where
  "number_or d v key = (case Option.bind (json_get v key) as_u64 of Some n \<Rightarrow> unat n | None \<Rightarrow> d)"

definition text_or_empty :: "json \<Rightarrow> string \<Rightarrow> string" where
  "text_or_empty v key = (case get_str v key of Some s \<Rightarrow> s | None \<Rightarrow> [])"

definition query_item :: "micro_lib \<Rightarrow> string \<Rightarrow> string \<Rightarrow> json \<Rightarrow> bool" where
  "query_item lib query_type keyword item \<longleftrightarrow>
     (query_type = [] \<or> (case get_str item ''type'' of Some t \<Rightarrow> contains_sub query_type t | None \<Rightarrow> False))
     \<and> (keyword = [] \<or> contains_sub (to_lowercase lib keyword) (to_lowercase lib (micro_show lib item)))"

definition read_stored_result :: "micro_lib \<Rightarrow> string \<Rightarrow> micro_context \<Rightarrow> json \<Rightarrow> json \<Rightarrow> json" where
  "read_stored_result lib name ctx v input =
     (let offset = number_or 0 input ''offset'';
          limit = number_or 100 input ''limit'';
          content = get_str v ''content'';
          call = (''call_id'', JString (mc_call_id ctx));
          items = (\<lambda>c. case Option.bind (micro_parse lib c) as_array of Some xs \<Rightarrow> xs | None \<Rightarrow> []);
          whole = json_object [(''data'', v), call]
      in if starts_with ''read_full_result_'' name then
           (case content of
              Some c \<Rightarrow>
                let ls = str_lines c;
                    selected = take limit (drop offset ls)
                in json_object [(''content'', JString (join_with [CHR 0x0A] selected)), (''total_lines'', nat_json (length ls)),
                     (''offset'', nat_json offset), (''returned'', nat_json (length selected)), call]
            | None \<Rightarrow> whole)
         else if starts_with ''query_'' name then
           (case content of
              Some c \<Rightarrow>
                let results = filter (query_item lib (text_or_empty input ''entity_type'') (text_or_empty input ''keyword''))
                      (take limit (drop offset (items c)))
                in json_object [(''results'', JArray results), (''count'', nat_json (length results)), call]
            | None \<Rightarrow> whole)
         else if starts_with ''get_entity_details_'' name then
           let entity = text_or_empty input ''entity_id''
           in (case Option.bind content (\<lambda>c. find (\<lambda>i. get_str i ''id'' = Some entity) (items c)) of
                 Some i \<Rightarrow> json_object [(''entity'', i), call]
               | None \<Rightarrow> json_object [(''error'', JString ''Entity not found''), (''entity_id'', JString entity), call])
         else whole)"

end
