(* ===== verification/Tool_Gate.thy ===== *)
theory Tool_Gate
  imports Tool_Policy Hooks Security_Engine Micro_Store
begin

text \<open>
  The gates of a tool call: the role whitelist and the syscall gate (\<open>src/core/syscall_gate.rs\<close>), and the executor
  that composes them with the permission policy, the hooks, the security engine and the role policy
  (\<open>src/tools/tool_executor/mod.rs\<close>). What the code keeps in task-local variables is an argument, a tool handler is
  a function that also changes a state of the world. JSON Schema validation, skill signatures and the registry
  that names the skill of a tool are parameters.
\<close>

section \<open>Whitelists\<close>

record whitelist_manager =
  role_whitelist :: "agent_role \<rightharpoonup> string set"
  custom_whitelist :: "string \<rightharpoonup> string set"

definition new_whitelist_manager :: "bool \<Rightarrow> whitelist_manager" where
  "new_whitelist_manager feature =
     \<lparr>role_whitelist = (\<lambda>r. Some (set (visible_tools (new_policy feature) r []))), custom_whitelist = Map.empty\<rparr>"

definition whitelist_check :: "whitelist_manager \<Rightarrow> agent_role \<Rightarrow> string \<Rightarrow> bool" where
  "whitelist_check wm r tool = (case role_whitelist wm r of Some names \<Rightarrow> tool \<in> names | None \<Rightarrow> False)"

definition check_permission_for_agent :: "whitelist_manager \<Rightarrow> string \<Rightarrow> agent_role \<Rightarrow> string \<Rightarrow> bool" where
  "check_permission_for_agent wm agent r tool = whitelist_check wm r tool"

definition add_tool :: "bool \<Rightarrow> agent_role \<Rightarrow> string \<Rightarrow> whitelist_manager \<Rightarrow> whitelist_manager" where
  "add_tool feature r tool wm =
     (if is_executable (new_policy feature) r [] tool
      then wm\<lparr>role_whitelist := (role_whitelist wm)(r \<mapsto>
             insert tool (case role_whitelist wm r of Some names \<Rightarrow> names | None \<Rightarrow> {}))\<rparr>
      else wm)"

definition remove_tool :: "agent_role \<Rightarrow> string \<Rightarrow> whitelist_manager \<Rightarrow> whitelist_manager" where
  "remove_tool r tool wm =
     (case role_whitelist wm r of
        Some names \<Rightarrow> wm\<lparr>role_whitelist := (role_whitelist wm)(r \<mapsto> names - {tool})\<rparr>
      | None \<Rightarrow> wm)"

definition add_custom_whitelist :: "string \<Rightarrow> string list \<Rightarrow> whitelist_manager \<Rightarrow> whitelist_manager" where
  "add_custom_whitelist agent tools wm = wm\<lparr>custom_whitelist := (custom_whitelist wm)(agent \<mapsto> set tools)\<rparr>"

definition list_allowed_tools :: "agent_role \<Rightarrow> whitelist_manager \<Rightarrow> string list" where
  "list_allowed_tools r wm = (case role_whitelist wm r of Some names \<Rightarrow> sorted_list_of_set names | None \<Rightarrow> [])"

section \<open>The syscall gate\<close>

datatype access_level = ReadAccess | WriteAccess | AdminAccess

record who_detail =
  who_access_level :: "access_level option"

record how_detail =
  forbidden_tools :: "string list"

record task_5w2h =
  who :: "who_detail option"
  how :: "how_detail option"

record skill_lib =
  validate_input :: "string \<Rightarrow> string \<Rightarrow> core_error + json"
  check_signature :: "string \<Rightarrow> bool"

record syscall_gate =
  agent_whitelist :: "string \<rightharpoonup> string list"
  gate_whitelists :: whitelist_manager

definition new_syscall_gate :: "bool \<Rightarrow> syscall_gate" where
  "new_syscall_gate feature = \<lparr>agent_whitelist = Map.empty, gate_whitelists = new_whitelist_manager feature\<rparr>"

definition check_5w2h_constraints :: "string \<Rightarrow> task_5w2h option \<Rightarrow> core_error + unit" where
  "check_5w2h_constraints tool snapshot =
     (case snapshot of
        None \<Rightarrow> Inr ()
      | Some s \<Rightarrow>
          if (case how s of
                Some h \<Rightarrow> list_ex (\<lambda>t. eq_ignore_ascii_case t tool) (forbidden_tools h)
              | None \<Rightarrow> False)
          then Inl (CoreInternal (''Tool '' @ tool @ '' is in 5W2H forbiddenTools list, denied''))
          else if Option.bind (who s) who_access_level = Some ReadAccess
            \<and> list_ex (\<lambda>t. eq_ignore_ascii_case t tool) [''file_write'', ''bash'', ''code_execute'', ''file_delete'']
          then Inl (CoreInternal (''5W2H accessLevel is Read, write tool '' @ tool @ '' denied''))
          else Inr ())"

definition quoted_name :: "string \<Rightarrow> string" where
  "quoted_name s = CHR 0x27 # s @ [CHR 0x27]"

definition trusted_role :: "string \<Rightarrow> string \<Rightarrow> core_error + agent_role" where
  "trusted_role tool r =
     map_err (\<lambda>_. CoreInternal (''Tool '' @ quoted_name tool @ '' denied: no trusted caller role (got '' @ quoted_name r @ '')''))
       (parse_role r)"

definition role_denied :: "string \<Rightarrow> string \<Rightarrow> core_error" where
  "role_denied r tool = CoreInternal (''Role '' @ quoted_name r @ '' is not allowed to use tool '' @ quoted_name tool)"

definition validate_tool_with_5w2h ::
  "syscall_gate \<Rightarrow> string \<Rightarrow> string \<Rightarrow> task_5w2h option \<Rightarrow> core_error + unit" where
  "validate_tool_with_5w2h g tool r snapshot =
     and_then (trusted_role tool r) (\<lambda>parsed.
       if \<not> whitelist_check (gate_whitelists g) parsed tool then Inl (role_denied r tool)
       else check_5w2h_constraints tool snapshot)"

definition validate_tool_for_run ::
  "string \<Rightarrow> string \<Rightarrow> string \<Rightarrow> tool_policy option \<Rightarrow> bool \<Rightarrow> task_5w2h option \<Rightarrow> core_error + unit" where
  "validate_tool_for_run tool r agent run_policy internal snapshot =
     and_then (trusted_role tool r) (\<lambda>parsed.
       case run_policy of
         None \<Rightarrow> Inl (CoreInternal (''Tool '' @ quoted_name tool @ '' denied: no run-local tool policy for this caller''))
       | Some p \<Rightarrow>
           if is_executable p parsed agent tool \<or> internal \<and> is_internal_micro_tool_executable p parsed agent tool
           then check_5w2h_constraints tool snapshot
           else Inl (role_denied r tool))"

definition set_agent_whitelist :: "string \<Rightarrow> string list \<Rightarrow> syscall_gate \<Rightarrow> syscall_gate" where
  "set_agent_whitelist agent iris g = g\<lparr>agent_whitelist := (agent_whitelist g)(agent \<mapsto> iris)\<rparr>"

definition add_to_whitelist :: "string \<Rightarrow> string \<Rightarrow> syscall_gate \<Rightarrow> syscall_gate" where
  "add_to_whitelist agent iri g =
     g\<lparr>agent_whitelist := (agent_whitelist g)(agent \<mapsto>
        (case agent_whitelist g agent of Some iris \<Rightarrow> iris | None \<Rightarrow> []) @ [iri])\<rparr>"

definition check_whitelist :: "syscall_gate \<Rightarrow> string \<Rightarrow> string \<Rightarrow> bool" where
  "check_whitelist g agent iri =
     (case agent_whitelist g agent of Some iris \<Rightarrow> list_ex (\<lambda>i. i = iri) iris | None \<Rightarrow> False)"

definition validate_call :: "skill_lib \<Rightarrow> syscall_gate \<Rightarrow> string \<Rightarrow> string \<Rightarrow> string \<Rightarrow> core_error + json" where
  "validate_call lib g agent iri input =
     and_then (validate_input lib iri input) (\<lambda>validated.
       if \<not> check_signature lib iri then Inl (CoreValidationFailed (''Skill '' @ iri @ '' signature invalid''))
       else if \<not> check_whitelist g agent iri
       then Inl (CoreValidationFailed (''Agent '' @ agent @ '' not authorized for skill '' @ iri))
       else Inr validated)"

definition validate_call_with_role ::
  "skill_lib \<Rightarrow> syscall_gate \<Rightarrow> string \<Rightarrow> string \<Rightarrow> string \<Rightarrow> agent_role \<Rightarrow> core_error + json" where
  "validate_call_with_role lib g agent iri input r =
     (let tool = trim_start_matches ''iri://skills/'' iri
      in if \<not> check_permission_for_agent (gate_whitelists g) agent r tool
         then Inl (CoreValidationFailed (''Agent '' @ agent @ '' (role '' @ role_name r @ '') not authorized to call tool '' @ tool))
         else validate_call lib g agent iri input)"

section \<open>Outcomes\<close>

datatype policy_gate = GatePermissionPolicy | GatePreToolHook | GateSyscall | GateAdvertised | GateSecurityEngine | GateRolePolicy

definition all_gates :: "policy_gate list" where
  "all_gates = [GatePermissionPolicy, GatePreToolHook, GateSyscall, GateAdvertised, GateSecurityEngine, GateRolePolicy]"

fun gate_as_str :: "policy_gate \<Rightarrow> string" where
  "gate_as_str GatePermissionPolicy = ''permission_policy''"
| "gate_as_str GatePreToolHook = ''pre_tool_hook''"
| "gate_as_str GateSyscall = ''syscall_gate''"
| "gate_as_str GateAdvertised = ''advertised_gate''"
| "gate_as_str GateSecurityEngine = ''security_engine''"
| "gate_as_str GateRolePolicy = ''role_policy''"

definition parse_gate :: "string \<Rightarrow> policy_gate option" where
  "parse_gate v = find (\<lambda>g. gate_as_str g = v) all_gates"

record tool_outcome =
  out_value :: json
  policy_denied_by :: "policy_gate option"

definition allowed_outcome :: "json \<Rightarrow> tool_outcome" where
  "allowed_outcome v = \<lparr>out_value = v, policy_denied_by = None\<rparr>"

definition denied_outcome :: "policy_gate \<Rightarrow> json \<Rightarrow> tool_outcome" where
  "denied_outcome g v =
     \<lparr>out_value = (case v of JObject ms \<Rightarrow> JObject (json_insert ''denied_by'' (JString (gate_as_str g)) ms) | _ \<Rightarrow> v),
      policy_denied_by = Some g\<rparr>"

definition strip_denied_by :: "json \<Rightarrow> json" where
  "strip_denied_by v = (case v of JObject ms \<Rightarrow> JObject (filter (\<lambda>m. fst m \<noteq> ''denied_by'') ms) | _ \<Rightarrow> v)"

datatype tool_error = ToolNotFound string | ExecutionFailed string string

definition tool_error_text :: "tool_error \<Rightarrow> string" where
  "tool_error_text e = (case e of
     ToolNotFound name \<Rightarrow> ''tool not found: '' @ name
   | ExecutionFailed name m \<Rightarrow> ''tool '' @ quoted_name name @ '' failed: '' @ m)"

end
