(* ===== verification/Tool_Executor.thy ===== *)
theory Tool_Executor
  imports Tool_Gate
begin

text \<open>
  The tool executor (\<open>src/tools/tool_executor/mod.rs\<close>): its table of tools and descriptions, what it advertises to a
  model in one turn, tool search and activation, and the gated execution of a call. The logging of description
  lints is left out; reading a search request from JSON and the Unicode functions of the search are parameters.
\<close>

section \<open>State\<close>

record tool_description =
  td_name :: string
  td_description :: string
  td_parameters :: json
  td_allowed_roles :: "string list"

type_synonym 'w tool_fn = "isolation_claims option \<Rightarrow> json \<Rightarrow> 'w \<Rightarrow> (string + json) \<times> 'w"

record ('w, 'f) tool_executor =
  tools :: "string \<rightharpoonup> 'w tool_fn"
  tool_descriptions :: "tool_description list"
  description_indices :: "string \<rightharpoonup> nat"
  micro_description_order :: "string list"
  builtin_tool_names :: "string set"
  registering_builtins :: bool
  micro_tools :: micro_store
  tx_gate :: "syscall_gate option"
  permission_policy :: "permission_policy option"
  hook_runner :: "hook_config option"
  tool_group_manager :: "tool_group_manager option"
  security_engine :: "'f security_engine option"
  skill_registry :: "(string \<Rightarrow> string option) option"

text \<open>The task-local variables of a call.\<close>

record call_scope =
  isolation_scope_claims :: "isolation_claims option"
  search_caller_role :: "string option"
  caller_context :: "security_context option"
  run_policy :: "tool_policy option"
  scope_owner :: "micro_owner option"

definition empty_scope :: call_scope where
  "empty_scope = \<lparr>isolation_scope_claims = None, search_caller_role = None, caller_context = None, run_policy = None,
     scope_owner = None\<rparr>"

record ('w, 'f) executor_lib =
  lib_json :: json_lib
  lib_shell :: "'w shell"
  lib_micro :: micro_lib
  lib_f32 :: "'f f32_lib"
  lib_skills :: "string \<rightharpoonup> 'f skill_node"
  ontology_feature :: bool
  alphanumeric_runs :: "string \<Rightarrow> string list"
  search_input :: "json \<Rightarrow> string + (string \<times> nat option)"

definition MAX_MICRO_TOOL_DESCRIPTIONS :: nat where "MAX_MICRO_TOOL_DESCRIPTIONS = 5"

definition is_micro_tool_name :: "string \<Rightarrow> bool" where
  "is_micro_tool_name name \<longleftrightarrow>
     list_ex (\<lambda>p. starts_with p name) [''read_full_result_'', ''query_'', ''get_entity_details'', ''expand_relation'']"

section \<open>Registration\<close>

text \<open>The indices of the descriptions from a position on, written again.\<close>

definition reindex_from :: "nat \<Rightarrow> tool_description list \<Rightarrow> (string \<rightharpoonup> nat) \<Rightarrow> string \<rightharpoonup> nat" where
  "reindex_from pos ds ix = fold (\<lambda>(i, d) ix. ix(td_name d \<mapsto> i)) (drop pos (enumerate 0 ds)) ix"

definition register_handler ::
  "string \<Rightarrow> string \<Rightarrow> json \<Rightarrow> 'w tool_fn \<Rightarrow> string list \<Rightarrow> ('w, 'f) tool_executor \<Rightarrow> ('w, 'f) tool_executor" where
  "register_handler name description parameters handler roles ex =
     (let ex = (if registering_builtins ex then ex\<lparr>builtin_tool_names := insert name (builtin_tool_names ex)\<rparr> else ex);
          ex = ex\<lparr>tools := (tools ex)(name \<mapsto> handler)\<rparr>;
          d = \<lparr>td_name = name, td_description = description, td_parameters = parameters, td_allowed_roles = roles\<rparr>
      in case description_indices ex name of
           Some i \<Rightarrow> ex\<lparr>tool_descriptions := (tool_descriptions ex)[i := d\<lparr>td_name := td_name (tool_descriptions ex ! i)\<rparr>]\<rparr>
         | None \<Rightarrow>
             let ix = (description_indices ex)(name \<mapsto> length (tool_descriptions ex));
                 ds = tool_descriptions ex @ [d]
             in if is_micro_tool_name name
                then let order = micro_description_order ex @ [name]
                     in if length order > MAX_MICRO_TOOL_DESCRIPTIONS
                        then (case ix (hd order) of
                                Some pos \<Rightarrow>
                                  let ds = take pos ds @ drop (Suc pos) ds
                                  in ex\<lparr>tool_descriptions := ds,
                                       description_indices := reindex_from pos ds (ix(hd order := None)),
                                       micro_description_order := tl order\<rparr>
                              | None \<Rightarrow> ex\<lparr>tool_descriptions := ds, description_indices := ix,
                                  micro_description_order := tl order\<rparr>)
                        else ex\<lparr>tool_descriptions := ds, description_indices := ix, micro_description_order := order\<rparr>
                else ex\<lparr>tool_descriptions := ds, description_indices := ix\<rparr>)"

definition register_tool ::
  "string \<Rightarrow> string \<Rightarrow> json \<Rightarrow> 'w tool_fn \<Rightarrow> string list \<Rightarrow> ('w, 'f) tool_executor \<Rightarrow> ('w, 'f) tool_executor" where
  "register_tool name description parameters handler roles ex =
     register_handler name description parameters handler roles
       (ex\<lparr>micro_tools := remove_readers_named name (micro_tools ex)\<rparr>)"

definition register_micro_tool ::
  "micro_env \<Rightarrow> string \<Rightarrow> micro_context \<Rightarrow> ('w, 'f) tool_executor \<Rightarrow> ('w, 'f) tool_executor" where
  "register_micro_tool env name ctx ex = ex\<lparr>micro_tools := register_reader env name ctx (micro_tools ex)\<rparr>"

definition store_micro_tool_data ::
  "micro_env \<Rightarrow> micro_owner \<Rightarrow> string \<Rightarrow> json \<Rightarrow> ('w, 'f) tool_executor \<Rightarrow> ('w, 'f) tool_executor" where
  "store_micro_tool_data env owner key v ex = ex\<lparr>micro_tools := store_data env owner key v (micro_tools ex)\<rparr>"

definition has_micro_reader :: "micro_env \<Rightarrow> micro_owner \<Rightarrow> string \<Rightarrow> ('w, 'f) tool_executor \<Rightarrow> bool" where
  "has_micro_reader env owner name ex \<longleftrightarrow> tools ex name = None \<and> has_reader env owner name (micro_tools ex)"

definition micro_tool_names_for :: "micro_env \<Rightarrow> micro_owner \<Rightarrow> ('w, 'f) tool_executor \<Rightarrow> string list" where
  "micro_tool_names_for env owner ex = map fst (readers_for env owner (micro_tools ex))"

definition registered_tool_names :: "('w, 'f) tool_executor \<Rightarrow> string list" where
  "registered_tool_names ex = map td_name (tool_descriptions ex)"

definition enabled_manager :: "('w, 'f) tool_executor \<Rightarrow> tool_group_manager option" where
  "enabled_manager ex =
     (case tool_group_manager ex of
        Some m \<Rightarrow> if tg_enabled (settings m) then Some m else None
      | None \<Rightarrow> None)"

definition executor_activated :: "bool \<Rightarrow> ('w, 'f) tool_executor \<Rightarrow> activated_tools" where
  "executor_activated feature ex =
     (case enabled_manager ex of Some m \<Rightarrow> manager_activated feature m | None \<Rightarrow> default_activated feature)"

definition build_tool_group_summary :: "string \<Rightarrow> ('w, 'f) tool_executor \<Rightarrow> string" where
  "build_tool_group_summary r ex =
     (case tool_group_manager ex of
        Some m \<Rightarrow> build_tool_summary m r (registered_tool_names ex)
      | None \<Rightarrow> [])"

definition default_permission_policy :: permission_policy where
  "default_permission_policy =
     foldl (\<lambda>p (name, m). with_tool_requirement name m p) (new_permission_policy AllowAll)
       [(''bash'', DangerFullAccess), (''powershell'', DangerFullAccess), (''code_execute'', DangerFullAccess),
        (''file_write'', WorkspaceWrite), (''file_edit'', WorkspaceWrite), (''file_read'', ReadOnly),
        (''grep_search'', ReadOnly), (''glob_search'', ReadOnly), (''web_search'', ReadOnly), (''web_fetch'', ReadOnly)]"

section \<open>What a turn advertises\<close>

text \<open>Internal readers exist only for the owner of the current call.\<close>

definition is_internal_micro_tool :: "micro_env \<Rightarrow> micro_owner option \<Rightarrow> string \<Rightarrow> ('w, 'f) tool_executor \<Rightarrow> bool" where
  "is_internal_micro_tool env owner name ex \<longleftrightarrow>
     has_internal_micro_tool_prefix name \<and> tools ex name = None
     \<and> (case owner of Some o' \<Rightarrow> has_reader env o' name (micro_tools ex) | None \<Rightarrow> False)"

definition policy_allows ::
  "micro_env \<Rightarrow> micro_owner option \<Rightarrow> tool_policy \<Rightarrow> agent_role \<Rightarrow> string \<Rightarrow> string \<Rightarrow> ('w, 'f) tool_executor \<Rightarrow> bool" where
  "policy_allows env owner p r agent name ex \<longleftrightarrow>
     is_executable p r agent name
     \<or> is_internal_micro_tool env owner name ex \<and> is_internal_micro_tool_executable p r agent name"

definition role_alias :: "string \<Rightarrow> string" where
  "role_alias r = (if r \<in> {''PA'', ''Plan''} then ''Plan'' else if r \<in> {''DA'', ''Do''} then ''Do''
     else if r \<in> {''CA'', ''Check''} then ''Check'' else if r \<in> {''AA'', ''Act''} then ''Act'' else r)"

definition act_tools :: "string list" where
  "act_tools = [''file_read'', ''file_list'', ''tool_search'', ''grep_search'', ''glob_search'', ''rag_search'', ''kg_search'',
     ''codebase_search'', ''knowledge_list'', ''knowledge_search'', ''knowledge_extract_code'']"

definition turn_tools :: "string \<Rightarrow> ('w, 'f) tool_executor \<Rightarrow> string set \<times> string set" where
  "turn_tools r ex =
     (case enabled_manager ex of
        Some m \<Rightarrow> get_tool_names_for_role m (role_alias r)
      | None \<Rightarrow>
          (if r \<in> {''Plan'', ''PA''} then set readonly_tools
           else if r \<in> {''Act'', ''AA''} then set act_tools
           else set (registered_tool_names ex), {}))"

definition role_or_act :: "string \<Rightarrow> agent_role" where
  "role_or_act r = (case parse_role r of Inr a \<Rightarrow> a | Inl e \<Rightarrow> Act)"

definition description_allows :: "string \<Rightarrow> tool_description \<Rightarrow> bool" where
  "description_allows r d \<longleftrightarrow>
     td_allowed_roles d = []
     \<or> list_ex (\<lambda>a. a = r \<or> (a, role_alias r) \<in> {(''PA'', ''Plan''), (''DA'', ''Do''), (''CA'', ''Check''), (''AA'', ''Act'')})
         (td_allowed_roles d)"

text \<open>A schema without a type gets one; schemas are objects.\<close>

definition typed_schema :: "json \<Rightarrow> json" where
  "typed_schema v =
     (if json_get v ''type'' \<noteq> None then v
      else case v of
        JObject ms \<Rightarrow> JObject (json_insert ''type'' (JString ''object'') ms)
      | JNull \<Rightarrow> JObject [(''type'', JString ''object'')]
      | _ \<Rightarrow> v)"

definition function_definition :: "string \<Rightarrow> string \<Rightarrow> json \<Rightarrow> json" where
  "function_definition name description parameters =
     json_object [(''type'', JString ''function''),
       (''function'', json_object [(''name'', JString name), (''description'', JString description), (''parameters'', parameters)])]"

definition tool_definition :: "tool_description \<Rightarrow> json" where
  "tool_definition d = function_definition (td_name d) (td_description d) (typed_schema (td_parameters d))"

definition turn_descriptions ::
  "micro_env \<Rightarrow> micro_owner option \<Rightarrow> string \<Rightarrow> string \<Rightarrow> activated_tools \<Rightarrow> ('w, 'f) tool_executor
   \<Rightarrow> tool_description list" where
  "turn_descriptions env scope r agent a ex =
     (let (resident, on_demand) = turn_tools r ex;
          agent_role = role_or_act r;
          allowed = (\<lambda>d. description_allows r d \<and> policy_allows env scope (at_policy a) agent_role agent (td_name d) ex);
          resident = (if agent_role = Check \<and> tp_check_bash (at_policy a) then insert ''bash'' resident else resident)
      in filter (\<lambda>d. \<not> is_micro_tool_name (td_name d) \<and> td_name d \<in> resident \<and> allowed d) (tool_descriptions ex)
         @ List.map_filter (\<lambda>name.
             if name \<notin> on_demand then None
             else find (\<lambda>d. td_name d = name \<and> \<not> is_micro_tool_name (td_name d) \<and> allowed d) (tool_descriptions ex))
           (at_tools a)
         @ filter (\<lambda>d. is_micro_tool_name (td_name d) \<and> allowed d) (tool_descriptions ex))"

definition tool_definitions_for_turn_with_policy ::
  "micro_env \<Rightarrow> micro_owner option \<Rightarrow> string \<Rightarrow> string \<Rightarrow> activated_tools \<Rightarrow> ('w, 'f) tool_executor \<Rightarrow> json list" where
  "tool_definitions_for_turn_with_policy env scope r agent a ex = map tool_definition (turn_descriptions env scope r agent a ex)"

definition run_readers ::
  "micro_env \<Rightarrow> string \<Rightarrow> string \<Rightarrow> activated_tools \<Rightarrow> micro_owner option \<Rightarrow> ('w, 'f) tool_executor
   \<Rightarrow> (string \<times> micro_context) list" where
  "run_readers env r agent a owner ex =
     (case owner of
        None \<Rightarrow> []
      | Some o' \<Rightarrow>
          let readers = readers_for env o' (micro_tools ex);
              agent_role = role_or_act r
          in filter (\<lambda>(name, ctx). \<not> (tools ex name \<noteq> None
                 \<or> \<not> has_internal_micro_tool_prefix name
                 \<or> \<not> (is_executable (at_policy a) agent_role agent name
                      \<or> is_internal_micro_tool_executable (at_policy a) agent_role agent name)))
               (drop (length readers - MAX_MICRO_TOOL_DESCRIPTIONS) readers))"

definition tool_definitions_for_run ::
  "micro_lib \<Rightarrow> micro_env \<Rightarrow> micro_owner option \<Rightarrow> string \<Rightarrow> string \<Rightarrow> activated_tools \<Rightarrow> micro_owner option
   \<Rightarrow> ('w, 'f) tool_executor \<Rightarrow> json list" where
  "tool_definitions_for_run lib env scope r agent a owner ex =
     tool_definitions_for_turn_with_policy env scope r agent a ex
     @ map (\<lambda>(name, ctx). function_definition name (reader_description lib name ctx) reader_parameters)
         (run_readers env r agent a owner ex)"

text \<open>The name a definition carries, as the runner reads it back.\<close>

definition definition_name :: "json \<Rightarrow> string option" where
  "definition_name d = Option.bind (json_get d ''function'') (\<lambda>f. get_str f ''name'')"

definition visible_tool_names_for_role ::
  "micro_env \<Rightarrow> micro_owner option \<Rightarrow> string \<Rightarrow> string \<Rightarrow> activated_tools \<Rightarrow> ('w, 'f) tool_executor \<Rightarrow> string list" where
  "visible_tool_names_for_role env scope r agent a ex =
     sort (List.map_filter definition_name (tool_definitions_for_turn_with_policy env scope r agent a ex))"

end
