(* ===== verification/Tool_Execution.thy ===== *)
theory Tool_Execution
  imports Tool_Executor
begin

text \<open>
  Tool search, activation and the gated execution of a call (\<open>src/tools/tool_executor/mod.rs\<close>). A call returns its
  result together with the executor (whose security engine writes an audit log) and the world that hooks and
  handlers change.
\<close>

section \<open>Search\<close>

definition search_terms :: "('w, 'f) executor_lib \<Rightarrow> string \<Rightarrow> string list" where
  "search_terms lib query = map (to_lowercase (lib_micro lib)) (filter (\<lambda>t. t \<noteq> []) (alphanumeric_runs lib query))"

definition field_score :: "('w, 'f) executor_lib \<Rightarrow> string \<Rightarrow> string list \<Rightarrow> int \<Rightarrow> int" where
  "field_score lib field query_terms weight =
     (let lower = to_lowercase (lib_micro lib) field;
          terms = search_terms lib field
      in sum_list (map (\<lambda>q. if list_ex (\<lambda>t. t = q) terms then weight
                             else if contains_sub q lower then weight div 2 else 0) query_terms))"

definition lexical_score :: "('w, 'f) executor_lib \<Rightarrow> tool_description \<Rightarrow> string \<Rightarrow> string list \<Rightarrow> int" where
  "lexical_score lib tool grp query_terms =
     (if query_terms = [] then 0
      else let lower = to_lowercase (lib_micro lib) (td_name tool);
               query = join_with ''_'' query_terms;
               score = field_score lib (td_name tool) query_terms 20 + field_score lib (td_description tool) query_terms 6
                 + field_score lib grp query_terms 3;
               score = (if lower = query then score + 100 else if starts_with query lower then score + 50 else score)
           in case Option.bind (json_get (td_parameters tool) ''properties'') as_object of
                None \<Rightarrow> score
              | Some ps \<Rightarrow>
                  fold (\<lambda>(name, schema) s.
                      let s = s + field_score lib name query_terms 12
                      in case get_str schema ''description'' of
                           Some d \<Rightarrow> s + field_score lib d query_terms 5
                         | None \<Rightarrow> s) ps score)"

definition ellipsis :: string where
  "ellipsis = bytes_of [0xE2, 0x80, 0xA6]"

definition one_line_description :: "string \<Rightarrow> string" where
  "one_line_description d =
     (let line = join_with '' '' (split_whitespace d)
      in if count_chars line \<le> 160 then line else take_chars 159 line @ ellipsis)"

definition empty_matches :: "string \<Rightarrow> json" where
  "empty_matches query = json_object [(''matches'', JArray []), (''count'', nat_json 0), (''query'', JString query)]"

text \<open>The scored matches of a search, best first and by name among equals.\<close>

definition search_matches ::
  "('w, 'f) executor_lib \<Rightarrow> tool_group_manager \<Rightarrow> agent_role \<Rightarrow> string \<Rightarrow> tool_policy \<Rightarrow> string
   \<Rightarrow> ('w, 'f) tool_executor \<Rightarrow> (int \<times> string \<times> json) list" where
  "search_matches lib m r agent p query ex =
     (let (resident, on_demand) = get_tool_names_for_role m (role_name r);
          terms = search_terms lib query
      in sort_key (\<lambda>(score, name, v). (- score, name))
           (List.map_filter (\<lambda>tool.
               case group_for_tool m (td_name tool) of
                 None \<Rightarrow> None
               | Some g \<Rightarrow>
                   let score = lexical_score lib tool (group_name g) terms
                   in if score > 0
                      then Some (score, td_name tool,
                        json_object [(''name'', JString (td_name tool)), (''group'', JString (group_name g)),
                          (''description'', JString (one_line_description (td_description tool))),
                          (''status'', JString (if td_name tool \<in> resident then ''resident'' else ''on_demand'')),
                          (''retrieval'', JString ''lexical'')])
                      else None)
             (filter (\<lambda>tool. \<not> is_micro_tool_name (td_name tool)
                \<and> (td_name tool \<in> resident \<or> td_name tool \<in> on_demand)
                \<and> is_executable p r agent (td_name tool)) (tool_descriptions ex))))"

definition search_manager :: "('w, 'f) executor_lib \<Rightarrow> ('w, 'f) tool_executor \<Rightarrow> tool_group_manager" where
  "search_manager lib ex =
     (case enabled_manager ex of Some m \<Rightarrow> m | None \<Rightarrow> new_manager (ontology_feature lib) None)"

definition search_tools_for_role_with_policy ::
  "('w, 'f) executor_lib \<Rightarrow> micro_env \<Rightarrow> micro_owner option \<Rightarrow> string \<Rightarrow> string \<Rightarrow> tool_policy \<Rightarrow> json
   \<Rightarrow> ('w, 'f) tool_executor \<Rightarrow> string + json" where
  "search_tools_for_role_with_policy lib env owner r agent p input ex =
     (case search_input lib input of
        Inl e \<Rightarrow> Inl (''Invalid input: '' @ e)
      | Inr (query, max_results) \<Rightarrow>
          and_then (map_err (\<lambda>_. ''tool_search requires a recognized runtime role'') (parse_role r)) (\<lambda>parsed.
            let exact = trim query
            in if list_ex (\<lambda>d. td_name d = exact) (tool_descriptions ex)
                  \<and> \<not> policy_allows env owner p parsed agent exact ex
               then Inr (empty_matches query)
               else let found = map (\<lambda>(score, name, v). v)
                          (take (min (case max_results of Some n \<Rightarrow> n | None \<Rightarrow> 5) 10)
                            (search_matches lib (search_manager lib ex) parsed agent p query ex))
                    in Inr (json_object [(''matches'', JArray found), (''count'', nat_json (length found)),
                         (''query'', JString query)])))"

definition search_tools_for_role ::
  "('w, 'f) executor_lib \<Rightarrow> micro_env \<Rightarrow> micro_owner option \<Rightarrow> string \<Rightarrow> json \<Rightarrow> ('w, 'f) tool_executor
   \<Rightarrow> string + json" where
  "search_tools_for_role lib env owner r input ex =
     search_tools_for_role_with_policy lib env owner r []
       (with_tool_group_manager (search_manager lib ex) (new_policy (ontology_feature lib))) input ex"

definition activate_on_demand_from_search ::
  "string \<Rightarrow> json \<Rightarrow> ('w, 'f) tool_executor \<Rightarrow> activated_tools \<Rightarrow> (string list \<times> string list) \<times> activated_tools" where
  "activate_on_demand_from_search r result ex a =
     (let candidates = List.map_filter (\<lambda>item. get_str item ''name'')
            (case Option.bind (json_get result ''matches'') as_array of Some xs \<Rightarrow> xs | None \<Rightarrow> []);
          on_demand = (case enabled_manager ex of
            Some m \<Rightarrow> snd (get_tool_names_for_role m (role_alias r)) | None \<Rightarrow> {})
      in activate candidates on_demand a)"

definition mark_search_results_activation :: "json \<Rightarrow> activated_tools \<Rightarrow> json" where
  "mark_search_results_activation result a =
     (case (result, Option.bind (json_get result ''matches'') as_array) of
        (JObject ms, Some items) \<Rightarrow>
          JObject (json_insert ''matches'' (JArray (map (\<lambda>tool.
              case (tool, get_str tool ''name'') of
                (JObject fs, Some name) \<Rightarrow>
                  if name \<in> set (at_tools a) then JObject (json_insert ''status'' (JString ''activated'') fs) else tool
              | _ \<Rightarrow> tool) items)) ms)
      | _ \<Rightarrow> result)"

section \<open>Handlers\<close>

text \<open>A reader answers from the store and changes nothing.\<close>

definition try_get_handler ::
  "micro_lib \<Rightarrow> micro_env \<Rightarrow> micro_owner option \<Rightarrow> string \<Rightarrow> ('w, 'f) tool_executor \<Rightarrow> 'w tool_fn option" where
  "try_get_handler lib env owner name ex =
     (case tools ex name of
        Some h \<Rightarrow> Some h
      | None \<Rightarrow>
          if \<not> is_micro_tool_name name then None
          else Option.bind owner (\<lambda>o'.
            map_option (\<lambda>(ctx, v) claims input w. (Inr (read_stored_result lib name ctx v input), w))
              (lookup_reader env o' name (micro_tools ex))))"

definition builtin_security_skill_iri :: "string \<Rightarrow> string option" where
  "builtin_security_skill_iri name =
     (if name \<in> {''tool_search'', ''glob_search'', ''grep_search'', ''file_read'', ''file_list'', ''workspace_status'',
        ''rag_search'', ''kg_search'', ''kb_vector_search'', ''knowledge_list'', ''knowledge_search'',
        ''knowledge_extract_code'', ''knowledge_query'', ''knowledge_neighbors'', ''read_agent_output'',
        ''read_full_result'', ''get_entity_details'', ''expand_relation'', ''ontology_lint_turtle'',
        ''ontology_diff_turtle'', ''ontology_validate_turtle'', ''ontology_validate_shacl'', ''ontology_reason''}
      then Some ''iri://skills/file_read''
      else if name \<in> {''bash'', ''powershell'', ''file_write'', ''file_edit'', ''rag_index'', ''rag_chunk'',
        ''knowledge_extract'', ''knowledge_update'', ''knowledge_delete'', ''knowledge_bridge'', ''knowledge_import_file'',
        ''knowledge_import_directory'', ''knowledge_import_json'', ''ontology_register''}
      then Some ''iri://skills/file_write''
      else if name \<in> {''web_search'', ''web_fetch'', ''http_request'', ''knowledge_import_url''}
      then Some ''iri://skills/http_request''
      else if name = ''llm_chat'' then Some ''iri://skills/llm_chat'' else None)"

section \<open>Execution\<close>

definition error_object :: "string \<Rightarrow> json" where
  "error_object m = json_object [(''error'', JString m)]"

text \<open>The permission policy, the hooks before the tool, and the syscall gate: an early result or none.\<close>

definition inner_gates ::
  "('w, 'f) executor_lib \<Rightarrow> micro_env \<Rightarrow> call_scope \<Rightarrow> string \<Rightarrow> string \<Rightarrow> ('w, 'f) tool_executor \<Rightarrow> 'w
   \<Rightarrow> tool_outcome option \<times> 'w" where
  "inner_gates lib env scope name input ex w =
     (case (case permission_policy ex of
              None \<Rightarrow> PermissionAllowed
            | Some p \<Rightarrow> fst (authorize (read_json (lib_json lib)) p name input None ())) of
        PermissionDenied reason \<Rightarrow>
          (Some (denied_outcome GatePermissionPolicy (error_object (''Permission denied: '' @ reason))), w)
      | PermissionAllowed \<Rightarrow>
          (case (case hook_runner ex of
                   None \<Rightarrow> (hook_allow [], w)
                 | Some config \<Rightarrow> run_pre_tool_use (lib_json lib) (lib_shell lib) config name input w) of
             (hook, w) \<Rightarrow>
               if hr_denied hook
               then (Some (denied_outcome GatePreToolHook
                 (error_object (''Pre-tool hook denied: '' @ join_with ''; '' (hr_messages hook)))), w)
               else if hr_failed hook
               then (Some (allowed_outcome
                 (error_object (''Pre-tool hook failed: '' @ join_with ''; '' (hr_messages hook)))), w)
               else if hr_cancelled hook
               then (Some (allowed_outcome (error_object ''Pre-tool hook was cancelled'')), w)
               else case tx_gate ex of
                 None \<Rightarrow> (None, w)
               | Some g \<Rightarrow>
                   let (r, agent) = (case caller_context scope of
                         Some c \<Rightarrow> (sc_agent_role c, sc_agent_id c) | None \<Rightarrow> ([], []))
                   in case validate_tool_for_run name r agent (run_policy scope)
                        (is_internal_micro_tool env (scope_owner scope) name ex) None of
                        Inl e \<Rightarrow>
                          (Some (denied_outcome GateSyscall (error_object (''SyscallGate rejected: '' @ core_error_text e))), w)
                      | Inr _ \<Rightarrow> (None, w)))"

definition invoke_tool ::
  "('w, 'f) executor_lib \<Rightarrow> micro_env \<Rightarrow> call_scope \<Rightarrow> string \<Rightarrow> json \<Rightarrow> ('w, 'f) tool_executor \<Rightarrow> 'w
   \<Rightarrow> (tool_error + json) \<times> 'w" where
  "invoke_tool lib env scope name input ex w =
     (let (result, w) =
        (if name = ''tool_search'' then
           (case search_caller_role scope of
              None \<Rightarrow> (Inl (ExecutionFailed name ''tool_search requires a verified runtime role''), w)
            | Some r \<Rightarrow>
                (map_err (ExecutionFailed name)
                   (search_tools_for_role_with_policy lib env (scope_owner scope) r
                      (case caller_context scope of Some c \<Rightarrow> sc_agent_id c | None \<Rightarrow> [])
                      (case run_policy scope of Some p \<Rightarrow> p | None \<Rightarrow> new_policy (ontology_feature lib)) input ex), w))
         else case try_get_handler (lib_micro lib) env (scope_owner scope) name ex of
           None \<Rightarrow> (Inl (ToolNotFound name), w)
         | Some h \<Rightarrow>
             (case h (isolation_scope_claims scope) input w of
                (r, w) \<Rightarrow> (map_err (ExecutionFailed name) r, w)))
      in (case result of Inl e \<Rightarrow> Inl e | Inr v \<Rightarrow> Inr (strip_denied_by v), w))"

text \<open>A missing handler returns before the hooks after the tool are run.\<close>

definition post_hooks ::
  "('w, 'f) executor_lib \<Rightarrow> string \<Rightarrow> string \<Rightarrow> ('w, 'f) tool_executor \<Rightarrow> tool_error + json \<Rightarrow> 'w
   \<Rightarrow> (tool_error + tool_outcome) \<times> 'w" where
  "post_hooks lib name input ex result w =
     (case (result, hook_runner ex) of
        (Inl (ToolNotFound n), _) \<Rightarrow> (Inl (ToolNotFound n), w)
      | (Inl e, Some config) \<Rightarrow>
          (Inl e, snd (run_post_tool_use_failure (lib_json lib) (lib_shell lib) config name input (tool_error_text e) w))
      | (Inl e, None) \<Rightarrow> (Inl e, w)
      | (Inr v, Some config) \<Rightarrow>
          (case run_post_tool_use (lib_json lib) (lib_shell lib) config name input (print_json (lib_json lib) v) False w of
             (hook, w) \<Rightarrow>
               if hr_denied hook
               then (Inr (allowed_outcome (json_object
                 [(''error'', JString (''Post-tool hook denied: '' @ join_with ''; '' (hr_messages hook))),
                  (''original_output'', v)])), w)
               else (Inr (allowed_outcome v), w))
      | (Inr v, None) \<Rightarrow> (Inr (allowed_outcome v), w))"

text \<open>So does a search without a role.\<close>

definition execute_inner ::
  "('w, 'f) executor_lib \<Rightarrow> micro_env \<Rightarrow> call_scope \<Rightarrow> string \<Rightarrow> json \<Rightarrow> ('w, 'f) tool_executor \<Rightarrow> 'w
   \<Rightarrow> (tool_error + tool_outcome) \<times> 'w" where
  "execute_inner lib env scope name input ex w =
     (let text = print_json (lib_json lib) input
      in case inner_gates lib env scope name text ex w of
           (Some outcome, w) \<Rightarrow> (Inr outcome, w)
         | (None, w) \<Rightarrow>
             if name = ''tool_search'' \<and> search_caller_role scope = None
             then (Inl (ExecutionFailed name ''tool_search requires a verified runtime role''), w)
             else case invoke_tool lib env scope name input ex w of
               (result, w) \<Rightarrow> post_hooks lib name text ex result w)"

text \<open>\<open>execute\<close>: without claims, role, policy or owner.\<close>

definition execute ::
  "('w, 'f) executor_lib \<Rightarrow> micro_env \<Rightarrow> string \<Rightarrow> json \<Rightarrow> ('w, 'f) tool_executor \<Rightarrow> 'w \<Rightarrow> (tool_error + json) \<times> 'w" where
  "execute lib env name input ex w =
     (case execute_inner lib env empty_scope name input ex w of
        (r, w) \<Rightarrow> (case r of Inl e \<Rightarrow> Inl e | Inr o' \<Rightarrow> Inr (out_value o'), w))"

definition security_skill_iri :: "micro_env \<Rightarrow> micro_owner option \<Rightarrow> string \<Rightarrow> ('w, 'f) tool_executor \<Rightarrow> string option" where
  "security_skill_iri env owner name ex =
     (case Option.bind (skill_registry ex) (\<lambda>find_iri. find_iri name) of
        Some iri \<Rightarrow> Some iri
      | None \<Rightarrow>
          (case builtin_security_skill_iri name of
             Some iri \<Rightarrow> Some iri
           | None \<Rightarrow> if is_internal_micro_tool env owner name ex then Some ''iri://skills/file_read'' else None))"

definition security_refusal :: "string \<Rightarrow> (string \<times> json) list \<Rightarrow> tool_outcome" where
  "security_refusal message about = denied_outcome GateSecurityEngine (json_object ((''error'', JString message) # about))"

text \<open>The engine's part of a call: an early result or none, and the engine after it.\<close>

definition security_gate ::
  "('w, 'f) executor_lib \<Rightarrow> micro_env \<Rightarrow> micro_owner option \<Rightarrow> security_context \<Rightarrow> string \<Rightarrow> ('w, 'f) tool_executor
   \<Rightarrow> tool_outcome option \<times> ('w, 'f) tool_executor" where
  "security_gate lib env owner ctx name ex =
     (case security_engine ex of
        None \<Rightarrow> (None, ex)
      | Some engine \<Rightarrow>
          (case security_skill_iri env owner name ex of
             None \<Rightarrow>
               (Some (security_refusal ''Security denied: tool has no registered executable skill'' [(''tool'', JString name)]), ex)
           | Some iri \<Rightarrow>
               (case check_execution (lib_f32 lib) (lib_skills lib) iri ctx engine of
                  (decision, engine) \<Rightarrow>
                    let ex = ex\<lparr>security_engine := Some engine\<rparr>;
                        about = [(''tool'', JString name), (''skill_iri'', JString iri)]
                    in case decision of
                         Inr ExecutionAllowed \<Rightarrow> (None, ex)
                       | Inr (ExecutionDenied reasons) \<Rightarrow>
                           (Some (security_refusal ''Security denied'' (about @ [(''reasons'', JArray (map JString reasons))])), ex)
                       | Inr (RequiresApproval approver reason) \<Rightarrow>
                           (Some (security_refusal ''Security approval required''
                              (about @ [(''approver'', JString approver), (''reason'', JString reason)])), ex)
                       | Inl e \<Rightarrow> (Some (security_refusal (''Security denied: '' @ core_error_text e) about), ex))))"

record tool_call_request =
  tc_tool :: string
  tc_input :: json
  tc_context :: security_context
  tc_advertised :: "string list"
  tc_claims :: "isolation_claims option"
  tc_policy :: tool_policy
  tc_owner :: "micro_owner option"

definition execute_guarded ::
  "('w, 'f) executor_lib \<Rightarrow> micro_env \<Rightarrow> tool_call_request \<Rightarrow> ('w, 'f) tool_executor \<Rightarrow> 'w
   \<Rightarrow> (tool_error + tool_outcome) \<times> ('w, 'f) tool_executor \<times> 'w" where
  "execute_guarded lib env c ex w =
     (let name = tc_tool c; ctx = tc_context c
      in if \<not> list_ex (\<lambda>t. t = name) (tc_advertised c)
         then (Inr (denied_outcome GateAdvertised (json_object
                [(''error'', JString (''Tool not advertised for this turn: '' @ name)), (''tool'', JString name)])), ex, w)
         else case parse_role (sc_agent_role ctx) of
           Inl e \<Rightarrow> (Inl (ExecutionFailed name ''runtime security context has an unknown role''), ex, w)
         | Inr r \<Rightarrow>
             (case security_gate lib env (tc_owner c) ctx name ex of
                (Some outcome, ex) \<Rightarrow> (Inr outcome, ex, w)
              | (None, ex) \<Rightarrow>
                  if \<not> policy_allows env (tc_owner c) (tc_policy c) r (sc_agent_id ctx) name ex
                  then (Inr (denied_outcome GateRolePolicy (json_object
                         [(''error'', JString ''Tool not allowed for role''), (''tool'', JString name),
                          (''role'', JString (sc_agent_role ctx))])), ex, w)
                  else case execute_inner lib env
                      \<lparr>isolation_scope_claims = tc_claims c, search_caller_role = Some (sc_agent_role ctx),
                       caller_context = Some ctx, run_policy = Some (tc_policy c), scope_owner = tc_owner c\<rparr>
                      name (tc_input c) ex w of
                    (r, w) \<Rightarrow> (r, ex, w)))"

end
