(* ===== verification/Policy_Properties.thy ===== *)
theory Policy_Properties
  imports Tool_Policy Permissions
begin

text \<open>
  What the role policy, the activation of tools and the permission policy guarantee.
\<close>

section \<open>Role capabilities\<close>

lemma cap_finite:
  assumes "group_tools (tp_groups p) = build_group_tools f"
  shows "finite (role_cap p r)"
proof -
  have "finite (get_tools_for_groups (tp_groups p) gs)" for gs
    using groups_finite [of f] by (auto simp: get_tools_union assms split: option.splits)
  then show ?thesis
    by (simp add: role_cap_def get_tool_names_for_role_def Let_def split: prod.splits agent_role.splits)
qed

lemma executable_iff:
  assumes "group_tools (tp_groups p) = build_group_tools f"
  shows "is_executable p r agent name \<longleftrightarrow>
    name \<in> role_cap p r \<and> (case agent_restrictions p agent of None \<Rightarrow> True | Some s \<Rightarrow> name \<in> s)"
  using cap_finite [OF assms, of r]
  by (auto simp: is_executable_def is_visible_def visible_tools_def list_ex_iff Let_def split: option.splits)

text \<open>The restrictions of a run, one after the other.\<close>

definition restrict_all :: "(string \<times> string list) list \<Rightarrow> tool_policy \<Rightarrow> tool_policy" where
  "restrict_all rs p = fold (\<lambda>(agent, tools). restrict_tools agent tools) rs p"

lemma restrict_groups [simp]: "tp_groups (restrict_tools agent tools p) = tp_groups p"
    "tp_check_bash (restrict_tools agent tools p) = tp_check_bash p"
  by (simp_all add: restrict_tools_def Let_def)

lemma restrict_all_snoc: "restrict_all (rs @ [(agent, tools)]) p = restrict_tools agent tools (restrict_all rs p)"
  by (simp add: restrict_all_def)

lemma restrict_all_fields:
  "tp_groups (restrict_all rs p) = tp_groups p \<and> tp_check_bash (restrict_all rs p) = tp_check_bash p"
proof (induction rs rule: rev_induct)
  case Nil
  then show ?case by (simp add: restrict_all_def)
next
  case (snoc x rs)
  then show ?case by (cases x) (simp add: restrict_all_snoc)
qed

text \<open>
  The contract of a restriction: it never adds, and what stays allowed is exactly what it names. A run of
  restrictions then allows what each of them names, in any order.
\<close>

locale restriction =
  fixes allowed :: "'p \<Rightarrow> 'a \<Rightarrow> bool"
    and restrict :: "'r \<Rightarrow> 'p \<Rightarrow> 'p"
    and names :: "'r \<Rightarrow> 'a \<Rightarrow> bool"
  assumes exact: "allowed (restrict r p) x \<longleftrightarrow> allowed p x \<and> names r x"
begin

lemma all_exact: "allowed (fold restrict rs p) x \<longleftrightarrow> allowed p x \<and> (\<forall>r \<in> set rs. names r x)"
  by (induction rs arbitrary: p) (auto simp: exact)

lemma order_irrelevant: "set rs = set ss \<Longrightarrow> allowed (fold restrict rs p) x \<longleftrightarrow> allowed (fold restrict ss p) x"
  by (simp add: all_exact)

end

definition unrestricted :: "tool_policy \<Rightarrow> string \<times> string \<Rightarrow> bool" where
  "unrestricted p = (\<lambda>(agent, name). case agent_restrictions p agent of None \<Rightarrow> True | Some s \<Rightarrow> name \<in> s)"

lemma unrestricted_restrict:
  "unrestricted (restrict_tools a tools p) (agent, name) \<longleftrightarrow> unrestricted p (agent, name) \<and> (a = agent \<longrightarrow> name \<in> set tools)"
  by (cases "agent_restrictions p a"; cases "a = agent") (auto simp: unrestricted_def restrict_tools_def Let_def)

interpretation run_restriction: restriction unrestricted "\<lambda>(agent, tools). restrict_tools agent tools"
    "\<lambda>(a, tools) (agent, name). a = agent \<longrightarrow> name \<in> set tools"
  by unfold_locales (auto simp: unrestricted_restrict)

lemma restrict_all_narrows:
  assumes "agent_restrictions p agent = None"
  shows "(case agent_restrictions (restrict_all rs p) agent of None \<Rightarrow> True | Some s \<Rightarrow> name \<in> s)
    \<longleftrightarrow> (\<forall>(a, tools) \<in> set rs. a = agent \<longrightarrow> name \<in> set tools)"
  using run_restriction.all_exact [of rs p "(agent, name)"] assms
  by (auto simp: unrestricted_def restrict_all_def)

lemma cap_cong: "tp_groups p = tp_groups q \<Longrightarrow> tp_check_bash p = tp_check_bash q \<Longrightarrow> role_cap p r = role_cap q r"
  by (cases r) (simp_all add: role_cap_def)

lemma cap_within:
  "name \<in> role_cap p r \<Longrightarrow> name \<notin> {''knowledge_delete'', ''ontology_register''}
    \<and> (r = Plan \<longrightarrow> name \<in> set plan_readonly_tools)
    \<and> (r = Act \<longrightarrow> is_readonly_tool name)
    \<and> (r = Check \<longrightarrow> is_readonly_tool name \<or> name = ''bash'' \<and> tp_check_bash p)"
  unfolding role_cap_def
  by (auto simp: Let_def split: prod.splits agent_role.splits if_splits)



section \<open>Activation\<close>

text \<open>A run of activations: the candidates of each search and the names it was allowed to activate.\<close>

definition activate_all :: "(string list \<times> string set) list \<Rightarrow> activated_tools \<Rightarrow> activated_tools" where
  "activate_all calls a = fold (\<lambda>(candidates, allowed) a. snd (activate candidates allowed a)) calls a"

lemma activate_all_snoc: "activate_all (cs @ [(c, s)]) a = snd (activate c s (activate_all cs a))"
  by (simp add: activate_all_def)

text \<open>What one activation adds to the tools of a run.\<close>

lemma activate_loop:
  assumes "fold (activate_one a allowed) candidates (tools, activated, skipped) = (tools', activated', skipped')"
    and "distinct tools" "length activated \<le> max_per_activation a" "length tools \<le> max_total a"
    and "set activated \<subseteq> set tools"
  shows "\<exists>more. tools' = tools @ more \<and> activated' = activated @ more \<and> distinct tools' \<and> set more \<subseteq> set candidates \<inter> allowed
    \<and> length activated' \<le> max_per_activation a \<and> length tools' \<le> max_total a"
  using assms
proof (induction candidates arbitrary: tools activated skipped)
  case Nil
  then show ?case by simp
next
  case (Cons name candidates)
  obtain t1 a1 s1 where one: "activate_one a allowed name (tools, activated, skipped) = (t1, a1, s1)" by (metis prod_cases3)
  then consider "t1 = tools" "a1 = activated"
    | "t1 = tools @ [name]" "a1 = activated @ [name]" "name \<in> allowed" "name \<notin> set tools"
      "length activated \<noteq> max_per_activation a" "length tools \<noteq> max_total a"
    by (auto simp: activate_one_def split: if_splits)
  then show ?case
  proof cases
    case 1
    then have "\<exists>more. tools' = tools @ more \<and> activated' = activated @ more \<and> distinct tools' \<and> set more \<subseteq> set candidates \<inter> allowed
        \<and> length activated' \<le> max_per_activation a \<and> length tools' \<le> max_total a"
      using 1 Cons.prems one by (intro Cons.IH [of tools activated s1]) auto
    then show ?thesis by auto
  next
    case 2
    have "\<exists>more. tools' = t1 @ more \<and> activated' = a1 @ more \<and> distinct tools' \<and> set more \<subseteq> set candidates \<inter> allowed
        \<and> length activated' \<le> max_per_activation a \<and> length tools' \<le> max_total a"
      using 2 Cons.prems one by (intro Cons.IH [of t1 a1 s1]) auto
    then show ?thesis using 2 by auto
  qed
qed

lemma activate_adds:
  assumes "activate candidates allowed a = ((activated, skipped), a')"
    and "distinct (at_tools a)" "length (at_tools a) \<le> max_total a"
  shows "at_tools a' = at_tools a @ activated \<and> distinct (at_tools a') \<and> set activated \<subseteq> set candidates \<inter> allowed
    \<and> length activated \<le> max_per_activation a \<and> length (at_tools a') \<le> max_total a
    \<and> activation_events a' = activation_events a + (if activated = [] then 0 else 1)
    \<and> max_total a' = max_total a \<and> max_per_activation a' = max_per_activation a \<and> at_policy a' = at_policy a"
proof -
  obtain ts ac sk where f: "fold (activate_one a allowed) candidates (at_tools a, [], []) = (ts, ac, sk)" by (metis prod_cases3)
  then show ?thesis using activate_loop [OF f assms(2) _ assms(3)] assms(1) by (auto simp: activate_def)
qed

definition activation_ok :: "nat \<Rightarrow> nat \<Rightarrow> string set \<Rightarrow> activated_tools \<Rightarrow> bool" where
  "activation_ok n k allowed a \<longleftrightarrow>
     max_per_activation a = n \<and> max_total a = k \<and> distinct (at_tools a) \<and> length (at_tools a) \<le> k
     \<and> length (at_tools a) \<le> n * activation_events a \<and> set (at_tools a) \<subseteq> allowed"

lemma activation_ok_step:
  assumes "activation_ok n k allowed a" "activate c s a = ((activated, skipped), a')"
  shows "activation_ok n k (allowed \<union> (set c \<inter> s)) a' \<and> at_tools a' = at_tools a @ activated"
  using activate_adds [OF assms(2)] assms(1) by (auto simp: activation_ok_def add_mono)

lemma activate_all_ok:
  "activation_ok n k (\<Union>(c, s) \<in> set calls. set c \<inter> s) (activate_all calls (new_activated f n k))"
proof (induction calls rule: rev_induct)
  case Nil
  then show ?case by (simp add: activate_all_def new_activated_def activation_ok_def)
next
  case (snoc x calls)
  obtain c s where x: "x = (c, s)" by fastforce
  obtain ac sk a' where "activate c s (activate_all calls (new_activated f n k)) = ((ac, sk), a')" by (metis prod.collapse)
  from activation_ok_step [OF snoc this] show ?case unfolding x activate_all_snoc \<open>activate c s _ = _\<close> by (simp add: Un_commute)
qed

lemmas activate_all_inv = activate_all_ok [unfolded activation_ok_def]

lemma activate_all_step:
  "\<exists>more. at_tools (activate_all (calls @ [(c, s)]) (new_activated f n k)) = at_tools (activate_all calls (new_activated f n k)) @ more"
proof -
  obtain ac sk a' where "activate c s (activate_all calls (new_activated f n k)) = ((ac, sk), a')" by (metis prod.collapse)
  from activation_ok_step [OF activate_all_ok this] this show ?thesis by (simp add: activate_all_snoc)
qed


end
