(* ===== verification/Micro_Properties.thy ===== *)
theory Micro_Properties
  imports Micro_Store
begin

text \<open>
  What the store of tool results guarantees: keys of different owners or calls are different, the eviction
  loops keep exactly the newest entries whatever the order of the hash map, and over every history a reader
  answers only with what its own owner stored.
\<close>

section \<open>Storage keys\<close>

lemma hex_upper_inject: "a < 16 \<Longrightarrow> b < 16 \<Longrightarrow> hex_upper a = hex_upper b \<longleftrightarrow> a = b"
proof -
  have "inj_on hex_upper (set [0 ..< 16])" by code_simp
  then show "a < 16 \<Longrightarrow> b < 16 \<Longrightarrow> hex_upper a = hex_upper b \<longleftrightarrow> a = b" by (auto dest: inj_onD)
qed

lemma plain_not_percent: "plain_byte b \<Longrightarrow> b \<noteq> CHR ''%'' \<and> b \<noteq> CHR ''/''"
  unfolding plain_byte_def is_ascii_alphanumeric_def is_ascii_lowercase_def is_ascii_uppercase_def is_ascii_digit_def
  by auto

lemma hex_upper_no_slash: "n < 16 \<Longrightarrow> hex_upper n \<noteq> CHR ''/''"
proof -
  have "list_all (\<lambda>n. hex_upper n \<noteq> CHR ''/'') [0 ..< 16]" by code_simp
  then show "n < 16 \<Longrightarrow> hex_upper n \<noteq> CHR ''/''" by (simp add: list_all_iff)
qed

lemma escape_byte_no_slash: "CHR ''/'' \<notin> set (escape_byte b)"
  using plain_not_percent [of b] hex_upper_no_slash [of "byte b div 16"] hex_upper_no_slash [of "byte b mod 16"]
  by (auto simp: escape_byte_def less_mult_imp_div_less)

lemma escape_no_slash: "CHR ''/'' \<notin> set (escape_segment v)"
  by (induction v) (auto simp: escape_segment_def escape_byte_no_slash)

lemma escape_inject: "escape_segment v = escape_segment w \<Longrightarrow> v = w"
proof (induction v arbitrary: w)
  case Nil
  then show ?case by (cases w) (auto simp: escape_segment_def escape_byte_def split: if_splits)
next
  case (Cons a v)
  then obtain b u where w: "w = b # u"
    by (cases w) (auto simp: escape_segment_def escape_byte_def split: if_splits)
  have eq: "escape_byte a @ escape_segment v = escape_byte b @ escape_segment u"
    using Cons.prems w by (simp add: escape_segment_def)
  have digits: "byte x div 16 < 16" "byte x mod 16 < 16" for x by (simp_all add: less_mult_imp_div_less)
  have "a = b \<and> escape_segment v = escape_segment u"
  proof (cases "plain_byte a \<or> plain_byte b")
    case True
    then show ?thesis
      using eq plain_not_percent [of a] plain_not_percent [of b] by (auto simp: escape_byte_def split: if_splits)
  next
    case False
    then have "byte a div 16 = byte b div 16" "byte a mod 16 = byte b mod 16"
        "escape_segment v = escape_segment u"
      using eq hex_upper_inject [OF digits(1) [of a] digits(1) [of b]] hex_upper_inject [OF digits(2) [of a] digits(2) [of b]]
      by (auto simp: escape_byte_def)
    then show ?thesis by (metis div_mult_mod_eq of_char_eq_iff)
  qed
  then show ?case using Cons.IH w by blast
qed

lemma escape_segment_eq: "escape_segment v = escape_segment w \<longleftrightarrow> v = w"
  using escape_inject by blast

lemma segment_inject:
  "escape_segment v @ CHR ''/'' # s = escape_segment w @ CHR ''/'' # t \<longleftrightarrow> v = w \<and> s = t"
  using append_sep_inject [OF escape_no_slash escape_no_slash] escape_inject by blast

text \<open>
  No identifier can spell another owner's key: the storage keys of two results are equal only if tenant,
  project, run, agent and call are the same.
\<close>

theorem storage_key_names_owner: "storage_key o1 c1 = storage_key o2 c2 \<longleftrightarrow> o1 = o2 \<and> c1 = c2"
  by (cases o1; cases o2) (simp add: storage_key_def segment_inject escape_segment_eq conj_ac)

section \<open>Eviction\<close>

text \<open>The entries with fewer than \<open>n\<close> newer ones of their tenant.\<close>

definition newest_per_tenant :: "('m \<Rightarrow> string) \<Rightarrow> ('m \<Rightarrow> nat) \<Rightarrow> nat \<Rightarrow> 'm list \<Rightarrow> 'm list" where
  "newest_per_tenant tenant seq n m =
     filter (\<lambda>e. length (filter (\<lambda>d. tenant d = tenant e \<and> seq d > seq e) m) < n) m"

lemma delete_subset: "set (AList.delete k m) \<subseteq> set m"
  by (simp add: AList.delete_eq)

lemma evict_subset: "set (evict_over_tenant_quota tenant seq quota m) \<subseteq> set m"
proof (induction tenant seq quota m rule: evict_over_tenant_quota.induct)
  case (1 tenant seq quota m)
  then show ?case
    using delete_subset by (subst evict_over_tenant_quota.simps) (force split: option.splits simp del: AList.delete_eq)
qed

lemma newer_fewer:
  assumes "e \<in> set m" "P e"
  shows "length (filter (\<lambda>d. P d \<and> seq d > (seq e :: nat)) m) < length (filter P m)"
proof -
  have "length (filter (\<lambda>d. seq d > seq e) (filter P m)) < length (filter P m)"
    using assms by (intro length_filter_less [of e]) auto
  then show ?thesis by (simp add: conj_commute)
qed

lemma distinct_single: "distinct m \<Longrightarrow> length (filter (\<lambda>d. d = x) m) \<le> 1"
  by (induction m) (auto simp: filter_empty_conv)

lemma over_quota_None:
  "over_quota tenant quota m = None \<Longrightarrow> e \<in> set m \<Longrightarrow> length (filter (\<lambda>d. tenant d = tenant e) m) \<le> quota"
  unfolding over_quota_def by (metis (mono_tags, lifting) find_None_iff not_less option.map_disc_iff)

lemma evict_within_quota:
  "length (filter (\<lambda>d. tenant d = t) (evict_over_tenant_quota tenant seq quota m)) \<le> quota"
proof (induction tenant seq quota m rule: evict_over_tenant_quota.induct)
  case (1 tenant seq quota m)
  show ?case
  proof (cases "over_quota tenant quota m")
    case None
    have "length (filter (\<lambda>d. tenant d = t) m) \<le> quota"
    proof (cases "\<exists>e \<in> set m. tenant e = t")
      case True
      then show ?thesis using over_quota_None [OF None] by blast
    next
      case False
      then have "filter (\<lambda>d. tenant d = t) m = []" by (simp add: filter_empty_conv)
      then show ?thesis by simp
    qed
    with None show ?thesis by (subst evict_over_tenant_quota.simps) simp
  next
    case (Some u)
    then have "filter (\<lambda>d. tenant d = u) m \<noteq> []" by (auto dest: over_quota_SomeD)
    then obtain oldest where "min_by_key seq (filter (\<lambda>d. tenant d = u) m) = Some oldest"
      by (cases "min_by_key seq (filter (\<lambda>d. tenant d = u) m)") auto
    with Some show ?thesis using "1.IH" [OF Some] by (subst evict_over_tenant_quota.simps) simp
  qed
qed

lemma delete_distinct:
  "distinct (map fst m) \<Longrightarrow> e \<in> set m \<Longrightarrow> AList.delete (fst e) m = filter (\<lambda>d. d \<noteq> e) m"
  unfolding AList.delete_eq by (rule filter_cong) (auto simp: distinct_map inj_on_def split: prod.splits)

lemma all_newest: 
  assumes "\<And>e. e \<in> set m \<Longrightarrow> length (filter (\<lambda>d. tenant d = tenant e) m) \<le> quota"
  shows "newest_per_tenant tenant seq quota m = m"
  unfolding newest_per_tenant_def
proof (rule filter_True, rule ballI)
  fix e assume "e \<in> set m"
  then show "length (filter (\<lambda>d. tenant d = tenant e \<and> seq e < seq d) m) < quota"
    using newer_fewer [of e m "\<lambda>d. tenant d = tenant e" seq] assms [of e] by simp
qed

text \<open>The oldest entry of a tenant over its quota is none of the newest, and without it they are the same.\<close>

lemma newest_without_oldest:
  assumes m: "distinct m" "inj_on seq (set m)" and old: "old \<in> set m" "tenant old = t"
    and least: "\<And>d. d \<in> set m \<Longrightarrow> tenant d = t \<Longrightarrow> seq old \<le> seq d"
    and over: "length (filter (\<lambda>d. tenant d = t) m) > quota"
  shows "newest_per_tenant tenant seq quota (filter (\<lambda>d. d \<noteq> old) m) = newest_per_tenant tenant seq quota m"
proof -
  let ?newer = "\<lambda>m e. length (filter (\<lambda>d. tenant d = tenant e \<and> seq d > seq e) m)"
  have same: "?newer (filter (\<lambda>d. d \<noteq> old) m) e = ?newer m e" if "e \<in> set m" for e
  proof -
    have "\<not> (tenant old = tenant e \<and> seq old > seq e)" using least [OF that] old(2) by auto
    then have "filter (\<lambda>d. tenant d = tenant e \<and> seq d > seq e) (filter (\<lambda>d. d \<noteq> old) m)
        = filter (\<lambda>d. tenant d = tenant e \<and> seq d > seq e) m"
      unfolding filter_filter by (intro filter_cong) auto
    then show ?thesis by simp
  qed
  have "length (filter (\<lambda>d. tenant d = t) m) \<le> Suc (?newer m old)"
  proof -
    have "filter (\<lambda>d. tenant d = t) m = filter (\<lambda>d. tenant d = t \<and> (d = old \<or> seq d > seq old)) m"
      using least m(2) old(1) by (intro filter_cong refl) (metis inj_onD le_neq_implies_less)
    moreover have "length (filter (\<lambda>d. tenant d = t \<and> (d = old \<or> seq d > seq old)) n)
        \<le> length (filter (\<lambda>d. d = old) n) + ?newer n old" for n
      using old(2) by (induction n) auto
    ultimately show ?thesis using distinct_single [OF m(1), of old] by (metis (no_types, lifting) One_nat_def add_le_mono1 le_trans plus_1_eq_Suc)
  qed
  then have "\<not> ?newer m old < quota" using over by simp
  then show ?thesis
    unfolding newest_per_tenant_def filter_filter using same by (intro filter_cong refl) auto
qed

text \<open>The loop keeps the newest entries of every tenant, whichever tenant it takes first.\<close>

lemma evict_keeps_newest:
  assumes "distinct (map fst m)" "inj_on seq (set m)"
  shows "evict_over_tenant_quota tenant seq quota m = newest_per_tenant tenant seq quota m"
  using assms
proof (induction tenant seq quota m rule: evict_over_tenant_quota.induct)
  case (1 tenant seq quota m)
  have m: "distinct m" using "1.prems"(1) by (simp add: distinct_map)
  show ?case
  proof (cases "over_quota tenant quota m")
    case None
    then show ?thesis
      using all_newest [of m tenant quota seq] over_quota_None [OF None]
      by (subst evict_over_tenant_quota.simps) simp
  next
    case (Some t)
    note over = over_quota_SomeD [OF Some]
    then obtain old where old: "min_by_key seq (filter (\<lambda>d. tenant d = t) m) = Some old"
      by (cases "min_by_key seq (filter (\<lambda>d. tenant d = t) m)") auto
    have o: "old \<in> set m" "tenant old = t" and least: "\<And>d. d \<in> set m \<Longrightarrow> tenant d = t \<Longrightarrow> seq old \<le> seq d"
      using min_by_key_Some [OF old] by auto
    have del: "AList.delete (fst old) m = filter (\<lambda>d. d \<noteq> old) m" using delete_distinct "1.prems"(1) o(1) by blast
    have "evict_over_tenant_quota tenant seq quota (filter (\<lambda>d. d \<noteq> old) m)
        = newest_per_tenant tenant seq quota (filter (\<lambda>d. d \<noteq> old) m)"
      using "1.IH" [OF Some old, unfolded del] "1.prems" distinct_map_filter inj_on_subset [OF "1.prems"(2)] by force
    then show ?thesis
      using newest_without_oldest [OF m "1.prems"(2) o least over] Some old del
      by (subst evict_over_tenant_quota.simps) simp
  qed
qed

text \<open>The capacity loop is the quota loop with a single tenant.\<close>

lemma over_quota_single: "over_quota (\<lambda>_. []) cap m = (if length m > cap then Some [] else None)"
  by (cases m) (auto simp: over_quota_def find_None_iff)

lemma evict_capacity_quota: "evict_over_capacity seq cap m = evict_over_tenant_quota (\<lambda>_. []) seq cap m"
proof (induction seq cap m rule: evict_over_capacity.induct)
  case (1 seq cap m)
  then show ?case
    by (subst evict_over_capacity.simps, subst evict_over_tenant_quota.simps)
      (auto simp: over_quota_single split: option.splits)
qed

section \<open>Histories\<close>

datatype micro_op =
    StoreData micro_owner string json
  | RegisterReader string micro_context
  | RemoveReadersNamed string
  | RemoveRun string

fun run_micro_op :: "micro_env \<times> micro_op \<Rightarrow> micro_store \<Rightarrow> micro_store" where
  "run_micro_op (env, StoreData owner key v) s = store_data env owner key v s"
| "run_micro_op (env, RegisterReader name ctx) s = register_reader env name ctx s"
| "run_micro_op (env, RemoveReadersNamed name) s = remove_readers_named name s"
| "run_micro_op (env, RemoveRun run) s = remove_run run s"

definition run_micro :: "(micro_env \<times> micro_op) list \<Rightarrow> micro_store" where
  "run_micro ops = fold run_micro_op ops empty_micro_store"

lemma run_micro_simps [simp]:
  "run_micro [] = empty_micro_store" "run_micro (ops @ [x]) = run_micro_op x (run_micro ops)"
  by (simp_all add: run_micro_def)

text \<open>Keys and sequence numbers are distinct, and none is above the counter.\<close>

definition keyed_ok :: "(('k \<times> 'e) \<Rightarrow> nat) \<Rightarrow> nat \<Rightarrow> ('k \<times> 'e) list \<Rightarrow> bool" where
  "keyed_ok seq n m \<longleftrightarrow> distinct (map fst m) \<and> inj_on seq (set m) \<and> (\<forall>e \<in> set m. seq e \<le> n)"

definition micro_ok :: "micro_store \<Rightarrow> bool" where
  "micro_ok s \<longleftrightarrow> keyed_ok (re_seq \<circ> snd) (next_seq s) (readers s) \<and> keyed_ok (de_seq \<circ> snd) (next_seq s) (stored s)"

lemma keyed_ok_filter: "keyed_ok seq n m \<Longrightarrow> keyed_ok seq n (filter P m)"
  unfolding keyed_ok_def by (auto simp: distinct_map_filter inj_on_def)

lemma update_set: "distinct (map fst m) \<Longrightarrow> set (AList.update k v m) = insert (k, v) {e \<in> set m. fst e \<noteq> k}"
proof (induction m)
  case (Cons x m)
  then show ?case by (cases x) (auto simp: image_iff)
qed simp

lemma keyed_ok_update:
  assumes "keyed_ok seq n m" "seq (k, v) = Suc n"
  shows "keyed_ok seq (Suc n) (AList.update k v m)"
proof -
  have d: "distinct (map fst m)" and i: "inj_on seq (set m)" and b: "\<And>e. e \<in> set m \<Longrightarrow> seq e \<le> n"
    using assms(1) by (auto simp: keyed_ok_def)
  have "inj_on seq (insert (k, v) {e \<in> set m. fst e \<noteq> k})"
    unfolding inj_on_insert using i b assms(2) by (fastforce simp: inj_on_def)
  then show ?thesis
    unfolding keyed_ok_def update_set [OF d] using d b assms(2) by (auto simp: distinct_update le_Suc_eq)
qed

lemma prune_exact:
  assumes "micro_ok s"
  shows "readers (prune env s) = newest_per_tenant (\<lambda>_. []) (re_seq \<circ> snd) MAX_MICRO_TOOL_ENTRIES
      (newest_per_tenant reader_tenant (re_seq \<circ> snd) (tenant_quota env) (filter (\<lambda>(k, e). fresh_at env (re_created e)) (readers s)))"
    and "stored (prune env s) = newest_per_tenant (\<lambda>_. []) (de_seq \<circ> snd) MAX_MICRO_TOOL_ENTRIES
      (newest_per_tenant data_tenant (de_seq \<circ> snd) (tenant_quota env) (filter (\<lambda>(k, e). fresh_at env (de_created e)) (stored s)))"
proof -
  have exact: "evict_over_capacity seq cap (evict_over_tenant_quota tenant seq quota (filter P m))
      = newest_per_tenant (\<lambda>_. []) seq cap (newest_per_tenant tenant seq quota (filter P m))"
    if ok: "keyed_ok seq n m" for seq cap tenant quota P n and m :: "('k \<times> 'e) list"
  proof -
    have "keyed_ok seq n (filter P m)" using ok by (rule keyed_ok_filter)
    moreover from this have "keyed_ok seq n (newest_per_tenant tenant seq quota (filter P m))"
      unfolding newest_per_tenant_def by (rule keyed_ok_filter)
    ultimately show ?thesis by (simp add: evict_capacity_quota evict_keeps_newest keyed_ok_def)
  qed
  show "readers (prune env s) = newest_per_tenant (\<lambda>_. []) (re_seq \<circ> snd) MAX_MICRO_TOOL_ENTRIES
      (newest_per_tenant reader_tenant (re_seq \<circ> snd) (tenant_quota env) (filter (\<lambda>(k, e). fresh_at env (re_created e)) (readers s)))"
    using assms exact unfolding micro_ok_def prune_def Let_def by simp blast
  show "stored (prune env s) = newest_per_tenant (\<lambda>_. []) (de_seq \<circ> snd) MAX_MICRO_TOOL_ENTRIES
      (newest_per_tenant data_tenant (de_seq \<circ> snd) (tenant_quota env) (filter (\<lambda>(k, e). fresh_at env (de_created e)) (stored s)))"
    using assms exact unfolding micro_ok_def prune_def Let_def by simp blast
qed

lemma capacity_within: "length (evict_over_capacity seq cap m) \<le> cap"
  using evict_within_quota [of "\<lambda>_. []" "[]" seq cap m] by (simp add: evict_capacity_quota)

lemma capacity_shrinks: "length (filter P (evict_over_capacity seq cap m)) \<le> length (filter P m)"
proof (induction seq cap m rule: evict_over_capacity.induct)
  case (1 seq cap m)
  have "length (filter P (AList.delete k m)) \<le> length (filter P m)" for k
    unfolding AList.delete_eq filter_filter by (induction m) auto
  with 1 show ?case
    by (subst evict_over_capacity.simps) (auto split: option.splits intro: le_trans)
qed

lemma prune_bounds:
  "length (filter (\<lambda>e. reader_tenant e = t) (readers (prune env s))) \<le> tenant_quota env
   \<and> length (filter (\<lambda>e. data_tenant e = t) (stored (prune env s))) \<le> tenant_quota env
   \<and> length (readers (prune env s)) \<le> MAX_MICRO_TOOL_ENTRIES \<and> length (stored (prune env s)) \<le> MAX_MICRO_TOOL_ENTRIES"
  unfolding prune_def Let_def
  by (auto simp: capacity_within intro!: le_trans [OF capacity_shrinks evict_within_quota])

lemma prune_next_seq [simp]: "next_seq (prune env s) = next_seq s"
  by (simp add: prune_def Let_def)

lemma micro_ok_prune: "micro_ok s \<Longrightarrow> micro_ok (prune env s)"
  unfolding micro_ok_def [of "prune env s"] prune_exact newest_per_tenant_def
  by (simp add: micro_ok_def keyed_ok_filter)

lemma keyed_ok_later: "keyed_ok seq n m \<Longrightarrow> keyed_ok seq (Suc n) m"
  by (auto simp: keyed_ok_def)

lemma micro_ok_insert:
  assumes "micro_ok s"
  shows "re_seq r = Suc (next_seq s) \<Longrightarrow> micro_ok (s\<lparr>next_seq := Suc (next_seq s), readers := AList.update k r (readers s)\<rparr>)"
    and "de_seq d = Suc (next_seq s) \<Longrightarrow> micro_ok (s\<lparr>next_seq := Suc (next_seq s), stored := AList.update key d (stored s)\<rparr>)"
  using assms by (simp_all add: micro_ok_def keyed_ok_later keyed_ok_update)

lemma micro_ok_step [invs]: "micro_ok s \<Longrightarrow> micro_ok (run_micro_op x s)"
proof (cases "(x, s)" rule: run_micro_op.cases)
  case (3 env name s)
  then show "micro_ok s \<Longrightarrow> micro_ok (run_micro_op x s)" for s
    by (simp add: remove_readers_named_def micro_ok_def keyed_ok_filter)
next
  case (4 env run s)
  then show "micro_ok s \<Longrightarrow> micro_ok (run_micro_op x s)" for s
    by (simp add: remove_run_def micro_ok_def keyed_ok_filter)
qed (simp_all add: store_data_def register_reader_def Let_def micro_ok_prune micro_ok_insert)

lemma micro_ok_run: "micro_ok (run_micro ops)"
proof (induction ops rule: rev_induct)
  case Nil
  then show ?case by (simp add: empty_micro_store_def micro_ok_def keyed_ok_def)
qed (simp add: micro_ok_step)

text \<open>
  C30: the store is bounded and keeps the newest: over every history, after a result is stored or a reader
  registered exactly the entries remain that are not expired, of which fewer than the quota of the tenant are
  newer with the same tenant, and of those the newest 1024; so no tenant is ever over its quota.
\<close>

theorem newest_results_kept:
  fixes ops :: "(micro_env \<times> micro_op) list" and ctx :: micro_context and env :: micro_env
    and name key t :: string and owner :: micro_owner and v :: json
  defines "s \<equiv> run_micro ops"
  defines "rs \<equiv> readers (register_reader env name ctx s)" and "ds \<equiv> stored (store_data env owner key v s)"
  shows "rs = newest_per_tenant (\<lambda>_. []) (re_seq \<circ> snd) MAX_MICRO_TOOL_ENTRIES
      (newest_per_tenant reader_tenant (re_seq \<circ> snd) (tenant_quota env)
        (filter (\<lambda>(k, e). fresh_at env (re_created e))
          (AList.update (mc_owner ctx, name) \<lparr>re_context = ctx, re_seq = next_seq s + 1, re_created = clock env\<rparr> (readers s))))
    \<and> ds = newest_per_tenant (\<lambda>_. []) (de_seq \<circ> snd) MAX_MICRO_TOOL_ENTRIES
      (newest_per_tenant data_tenant (de_seq \<circ> snd) (tenant_quota env)
        (filter (\<lambda>(k, e). fresh_at env (de_created e))
          (AList.update key \<lparr>de_owner = owner, de_value = v, de_seq = next_seq s + 1, de_created = clock env\<rparr> (stored s))))
    \<and> length (filter (\<lambda>e. reader_tenant e = t) rs) \<le> tenant_quota env
    \<and> length (filter (\<lambda>e. data_tenant e = t) ds) \<le> tenant_quota env
    \<and> length rs \<le> MAX_MICRO_TOOL_ENTRIES \<and> length ds \<le> MAX_MICRO_TOOL_ENTRIES"
proof -
  have ok: "micro_ok s" unfolding s_def by (rule micro_ok_run)
  let ?r = "s\<lparr>next_seq := Suc (next_seq s), readers := AList.update (mc_owner ctx, name)
      \<lparr>re_context = ctx, re_seq = Suc (next_seq s), re_created = clock env\<rparr> (readers s)\<rparr>"
  let ?d = "s\<lparr>next_seq := Suc (next_seq s), stored := AList.update key
      \<lparr>de_owner = owner, de_value = v, de_seq = Suc (next_seq s), de_created = clock env\<rparr> (stored s)\<rparr>"
  have rs: "rs = readers (prune env ?r)" and ds: "ds = stored (prune env ?d)"
    by (simp_all add: rs_def ds_def register_reader_def store_data_def Let_def)
  have "micro_ok ?r" "micro_ok ?d" using micro_ok_insert [OF ok] by simp_all
  note exact = prune_exact(1) [OF this(1), of env, folded rs] prune_exact(2) [OF this(2), of env, folded ds]
  show ?thesis using exact prune_bounds [where env = env and s = ?r] prune_bounds [where env = env and s = ?d] unfolding rs ds by simp
qed

section \<open>Confinement\<close>

text \<open>An operation of the history after which no operation was of a certain kind.\<close>

definition done_since :: "(micro_env \<times> micro_op) list \<Rightarrow> micro_env \<times> micro_op \<Rightarrow> (micro_op \<Rightarrow> bool) \<Rightarrow> bool" where
  "done_since ops x undone \<longleftrightarrow> (\<exists>pre post. ops = pre @ x # post \<and> (\<forall>y \<in> set post. \<not> undone (snd y)))"

lemma done_since_last: "done_since (ops @ [x]) x undone"
  unfolding done_since_def by (rule exI [of _ ops], rule exI [of _ "[]"]) simp

lemma done_since_more:
  assumes "done_since ops x undone" "\<not> undone op"
  shows "done_since (ops @ [(env, op)]) x undone"
proof -
  obtain pre post where "ops = pre @ x # post" "\<forall>y \<in> set post. \<not> undone (snd y)" using assms(1) by (auto simp: done_since_def)
  then have "ops @ [(env, op)] = pre @ x # (post @ [(env, op)])" "\<forall>y \<in> set (post @ [(env, op)]). \<not> undone (snd y)"
    using assms(2) by auto
  then show ?thesis unfolding done_since_def by blast
qed

definition reader_live :: "(micro_env \<times> micro_op) list \<Rightarrow> (micro_owner \<times> string) \<times> reader_entry \<Rightarrow> bool" where
  "reader_live ops x \<longleftrightarrow> (case x of ((owner, name), e) \<Rightarrow>
     owner = mc_owner (re_context e)
     \<and> (\<exists>env. clock env = re_created e
          \<and> done_since ops (env, RegisterReader name (re_context e))
              (\<lambda>op. op = RemoveRun (mo_run_id owner) \<or> op = RemoveReadersNamed name)))"

definition data_live :: "(micro_env \<times> micro_op) list \<Rightarrow> string \<times> data_entry \<Rightarrow> bool" where
  "data_live ops x \<longleftrightarrow> (case x of (key, e) \<Rightarrow>
     \<exists>env. clock env = de_created e
       \<and> done_since ops (env, StoreData (de_owner e) key (de_value e)) (\<lambda>op. op = RemoveRun (mo_run_id (de_owner e))))"

lemma prune_subset: "set (readers (prune env s)) \<subseteq> set (readers s)" "set (stored (prune env s)) \<subseteq> set (stored s)"
proof -
  have "set (evict_over_capacity seq cap (evict_over_tenant_quota tenant seq quota (filter P m))) \<subseteq> set m"
    for seq cap tenant quota P and m :: "('k \<times> 'e) list"
    unfolding evict_capacity_quota using evict_subset by (metis filter_is_subset order_trans)
  then show "set (readers (prune env s)) \<subseteq> set (readers s)" "set (stored (prune env s)) \<subseteq> set (stored s)"
    by (simp_all add: prune_def Let_def)
qed

lemma reader_live_more:
  assumes "reader_live ops ((owner, name), e)" "op \<noteq> RemoveRun (mo_run_id owner)" "op \<noteq> RemoveReadersNamed name"
  shows "reader_live (ops @ [(env, op)]) ((owner, name), e)"
proof -
  obtain env' where "owner = mc_owner (re_context e)" "clock env' = re_created e"
      "done_since ops (env', RegisterReader name (re_context e)) (\<lambda>op. op = RemoveRun (mo_run_id owner) \<or> op = RemoveReadersNamed name)"
    using assms(1) by (auto simp: reader_live_def)
  with done_since_more [OF this(3), of op env] assms(2,3) show ?thesis by (auto simp: reader_live_def)
qed

lemma data_live_more:
  assumes "data_live ops (key, e)" "op \<noteq> RemoveRun (mo_run_id (de_owner e))"
  shows "data_live (ops @ [(env, op)]) (key, e)"
proof -
  obtain env' where "clock env' = de_created e"
      "done_since ops (env', StoreData (de_owner e) key (de_value e)) (\<lambda>op. op = RemoveRun (mo_run_id (de_owner e)))"
    using assms(1) by (auto simp: data_live_def)
  with done_since_more [OF this(2), of op env] assms(2) show ?thesis by (auto simp: data_live_def)
qed

lemma update_member: "x \<in> set (AList.update k v m) \<Longrightarrow> x = (k, v) \<or> x \<in> set m"
  by (induction m) (auto split: if_splits)

lemma live_run: "(\<forall>x \<in> set (readers (run_micro ops)). reader_live ops x) \<and> (\<forall>x \<in> set (stored (run_micro ops)). data_live ops x)"
proof (induction ops rule: rev_induct)
  case Nil
  then show ?case by (simp add: empty_micro_store_def)
next
  case (snoc x ops)
  let ?s = "run_micro ops"
  obtain env op where x: "x = (env, op)" by fastforce
  have rm: "reader_live (ops @ [x]) ((owner, name), e)"
    if "((owner, name), e) \<in> set (readers ?s)" "op \<noteq> RemoveRun (mo_run_id owner)" "op \<noteq> RemoveReadersNamed name" for owner name e
    using snoc that x reader_live_more by blast
  have dm: "data_live (ops @ [x]) (key, e)"
    if "(key, e) \<in> set (stored ?s)" "op \<noteq> RemoveRun (mo_run_id (de_owner e))" for key e
    using snoc that x data_live_more by blast
  show ?case
  proof (cases op)
    case (StoreData owner key v)
    have "data_live (ops @ [x]) (key, \<lparr>de_owner = owner, de_value = v, de_seq = n, de_created = clock env\<rparr>)" for n
      unfolding data_live_def x StoreData by (auto intro: done_since_last)
    then show ?thesis
      using rm dm prune_subset unfolding x StoreData
      by (auto simp: store_data_def Let_def dest!: subsetD [OF prune_subset(1)] subsetD [OF prune_subset(2)] update_member)
  next
    case (RegisterReader name ctx)
    have "reader_live (ops @ [x]) ((mc_owner ctx, name), \<lparr>re_context = ctx, re_seq = n, re_created = clock env\<rparr>)" for n
      unfolding reader_live_def x RegisterReader by (auto intro: done_since_last)
    then show ?thesis
      using rm dm prune_subset unfolding x RegisterReader
      by (auto simp: register_reader_def Let_def dest!: subsetD [OF prune_subset(1)] subsetD [OF prune_subset(2)] update_member)
  next
    case (RemoveReadersNamed name)
    then show ?thesis using rm dm x by (auto simp: remove_readers_named_def)
  next
    case (RemoveRun run)
    then show ?thesis using rm dm x by (auto simp: remove_run_def)
  qed
qed

text \<open>
  C29: results are confined to their owner: over every history of stores, registrations, replacements and ended
  runs, a reader that answers was registered for the very tenant, project, run and agent that asks, and its answer
  is a value that same owner stored under the reader's key; both within the lifetime, and neither was followed by
  the end of that run, nor the reader by a tool that took its name.
\<close>

theorem results_confined_to_owner:
  assumes "lookup_reader now owner name (run_micro ops) = Some (ctx, v)"
  shows "mc_owner ctx = owner
    \<and> (\<exists>env. fresh_at now (clock env)
         \<and> done_since ops (env, RegisterReader name ctx) (\<lambda>op. op = RemoveRun (mo_run_id owner) \<or> op = RemoveReadersNamed name))
    \<and> (\<exists>env. fresh_at now (clock env)
         \<and> done_since ops (env, StoreData owner (mc_storage_key ctx) v) (\<lambda>op. op = RemoveRun (mo_run_id owner)))"
proof -
  obtain r d where r: "((owner, name), r) \<in> set (readers (run_micro ops))" "fresh_at now (re_created r)" "re_context r = ctx"
    and d: "(mc_storage_key ctx, d) \<in> set (stored (run_micro ops))" "fresh_at now (de_created d)" "de_owner d = owner" "de_value d = v"
    using assms unfolding lookup_reader_def by (auto split: option.splits if_splits dest!: map_of_SomeD)
  have "reader_live ops ((owner, name), r)" "data_live ops (mc_storage_key ctx, d)" using live_run r(1) d(1) by blast+
  then obtain e1 e2 where e1: "owner = mc_owner ctx" "clock e1 = re_created r"
      "done_since ops (e1, RegisterReader name ctx) (\<lambda>op. op = RemoveRun (mo_run_id owner) \<or> op = RemoveReadersNamed name)"
    and e2: "clock e2 = de_created d"
      "done_since ops (e2, StoreData owner (mc_storage_key ctx) v) (\<lambda>op. op = RemoveRun (mo_run_id owner))"
    using r(3) d(3,4) by (auto simp: reader_live_def data_live_def)
  show ?thesis
    using e1 e2 r(2) d(2) by (intro conjI exI [of _ e1] exI [of _ e2]) simp_all
qed

definition sample_owner :: "string \<Rightarrow> micro_owner" where
  "sample_owner run = \<lparr>mo_tenant_id = ''acme'', mo_project_id = ''p'', mo_run_id = run, mo_agent_id = ''DA''\<rparr>"

definition sample_env :: "nat \<Rightarrow> micro_env" where
  "sample_env t = \<lparr>clock = t, ttl_var = None, quota_var = None\<rparr>"

definition sample_context :: micro_context where
  "sample_context = \<lparr>mc_call_id = ''c1'', mc_storage_key = ''k'', mc_tool_name = ''rag_search'', mc_entity_types = [],
     mc_preview_size = 0, mc_owner = sample_owner ''r1''\<rparr>"

definition sample_micro_ops :: "(micro_env \<times> micro_op) list" where
  "sample_micro_ops =
     [(sample_env 1, StoreData (sample_owner ''r1'') ''k'' (JString ''big'')),
      (sample_env 2, RegisterReader ''read_full_result_c1'' sample_context),
      (sample_env 3, RemoveRun ''r2'')]"

theorem results_confined_to_owner_witness:
  "lookup_reader (sample_env 9) (sample_owner ''r1'') ''read_full_result_c1'' (run_micro sample_micro_ops)
      = Some (sample_context, JString ''big'')
    \<and> (\<exists>env. done_since sample_micro_ops (env, StoreData (sample_owner ''r1'') ''k'' (JString ''big''))
         (\<lambda>op. op = RemoveRun ''r1''))"
proof -
  have "lookup_reader (sample_env 9) (sample_owner ''r1'') ''read_full_result_c1'' (run_micro sample_micro_ops)
      = Some (sample_context, JString ''big'')"
    by (simp add: run_micro_def sample_micro_ops_def store_data_def register_reader_def remove_run_def prune_def Let_def
        empty_micro_store_def evict_over_tenant_quota.simps evict_over_capacity.simps over_quota_def sample_env_def
        fresh_at_def micro_ttl_def tenant_quota_def positive_number_def DEFAULT_MICRO_TOOL_TTL_def
        DEFAULT_MICRO_TOOL_TENANT_QUOTA_def MAX_MICRO_TOOL_ENTRIES_def lookup_reader_def sample_context_def sample_owner_def)
  with results_confined_to_owner [OF this] show ?thesis by (auto simp: sample_context_def sample_owner_def)
qed

end
