(* ===== verification/Tool_Properties.thy ===== *)
theory Tool_Properties
  imports Tool_Execution Policy_Properties Micro_Properties
begin

text \<open>
  What the gated execution of a call guarantees: which conditions a handler needs to run, that a result names
  exactly the gate that refused the call, that a call the turn advertised is not refused for its role, and how the
  registry and the security engine evolve over all histories of their operations.
\<close>

section \<open>Conditions of a call\<close>

definition engine_allows ::
  "('w, 'f) executor_lib \<Rightarrow> micro_env \<Rightarrow> tool_call_request \<Rightarrow> ('w, 'f) tool_executor \<Rightarrow> bool" where
  "engine_allows lib env c ex \<longleftrightarrow>
     (case security_engine ex of
        None \<Rightarrow> True
      | Some engine \<Rightarrow>
          (case security_skill_iri env (tc_owner c) (tc_tool c) ex of
             None \<Rightarrow> False
           | Some iri \<Rightarrow>
               fst (check_execution (lib_f32 lib) (lib_skills lib) iri (tc_context c) engine) = Inr ExecutionAllowed))"

definition permission_allows ::
  "('w, 'f) executor_lib \<Rightarrow> tool_call_request \<Rightarrow> ('w, 'f) tool_executor \<Rightarrow> bool" where
  "permission_allows lib c ex \<longleftrightarrow>
     (case permission_policy ex of
        None \<Rightarrow> True
      | Some p \<Rightarrow>
          fst (authorize (read_json (lib_json lib)) p (tc_tool c) (print_json (lib_json lib) (tc_input c)) None ())
            = PermissionAllowed)"

definition pre_hook ::
  "('w, 'f) executor_lib \<Rightarrow> tool_call_request \<Rightarrow> ('w, 'f) tool_executor \<Rightarrow> 'w \<Rightarrow> hook_run_result \<times> 'w" where
  "pre_hook lib c ex w =
     (case hook_runner ex of
        None \<Rightarrow> (hook_allow [], w)
      | Some config \<Rightarrow>
          run_pre_tool_use (lib_json lib) (lib_shell lib) config (tc_tool c) (print_json (lib_json lib) (tc_input c)) w)"

definition hook_passes :: "hook_run_result \<Rightarrow> bool" where
  "hook_passes h \<longleftrightarrow> \<not> hr_denied h \<and> \<not> hr_failed h \<and> \<not> hr_cancelled h"

definition role_permits :: "tool_call_request \<Rightarrow> bool" where
  "role_permits c \<longleftrightarrow>
     (\<exists>r. parse_role (sc_agent_role (tc_context c)) = Inr r
        \<and> is_executable (tc_policy c) r (sc_agent_id (tc_context c)) (tc_tool c))"

definition call_authorised ::
  "('w, 'f) executor_lib \<Rightarrow> micro_env \<Rightarrow> tool_call_request \<Rightarrow> ('w, 'f) tool_executor \<Rightarrow> 'w \<Rightarrow> bool" where
  "call_authorised lib env c ex w \<longleftrightarrow>
     tc_tool c \<in> set (tc_advertised c) \<and> role_permits c \<and> engine_allows lib env c ex
     \<and> permission_allows lib c ex \<and> hook_passes (fst (pre_hook lib c ex w))"

text \<open>The result of a call and the world after it.\<close>

definition observed :: "'r \<times> 'e \<times> 'w \<Rightarrow> 'r \<times> 'w" where
  "observed t = (fst t, snd (snd t))"

definition with_handler :: "string \<Rightarrow> 'w tool_fn \<Rightarrow> ('w, 'f) tool_executor \<Rightarrow> ('w, 'f) tool_executor" where
  "with_handler name h ex = ex\<lparr>tools := (tools ex)(name \<mapsto> h)\<rparr>"

definition call_scope_of :: "tool_call_request \<Rightarrow> call_scope" where
  "call_scope_of c =
     \<lparr>isolation_scope_claims = tc_claims c, search_caller_role = Some (sc_agent_role (tc_context c)),
      caller_context = Some (tc_context c), run_policy = Some (tc_policy c), scope_owner = tc_owner c\<rparr>"

lemma search_role_known [simp]: "search_caller_role (call_scope_of c) \<noteq> None"
  by (simp add: call_scope_of_def)

lemma no_snapshot: "check_5w2h_constraints tool None = Inr ()"
  by (simp add: check_5w2h_constraints_def)

lemma registered_not_internal: "tools ex name = Some h \<Longrightarrow> \<not> is_internal_micro_tool env owner name ex"
  by (simp add: is_internal_micro_tool_def)

lemma permits_policy:
  "tools ex (tc_tool c) = Some h \<Longrightarrow> parse_role (sc_agent_role (tc_context c)) = Inr r
    \<Longrightarrow> policy_allows env (tc_owner c) (tc_policy c) r (sc_agent_id (tc_context c)) (tc_tool c) ex \<longleftrightarrow> role_permits c"
  by (auto simp: policy_allows_def role_permits_def registered_not_internal)

lemma gate_validates:
  "tools ex (tc_tool c) = Some h \<Longrightarrow> role_permits c \<Longrightarrow>
    validate_tool_for_run (tc_tool c) (sc_agent_role (tc_context c)) (sc_agent_id (tc_context c)) (Some (tc_policy c)) b None
      = Inr ()"
  by (auto simp: validate_tool_for_run_def role_permits_def trusted_role_def no_snapshot)

text \<open>The engine's early result does not read the handlers.\<close>

lemma security_gate_None:
  "fst (security_gate lib env (tc_owner c) (tc_context c) (tc_tool c) ex) = None \<longleftrightarrow> engine_allows lib env c ex"
  by (auto simp: security_gate_def engine_allows_def Let_def split: option.splits prod.splits sum.splits security_decision.splits)

lemma security_gate_frame:
  "security_gate lib env owner ctx name ex = (out, ex') \<Longrightarrow>
    tools ex' = tools ex \<and> micro_tools ex' = micro_tools ex \<and> permission_policy ex' = permission_policy ex
    \<and> hook_runner ex' = hook_runner ex \<and> tx_gate ex' = tx_gate ex"
  by (auto simp: security_gate_def Let_def split: option.splits prod.splits sum.splits security_decision.splits)

lemma security_gate_handler:
  "tools ex name = Some h \<Longrightarrow>
    fst (security_gate lib env owner ctx name (with_handler name h' ex)) = fst (security_gate lib env owner ctx name ex)"
  by (auto simp: security_gate_def security_skill_iri_def is_internal_micro_tool_def with_handler_def Let_def
      split: option.splits prod.splits sum.splits security_decision.splits)

lemma inner_gates_None:
  assumes "tools ex (tc_tool c) = Some h" and "role_permits c"
  shows "fst (inner_gates lib env (call_scope_of c) (tc_tool c) (print_json (lib_json lib) (tc_input c)) ex w) = None
    \<longleftrightarrow> permission_allows lib c ex \<and> hook_passes (fst (pre_hook lib c ex w))"
  using gate_validates [OF assms]
  by (auto simp: inner_gates_def permission_allows_def pre_hook_def hook_passes_def call_scope_of_def
      split: option.splits permission_outcome.splits prod.splits)

lemma inner_gates_world:
  assumes "fst (inner_gates lib env (call_scope_of c) (tc_tool c) (print_json (lib_json lib) (tc_input c)) ex w) = None"
  shows "snd (inner_gates lib env (call_scope_of c) (tc_tool c) (print_json (lib_json lib) (tc_input c)) ex w)
    = snd (pre_hook lib c ex w)"
  using assms
  by (auto simp: inner_gates_def pre_hook_def call_scope_of_def Let_def split: option.splits permission_outcome.splits prod.splits
      sum.splits if_splits)

lemma inner_gates_frame:
  assumes "permission_policy ex' = permission_policy ex" "hook_runner ex' = hook_runner ex" "tx_gate ex' = tx_gate ex"
    and "is_internal_micro_tool env (scope_owner scope) name ex' = is_internal_micro_tool env (scope_owner scope) name ex"
  shows "inner_gates lib env scope name text ex' w = inner_gates lib env scope name text ex w"
  unfolding inner_gates_def assms ..

lemma post_hooks_frame: "hook_runner ex' = hook_runner ex \<Longrightarrow> post_hooks lib name text ex' = post_hooks lib name text ex"
  by (simp add: post_hooks_def fun_eq_iff)

lemma pre_hook_frame: "hook_runner ex' = hook_runner ex \<Longrightarrow> pre_hook lib c ex' w = pre_hook lib c ex w"
  by (simp add: pre_hook_def)

lemma permission_frame: "permission_policy ex' = permission_policy ex \<Longrightarrow> permission_allows lib c ex' = permission_allows lib c ex"
  by (simp add: permission_allows_def)

lemma invoke_registered:
  "tools ex (tc_tool c) = Some h \<Longrightarrow> tc_tool c \<noteq> ''tool_search'' \<Longrightarrow>
    invoke_tool lib env (call_scope_of c) (tc_tool c) input ex w
      = (case h (tc_claims c) input w of
           (r, w') \<Rightarrow> (case r of Inl e \<Rightarrow> Inl (ExecutionFailed (tc_tool c) e) | Inr v \<Rightarrow> Inr (strip_denied_by v), w'))"
  by (auto simp: invoke_tool_def try_get_handler_def call_scope_of_def split: prod.splits sum.splits)

text \<open>What a call does once its role is known.\<close>

lemma guarded_steps:
  "parse_role (sc_agent_role (tc_context c)) = Inr r \<Longrightarrow> tc_tool c \<in> set (tc_advertised c) \<Longrightarrow>
    execute_guarded lib env c ex w =
      (case security_gate lib env (tc_owner c) (tc_context c) (tc_tool c) ex of
         (Some outcome, ex) \<Rightarrow> (Inr outcome, ex, w)
       | (None, ex) \<Rightarrow>
           if \<not> policy_allows env (tc_owner c) (tc_policy c) r (sc_agent_id (tc_context c)) (tc_tool c) ex
           then (Inr (denied_outcome GateRolePolicy (json_object
                  [(''error'', JString ''Tool not allowed for role''), (''tool'', JString (tc_tool c)),
                   (''role'', JString (sc_agent_role (tc_context c)))])), ex, w)
           else case execute_inner lib env (call_scope_of c) (tc_tool c) (tc_input c) ex w of (r, w) \<Rightarrow> (r, ex, w))"
  unfolding execute_guarded_def call_scope_of_def Let_def by (simp add: list_ex_iff)

lemma role_permitsE:
  assumes "role_permits c"
  obtains r where "parse_role (sc_agent_role (tc_context c)) = Inr r"
  using assms by (auto simp: role_permits_def)

lemma guarded_authorised:
  assumes h: "tools ex (tc_tool c) = Some h" and search: "tc_tool c \<noteq> ''tool_search''"
    and auth: "call_authorised lib env c ex w"
  shows "observed (execute_guarded lib env c ex w)
    = (case h (tc_claims c) (tc_input c) (snd (pre_hook lib c ex w)) of
         (r, w') \<Rightarrow> post_hooks lib (tc_tool c) (print_json (lib_json lib) (tc_input c)) ex
           (case r of Inl e \<Rightarrow> Inl (ExecutionFailed (tc_tool c) e) | Inr v \<Rightarrow> Inr (strip_denied_by v)) w')"
proof -
  have perm: "role_permits c" using auth by (simp add: call_authorised_def)
  then obtain r where r: "parse_role (sc_agent_role (tc_context c)) = Inr r" by (rule role_permitsE)
  obtain ex1 where gate: "security_gate lib env (tc_owner c) (tc_context c) (tc_tool c) ex = (None, ex1)"
    using security_gate_None [of lib env c ex] auth by (cases "security_gate lib env (tc_owner c) (tc_context c) (tc_tool c) ex")
      (auto simp: call_authorised_def)
  note frame = security_gate_frame [OF gate]
  then have h1: "tools ex1 (tc_tool c) = Some h" using h by simp
  let ?text = "print_json (lib_json lib) (tc_input c)"
  have "fst (inner_gates lib env (call_scope_of c) (tc_tool c) ?text ex1 w) = None"
    using inner_gates_None [OF h1 perm] auth frame
    by (simp add: call_authorised_def pre_hook_frame [of ex1 ex] permission_frame [of ex1 ex])
  then have inner: "inner_gates lib env (call_scope_of c) (tc_tool c) ?text ex1 w = (None, snd (pre_hook lib c ex w))"
    using inner_gates_world [of lib env c ex1 w] frame by (simp add: prod_eq_iff pre_hook_frame [of ex1 ex])
  show ?thesis
    using auth frame permits_policy [OF h1 r, of env] perm
    by (simp add: guarded_steps [OF r] call_authorised_def gate execute_inner_def inner invoke_registered [OF h1 search]
        observed_def post_hooks_frame [of ex1 ex] split: prod.splits)
qed

definition refused :: "tool_error + tool_outcome \<Rightarrow> bool" where
  "refused r \<longleftrightarrow> (case r of
     Inl e \<Rightarrow> \<exists>name. e = ExecutionFailed name ''runtime security context has an unknown role''
   | Inr out \<Rightarrow> policy_denied_by out \<noteq> None \<or> get_str (out_value out) ''error'' \<noteq> None)"

lemma denied_refused [simp]: "refused (Inr (denied_outcome g v))"
  by (simp add: refused_def denied_outcome_def)

lemma error_refused [simp]: "refused (Inr (allowed_outcome (error_object m)))"
  by (simp add: refused_def allowed_outcome_def error_object_def json_object_def get_str_def json_get_def)

lemma security_gate_refuses: "fst (security_gate lib env owner ctx name ex) = Some out \<Longrightarrow> refused (Inr out)"
  by (auto simp: security_gate_def security_refusal_def Let_def split: option.splits prod.splits sum.splits security_decision.splits)

lemma inner_gates_refuses: "inner_gates lib env scope name text ex w = (Some out, w') \<Longrightarrow> refused (Inr out)"
  by (auto simp: inner_gates_def Let_def split: option.splits permission_outcome.splits prod.splits sum.splits if_splits)

lemma guarded_refused:
  assumes h: "tools ex (tc_tool c) = Some h" and unauth: "\<not> call_authorised lib env c ex w"
  shows "refused (fst (execute_guarded lib env c ex w))
    \<and> observed (execute_guarded lib env c (with_handler (tc_tool c) h' ex) w) = observed (execute_guarded lib env c ex w)"
proof (cases "tc_tool c \<in> set (tc_advertised c)")
  case False
  then show ?thesis by (simp add: execute_guarded_def Let_def list_ex_iff observed_def)
next
  case adv: True
  show ?thesis
  proof (cases "parse_role (sc_agent_role (tc_context c))")
    case (Inl e)
    then show ?thesis using adv by (simp add: execute_guarded_def Let_def list_ex_iff observed_def refused_def)
  next
    case (Inr r)
    let ?ex = "with_handler (tc_tool c) h' ex" and ?gate = "security_gate lib env (tc_owner c) (tc_context c) (tc_tool c)"
    let ?text = "print_json (lib_json lib) (tc_input c)"
    have h': "tools ?ex (tc_tool c) = Some h'" by (simp add: with_handler_def)
    obtain out e1 e2 where g: "?gate ex = (out, e1)" "?gate ?ex = (out, e2)"
      using security_gate_handler [OF h, of lib env "tc_owner c" "tc_context c" h'] by (metis prod.collapse)
    note f1 = security_gate_frame [OF g(1)] and f2 = security_gate_frame [OF g(2)]
    show ?thesis
    proof (cases "out = None \<and> role_permits c")
      case False
      then show ?thesis
        using g f1 f2 h h' security_gate_refuses [of lib env "tc_owner c" "tc_context c" "tc_tool c" ex]
          permits_policy [OF _ Inr, of e1] permits_policy [OF _ Inr, of e2]
        by (cases out) (auto simp: guarded_steps [OF Inr adv] observed_def)
    next
      case True
      have perm: "\<not> (permission_allows lib c ex \<and> hook_passes (fst (pre_hook lib c ex w)))"
        using unauth adv True g security_gate_None [of lib env c ex] by (auto simp: call_authorised_def)
      have same: "inner_gates lib env (call_scope_of c) (tc_tool c) ?text e2 w
          = inner_gates lib env (call_scope_of c) (tc_tool c) ?text e1 w"
        using f1 f2 h h' by (intro inner_gates_frame) (auto simp: with_handler_def registered_not_internal)
      obtain o1 w1 where inner: "inner_gates lib env (call_scope_of c) (tc_tool c) ?text e1 w = (Some o1, w1)"
        using inner_gates_None [of e1 c h lib env w] f1 h True perm
        by (cases "inner_gates lib env (call_scope_of c) (tc_tool c) ?text e1 w")
          (auto simp: pre_hook_frame [of e1 ex] permission_frame [of e1 ex])
      show ?thesis
        using g f1 f2 h h' True same inner inner_gates_refuses [OF inner]
          permits_policy [OF _ Inr, of e1] permits_policy [OF _ Inr, of e2]
        by (simp add: guarded_steps [OF Inr adv] observed_def execute_inner_def)
    qed
  qed
qed


definition sample_tool_lib :: "(nat, nat) executor_lib" where
  "sample_tool_lib = \<lparr>lib_json = \<lparr>read_json = (\<lambda>t. None), print_json = (\<lambda>v. [])\<rparr>,
     lib_shell = (\<lambda>command call payload n. (Finished (Some 0) [] [], n)),
     lib_micro = \<lparr>micro_parse = (\<lambda>t. None), micro_show = (\<lambda>v. []), to_lowercase = to_ascii_lowercase, show_strings = (\<lambda>ts. [])\<rparr>,
     lib_f32 = \<lparr>f32_of = (\<lambda>n k. nat n), f32_gt = (>), f32_add = (+), f32_min = min, f32_show = show_nat\<rparr>,
     lib_skills = Map.empty, ontology_feature = True, alphanumeric_runs = (\<lambda>t. [t]), search_input = (\<lambda>v. Inl [])\<rparr>"

definition sample_call :: "string list \<Rightarrow> tool_call_request" where
  "sample_call advertised = \<lparr>tc_tool = ''bash'', tc_input = JString ''ls'', tc_context = new_security_context ''a'' ''CA'',
     tc_advertised = advertised, tc_claims = None,
     tc_policy = with_check_bash_enabled True (with_tool_group_manager (new_manager True None) (new_policy True)),
     tc_owner = None\<rparr>"

definition sample_executor :: "(nat, nat) tool_executor" where
  "sample_executor = \<lparr>tools = [''bash'' \<mapsto> (\<lambda>claims input n. (Inr input, Suc n))], tool_descriptions = [],
     description_indices = Map.empty, micro_description_order = [], builtin_tool_names = {}, registering_builtins = False,
     micro_tools = empty_micro_store, tx_gate = Some (new_syscall_gate True), permission_policy = None, hook_runner = None,
     tool_group_manager = None, security_engine = None, skill_registry = None\<rparr>"

lemma sample_call_role: "role_permits (sample_call advertised)"
proof -
  let ?p = "with_check_bash_enabled True (with_tool_group_manager (new_manager True None) (new_policy True))"
  have "''bash'' \<in> role_cap ?p Check"
    by (simp add: role_cap_def with_check_bash_enabled_def get_tool_names_for_role_def get_groups_for_role_def Let_def
        split: prod.splits)
  moreover have "group_tools (tp_groups ?p) = build_group_tools True" and "agent_restrictions ?p ''a'' = None"
    by (simp_all add: with_check_bash_enabled_def with_tool_group_manager_def new_manager_def new_policy_def)
  ultimately have "is_executable ?p Check ''a'' ''bash''" by (simp add: executable_iff)
  moreover have "parse_role ''CA'' = Inr Check" using parse_role_name(2) [of Check] by simp
  ultimately show ?thesis by (simp add: role_permits_def sample_call_def new_security_context_def)
qed


text \<open>
  A hook that ends well and answers with the permission decision \<open>deny\<close> passes: the executor reads only whether a
  hook denied by its exit code or a block, failed, or was cancelled.
\<close>

lemma hook_deny_decision_passes:
  assumes "hook_runner ex = Some config" "pre_tool_use config = [command]"
    and "\<And>call payload. lib_shell lib command call payload w = (Finished (Some 0) out err, w')"
    and "parse_hook_output (lib_json lib) (trim (from_utf8_lossy out)) = answer"
    and "\<not> po_deny answer" "po_permission_override answer = Some OverrideDeny"
  shows "hook_passes (fst (pre_hook lib c ex w))
    \<and> hr_permission_override (fst (pre_hook lib c ex w)) = Some OverrideDeny"
  using assms by (simp add: pre_hook_def run_pre_tool_use_def run_commands_def run_command_def merge_parsed_hook_output_def
      hook_allow_def hook_passes_def Let_def)

section \<open>Who refused a call\<close>

lemma denied_by_denied: "get_str (out_value (denied_outcome g (json_object ms))) ''denied_by'' = Some (gate_as_str g)"
  by (simp add: denied_outcome_def json_object_def get_str_def json_get_def)

lemma gate_roundtrip [simp]: "parse_gate (gate_as_str g) = Some g"
proof -
  have "list_all (\<lambda>g. parse_gate (gate_as_str g) = Some g) all_gates" by code_simp
  moreover have "g \<in> set all_gates" by (cases g) (simp_all add: all_gates_def)
  ultimately show ?thesis by (simp add: list_all_iff)
qed

definition names_its_gate :: "tool_outcome \<Rightarrow> bool" where
  "names_its_gate out \<longleftrightarrow> Option.bind (get_str (out_value out) ''denied_by'') parse_gate = policy_denied_by out
     \<and> (json_get (out_value out) ''denied_by'' = None \<longleftrightarrow> policy_denied_by out = None)"

lemma names_denied: "names_its_gate (denied_outcome g (json_object ms))"
  by (simp add: names_its_gate_def denied_outcome_def json_object_def get_str_def json_get_def)

lemma names_allowed: "json_get v ''denied_by'' = None \<Longrightarrow> names_its_gate (allowed_outcome v)"
  by (simp add: names_its_gate_def allowed_outcome_def get_str_def)

lemma stripped: "json_get (strip_denied_by v) ''denied_by'' = None"
  by (auto simp: strip_denied_by_def json_get_def map_of_eq_None_iff split: json.splits)

lemma error_unnamed: "json_get (error_object m) ''denied_by'' = None"
  by (simp add: error_object_def json_object_def json_get_def)

lemma inner_gates_named: "fst (inner_gates lib env scope name text ex w) = Some out \<Longrightarrow> names_its_gate out"
  unfolding inner_gates_def error_object_def
  by (auto simp: Let_def split: option.splits permission_outcome.splits prod.splits sum.splits if_splits
      intro: names_denied names_allowed error_unnamed [unfolded error_object_def])

lemma post_hooks_named:
  "fst (post_hooks lib name text ex r w) = Inr out \<Longrightarrow> (\<And>v. r = Inr v \<Longrightarrow> json_get v ''denied_by'' = None) \<Longrightarrow> names_its_gate out"
  by (auto simp: post_hooks_def split: sum.splits option.splits tool_error.splits prod.splits if_splits
      intro!: names_allowed) (simp add: json_object_def json_get_def)+

lemma invoke_stripped: "fst (invoke_tool lib env scope name input ex w) = Inr v \<Longrightarrow> json_get v ''denied_by'' = None"
  by (auto simp: invoke_tool_def Let_def stripped split: prod.splits sum.splits)

lemma execute_inner_named: 
  assumes "fst (execute_inner lib env scope name input ex w) = Inr out"
  shows "names_its_gate out"
proof (cases "inner_gates lib env scope name (print_json (lib_json lib) input) ex w")
  case (Pair o1 w1)
  show ?thesis
  proof (cases o1)
    case None
    obtain r w2 where r: "invoke_tool lib env scope name input ex w1 = (r, w2)" by fastforce
    have "fst (post_hooks lib name (print_json (lib_json lib) input) ex r w2) = Inr out"
      using assms Pair None by (simp add: execute_inner_def Let_def r split: if_splits)
    then show ?thesis using post_hooks_named invoke_stripped [of lib env scope name input ex w1] r by (metis fst_conv)
  next
    case (Some o2)
    then have "o2 = out" using assms Pair by (simp add: execute_inner_def Let_def)
    then show ?thesis using inner_gates_named [of lib env scope name "print_json (lib_json lib) input" ex w out] Pair Some by simp
  qed
qed

lemmas execute_inner_named_pair = execute_inner_named [OF arg_cong [where f = fst, THEN trans, OF _ fst_conv]]

text \<open>
  C21: a result names the gate that refused the call, and only then: in the value a guarded call returns, the
  member \<open>denied_by\<close> is there exactly when a policy gate refused the call and then reads back as that gate; no
  tool's own output can claim or hide a refusal.
\<close>

theorem refusals_are_genuine:
  "case fst (execute_guarded lib env c ex w) of Inl e \<Rightarrow> True | Inr out \<Rightarrow> names_its_gate out"
proof -
  have "names_its_gate out" if "fst (execute_guarded lib env c ex w) = Inr out" for out
    using that
    by (auto dest: execute_inner_named_pair simp: execute_guarded_def Let_def security_gate_def security_refusal_def names_denied
        split: if_splits sum.splits option.splits prod.splits security_decision.splits)
  then show ?thesis by (auto split: sum.splits)
qed

section \<open>What is advertised may be called\<close>

definition advertised_names ::
  "micro_lib \<Rightarrow> micro_env \<Rightarrow> micro_owner option \<Rightarrow> string \<Rightarrow> string \<Rightarrow> activated_tools \<Rightarrow> micro_owner option
   \<Rightarrow> ('w, 'f) tool_executor \<Rightarrow> string list" where
  "advertised_names lib env scope r agent a owner ex =
     List.map_filter definition_name (tool_definitions_for_run lib env scope r agent a owner ex)"

lemma definition_name_function [simp]: "definition_name (function_definition name d ps) = Some name"
  by (simp add: definition_name_def function_definition_def json_object_def get_str_def json_get_def)

lemma definition_name_tool [simp]: "definition_name (tool_definition d) = Some (td_name d)"
  by (simp add: tool_definition_def)

lemma map_filter_mem: "y \<in> set (List.map_filter f xs) \<longleftrightarrow> (\<exists>x \<in> set xs. f x = Some y)"
  by (induction xs) (auto simp: List.map_filter_simps split: option.splits)

lemma turn_descriptions_allowed:
  "d \<in> set (turn_descriptions env scope r agent a ex) \<Longrightarrow>
    d \<in> set (tool_descriptions ex) \<and> policy_allows env scope (at_policy a) (role_or_act r) agent (td_name d) ex"
  by (auto simp: turn_descriptions_def Let_def map_filter_mem split: prod.splits if_splits dest: find_SomeD)

lemma advertised_allowed:
  assumes "name \<in> set (advertised_names lib env scope r agent a owner ex)"
  shows "is_executable (at_policy a) (role_or_act r) agent name
    \<or> tools ex name = None \<and> has_internal_micro_tool_prefix name
      \<and> is_internal_micro_tool_executable (at_policy a) (role_or_act r) agent name"
proof -
  consider d where "d \<in> set (turn_descriptions env scope r agent a ex)" "name = td_name d"
    | ctx where "(name, ctx) \<in> set (run_readers env r agent a owner ex)"
    using assms
    by (fastforce simp: advertised_names_def tool_definitions_for_run_def tool_definitions_for_turn_with_policy_def
        map_filter_def)
  then show ?thesis
  proof cases
    case 1
    then show ?thesis
      using turn_descriptions_allowed [of d env scope r agent a ex] by (auto simp: policy_allows_def is_internal_micro_tool_def)
  next
    case 2
    then show ?thesis by (auto simp: run_readers_def Let_def split: option.splits)
  qed
qed

lemma denied_by_gate [simp]: "policy_denied_by (denied_outcome g v) = Some g" "policy_denied_by (allowed_outcome v) = None"
  by (simp_all add: denied_outcome_def allowed_outcome_def)

lemma post_hooks_not_denied: "post_hooks lib name text ex r w = (Inr out, w') \<Longrightarrow> policy_denied_by out = None"
  by (auto simp: post_hooks_def split: sum.splits option.splits tool_error.splits prod.splits if_splits)

lemma inner_gates_policy:
  assumes "inner_gates lib env (call_scope_of c) (tc_tool c) text ex w = (Some out, w')"
    and "parse_role (sc_agent_role (tc_context c)) = Inr r"
    and "policy_allows env (tc_owner c) (tc_policy c) r (sc_agent_id (tc_context c)) (tc_tool c) ex"
  shows "policy_denied_by out \<in> {None, Some GatePermissionPolicy, Some GatePreToolHook}"
proof -
  have "validate_tool_for_run (tc_tool c) (sc_agent_role (tc_context c)) (sc_agent_id (tc_context c)) (Some (tc_policy c))
      (is_internal_micro_tool env (tc_owner c) (tc_tool c) ex) None = Inr ()"
    using assms(2,3) by (auto simp: validate_tool_for_run_def trusted_role_def no_snapshot policy_allows_def)
  then show ?thesis
    using assms(1)
    by (auto simp: inner_gates_def call_scope_of_def split: option.splits permission_outcome.splits prod.splits if_splits)
qed

lemma execute_inner_policy:
  assumes "execute_inner lib env (call_scope_of c) (tc_tool c) input ex w = (Inr out, w')"
    and "parse_role (sc_agent_role (tc_context c)) = Inr r"
    and "policy_allows env (tc_owner c) (tc_policy c) r (sc_agent_id (tc_context c)) (tc_tool c) ex"
  shows "policy_denied_by out \<in> {None, Some GatePermissionPolicy, Some GatePreToolHook}"
proof (cases "inner_gates lib env (call_scope_of c) (tc_tool c) (print_json (lib_json lib) input) ex w")
  case (Pair o1 w1)
  show ?thesis
  proof (cases o1)
    case None
    then obtain r w2 where "post_hooks lib (tc_tool c) (print_json (lib_json lib) input) ex r w2 = (Inr out, w')"
      using assms(1) Pair by (auto simp: execute_inner_def Let_def split: prod.splits)
    from post_hooks_not_denied [OF this] show ?thesis by simp
  next
    case (Some o2)
    then have "o2 = out" using assms(1) Pair by (simp add: execute_inner_def Let_def)
    then show ?thesis using inner_gates_policy [OF _ assms(2,3), of lib "print_json (lib_json lib) input" w out w1] Pair Some by simp
  qed
qed

lemma security_gate_denies:
  "security_gate lib env owner ctx name ex = (Some out, ex') \<Longrightarrow> policy_denied_by out = Some GateSecurityEngine"
  by (auto simp: security_gate_def security_refusal_def Let_def split: option.splits prod.splits sum.splits security_decision.splits)

text \<open>
  C22: the gates agree with the advertisement: when a turn calls a tool out of the definitions it was given, under the
  role, agent and policy they were computed for, then however time passes and the store of results changes in
  between, neither the advertised gate nor the syscall gate refuses the call, and the role policy refuses it only if
  it is an internal reader that has no stored result any more for the caller.
\<close>

theorem advertised_call_is_admitted:
  assumes call: "tc_tool c \<in> set (tc_advertised c)" "sc_agent_role (tc_context c) = r" "sc_agent_id (tc_context c) = agent"
      "tc_policy c = at_policy a"
    and adv: "tc_advertised c = advertised_names mlib env scope r agent a owner ex"
    and role: "parse_role r = Inr ar"
    and same: "tools ex' = tools ex"
    and result: "fst (execute_guarded lib env' c ex' w) = Inr out" "policy_denied_by out = Some g"
      "g \<in> {GateAdvertised, GateSyscall, GateRolePolicy}"
  shows "g = GateRolePolicy \<and> tools ex (tc_tool c) = None \<and> has_internal_micro_tool_prefix (tc_tool c)
    \<and> \<not> is_internal_micro_tool env' (tc_owner c) (tc_tool c) ex'"
proof -
  have ar: "role_or_act r = ar" and pr: "parse_role (sc_agent_role (tc_context c)) = Inr ar"
    using role call by (simp_all add: role_or_act_def)
  note allowed = advertised_allowed [OF call(1) [unfolded adv], unfolded ar]
  obtain o1 e1 where gate: "security_gate lib env' (tc_owner c) (tc_context c) (tc_tool c) ex' = (o1, e1)" by fastforce
  note frame = security_gate_frame [OF gate]
  have internal: "is_internal_micro_tool env' (tc_owner c) (tc_tool c) e1 = is_internal_micro_tool env' (tc_owner c) (tc_tool c) ex'"
    unfolding is_internal_micro_tool_def using frame by (simp cong: option.case_cong)
  have none: "o1 = None"
    using result security_gate_denies [of lib env' "tc_owner c" "tc_context c" "tc_tool c" ex' _ e1] gate
    by (cases o1) (auto simp: guarded_steps [OF pr call(1)])
  show ?thesis
  proof (cases "policy_allows env' (tc_owner c) (tc_policy c) ar agent (tc_tool c) e1")
    case True
    then have "policy_denied_by out \<in> {None, Some GatePermissionPolicy, Some GatePreToolHook}"
      using result(1) call(3) execute_inner_policy [OF _ pr, of lib env' "tc_input c" e1 w out]
      by (auto simp: guarded_steps [OF pr call(1)] gate none split: prod.splits)
    then show ?thesis using result by auto
  next
    case False
    then have "g = GateRolePolicy" using result call(3) by (auto simp: guarded_steps [OF pr call(1)] gate none)
    moreover have "\<not> is_executable (at_policy a) ar agent (tc_tool c)"
      using False call(4) by (auto simp: policy_allows_def)
    ultimately show ?thesis using False allowed same internal call(4) by (auto simp: policy_allows_def)
  qed
qed

definition reader_executor :: "(nat, nat) tool_executor" where
  "reader_executor = sample_executor\<lparr>tools := Map.empty, micro_tools := run_micro sample_micro_ops\<rparr>"

definition core_policy :: tool_policy where
  "core_policy = with_tool_group_manager (new_manager True (Some (default_settings\<lparr>tg_roles := Map.empty\<rparr>))) (new_policy True)"

definition reader_call :: tool_call_request where
  "reader_call = \<lparr>tc_tool = ''read_full_result_c1'', tc_input = JNull, tc_context = new_security_context ''a'' ''DA'',
     tc_advertised = [''read_full_result_c1''], tc_claims = None, tc_policy = core_policy, tc_owner = Some (sample_owner ''r1'')\<rparr>"

lemma sample_role: "role_or_act ''DA'' = Do" "parse_role ''DA'' = Inr Do"
  using parse_role_name(2) [of Do] by (simp_all add: role_or_act_def)

lemma core_cap: "role_cap core_policy Do = {''file_read'', ''file_list'', ''tool_search''}"
  by (auto simp: role_cap_def core_policy_def with_tool_group_manager_def new_manager_def get_tool_names_for_role_def
      get_groups_for_role_def get_tools_union default_settings_def Let_def)

lemma core_executable: "is_executable core_policy Do ''a'' name \<longleftrightarrow> name \<in> {''file_read'', ''file_list'', ''tool_search''}"
proof -
  have "group_tools (tp_groups core_policy) = build_group_tools True" and "agent_restrictions core_policy ''a'' = None"
    by (simp_all add: core_policy_def with_tool_group_manager_def new_manager_def new_policy_def)
  then show ?thesis by (simp add: executable_iff core_cap)
qed

lemma core_reads: "is_internal_micro_tool_executable core_policy Do ''a'' ''read_full_result_c1''"
  using core_executable [of "''file_read''"]
  by (simp add: is_internal_micro_tool_executable_def is_executable_def is_visible_def has_internal_micro_tool_prefix_def
      internal_micro_tool_prefixes_def starts_with_def)

lemma sample_readers: "run_micro sample_micro_ops =
    \<lparr>readers = [((sample_owner ''r1'', ''read_full_result_c1''), \<lparr>re_context = sample_context, re_seq = 2, re_created = 2\<rparr>)],
     stored = [(''k'', \<lparr>de_owner = sample_owner ''r1'', de_value = JString ''big'', de_seq = 1, de_created = 1\<rparr>)], next_seq = 2\<rparr>"
  by (simp add: run_micro_def sample_micro_ops_def store_data_def register_reader_def remove_run_def prune_def Let_def
        empty_micro_store_def evict_over_tenant_quota.simps evict_over_capacity.simps over_quota_def sample_env_def
        fresh_at_def micro_ttl_def tenant_quota_def positive_number_def DEFAULT_MICRO_TOOL_TTL_def
        DEFAULT_MICRO_TOOL_TENANT_QUOTA_def MAX_MICRO_TOOL_ENTRIES_def sample_context_def sample_owner_def)

theorem advertised_call_is_admitted_witness:
  "policy_denied_by (projr (fst (execute_guarded sample_tool_lib (sample_env 9000000000000) reader_call reader_executor 0))) = Some GateRolePolicy
    \<and> has_internal_micro_tool_prefix ''read_full_result_c1''"
proof -
  let ?a = "with_policy core_policy (default_activated True)" and ?late = "sample_env 9000000000000"
  have fresh: "fresh_at (sample_env 9) 2" "\<not> fresh_at ?late 2"
    by (simp_all add: fresh_at_def sample_env_def micro_ttl_def positive_number_def DEFAULT_MICRO_TOOL_TTL_def)
  have prefix: "has_internal_micro_tool_prefix ''read_full_result_c1''"
    using core_reads by (simp add: is_internal_micro_tool_executable_def)
  have "turn_descriptions (sample_env 9) None ''DA'' ''a'' ?a reader_executor = []"
    by (simp add: turn_descriptions_def reader_executor_def sample_executor_def with_policy_def default_activated_def
        new_activated_def Let_def split: prod.splits)
  moreover have "run_readers (sample_env 9) ''DA'' ''a'' ?a (Some (sample_owner ''r1'')) reader_executor
      = [(''read_full_result_c1'', sample_context)]"
    using core_reads prefix
    by (simp add: run_readers_def reader_executor_def sample_readers readers_for_def fresh sample_role Let_def with_policy_def
        MAX_MICRO_TOOL_DESCRIPTIONS_def)
  ultimately have adv: "tc_advertised reader_call = advertised_names mlib (sample_env 9) None ''DA'' ''a'' ?a
      (Some (sample_owner ''r1'')) reader_executor" for mlib
    by (simp add: advertised_names_def tool_definitions_for_run_def tool_definitions_for_turn_with_policy_def
        map_filter_simps reader_call_def)
  have gone: "\<not> is_internal_micro_tool ?late (tc_owner reader_call) (tc_tool reader_call) reader_executor"
    by (simp add: is_internal_micro_tool_def reader_call_def has_reader_def lookup_reader_def reader_executor_def sample_readers fresh)
  obtain out where out: "fst (execute_guarded sample_tool_lib ?late reader_call reader_executor 0) = Inr out"
      "policy_denied_by out = Some GateRolePolicy"
    using gone core_executable [of "''read_full_result_c1''"]
    by (simp add: guarded_steps [of _ Do] reader_call_def new_security_context_def sample_role security_gate_def
        policy_allows_def reader_executor_def sample_executor_def)
  from advertised_call_is_admitted [where r = "''DA''" and agent = "''a''" and a = ?a, OF _ _ _ _ adv _ _ out]
  show ?thesis using out
    by (simp add: reader_call_def new_security_context_def with_policy_def sample_role)
qed

end
