(* ===== verification/Registry_Properties.thy ===== *)
theory Registry_Properties
  imports Tool_Execution
begin

text \<open>
  Histories: the registry of tool descriptions over every sequence of registrations, and the security engine over
  every sequence of its operations.
\<close>

section \<open>The registry of descriptions\<close>

definition index_ok :: "'a list \<Rightarrow> ('a \<rightharpoonup> nat) \<Rightarrow> bool" where
  "index_ok names ix \<longleftrightarrow> (\<forall>n i. ix n = Some i \<longleftrightarrow> i < length names \<and> names ! i = n)"

lemma fold_updates:
  "distinct (map snd xs) \<Longrightarrow> fold (\<lambda>(i, n) m. m(n \<mapsto> i)) xs m n = Some i \<longleftrightarrow> (i, n) \<in> set xs \<or> n \<notin> snd ` set xs \<and> m n = Some i"
proof (induction xs arbitrary: m)
  case (Cons x xs)
  obtain j k where x: "x = (j, k)" by fastforce
  show ?case using Cons.IH [of "m(k \<mapsto> j)"] Cons.prems by (auto simp: x image_iff)
qed simp

lemma reindex_names: "reindex_from pos ds ix = fold (\<lambda>(i, n) m. m(n \<mapsto> i)) (drop pos (enumerate 0 (map td_name ds))) ix"
proof -
  have "enumerate 0 (map td_name ds) = map (\<lambda>(i, d). (i, td_name d)) (enumerate 0 ds)"
    by (rule nth_equalityI) (simp_all add: nth_enumerate_eq)
  then show ?thesis by (simp add: reindex_from_def drop_map fold_map comp_def case_prod_beta')
qed

lemma index_ok_snoc: "index_ok names ix \<Longrightarrow> n \<notin> set names \<Longrightarrow> index_ok (names @ [n]) (ix(n \<mapsto> length names))"
  by (auto simp: index_ok_def nth_append less_Suc_eq split: if_splits)

lemma index_ok_remove:
  assumes ok: "index_ok names ix" and d: "distinct names" and pos: "pos < length names"
  defines "rest \<equiv> take pos names @ drop (Suc pos) names"
  shows "index_ok rest (fold (\<lambda>(i, n) m. m(n \<mapsto> i)) (drop pos (enumerate 0 rest)) (ix(names ! pos := None)))"
proof -
  let ?xs = "drop pos (enumerate 0 rest)"
  have rest_nth: "rest ! i = (if i < pos then names ! i else names ! Suc i)" for i
    using pos by (auto simp: rest_def nth_append)
  have len: "length rest = length names - 1" using pos by (simp add: rest_def)
  have dr: "distinct rest"
    using d id_take_nth_drop [OF pos] unfolding rest_def by (metis distinct.simps(2) distinct_append not_distinct_conv_prefix
        distinct_take distinct_drop set_take_disj_set_drop_if_distinct lessI less_imp_le_nat)
  have xs: "(i, n) \<in> set ?xs \<longleftrightarrow> pos \<le> i \<and> i < length rest \<and> rest ! i = n" for i n
  proof -
    have "(i, n) \<in> set ?xs \<longleftrightarrow> (\<exists>k < length rest - pos. pos + k = i \<and> rest ! (pos + k) = n)"
      by (auto simp: in_set_conv_nth nth_enumerate_eq)
    also have "\<dots> \<longleftrightarrow> pos \<le> i \<and> i < length rest \<and> rest ! i = n"
      by (auto intro: exI [of _ "i - pos"])
    finally show ?thesis .
  qed
  have dx: "distinct (map snd ?xs)" using dr by (simp add: drop_map [symmetric])
  show ?thesis
    unfolding index_ok_def fold_updates [OF dx] xs
  proof (intro allI iffI)
    fix n i
    assume "(pos \<le> i \<and> i < length rest \<and> rest ! i = n) \<or> n \<notin> snd ` set ?xs \<and> (ix(names ! pos := None)) n = Some i"
    then show "i < length rest \<and> rest ! i = n"
    proof
      assume r: "n \<notin> snd ` set ?xs \<and> (ix(names ! pos := None)) n = Some i"
      then have i: "i < length names" "names ! i = n" "i \<noteq> pos" using ok by (auto simp: index_ok_def split: if_splits)
      have "\<not> pos < i"
      proof
        assume "pos < i"
        then have "(i - 1, n) \<in> set ?xs" using i unfolding xs rest_nth len by auto
        then show False using r by force
      qed
      then show ?thesis using i len pos rest_nth [of i] by auto
    qed auto
  next
    fix n i
    assume i: "i < length rest \<and> rest ! i = n"
    show "(pos \<le> i \<and> i < length rest \<and> rest ! i = n) \<or> n \<notin> snd ` set ?xs \<and> (ix(names ! pos := None)) n = Some i"
    proof (cases "pos \<le> i")
      case False
      have "n \<notin> snd ` set ?xs"
        using False i dr by (auto simp: xs nth_eq_iff_index_eq)
      moreover have "names ! i = n" "n \<noteq> names ! pos"
        using False i d pos rest_nth [of i] by (auto simp: nth_eq_iff_index_eq)
      ultimately show ?thesis using False pos ok by (auto simp: index_ok_def)
    qed (use i in simp)
  qed
qed

type_synonym 'w registration = "string \<times> string \<times> json \<times> 'w tool_fn \<times> string list"

definition registration_name :: "'w registration \<Rightarrow> string" where
  "registration_name = fst"

definition run_registrations :: "'w registration list \<Rightarrow> ('w, 'f) tool_executor \<Rightarrow> ('w, 'f) tool_executor" where
  "run_registrations regs ex =
     fold (\<lambda>(name, description, parameters, handler, roles). register_tool name description parameters handler roles) regs
       (ex\<lparr>tools := Map.empty, tool_descriptions := [], description_indices := Map.empty, micro_description_order := []\<rparr>)"

definition registry_ok :: "('w, 'f) tool_executor \<Rightarrow> bool" where
  "registry_ok ex \<longleftrightarrow>
     distinct (registered_tool_names ex) \<and> index_ok (registered_tool_names ex) (description_indices ex)
     \<and> micro_description_order ex = filter is_micro_tool_name (registered_tool_names ex)
     \<and> length (micro_description_order ex) \<le> MAX_MICRO_TOOL_DESCRIPTIONS"

text \<open>The names after one more registration.\<close>

definition names_after :: "string \<Rightarrow> string list \<Rightarrow> string list" where
  "names_after name names =
     (if name \<in> set names then names
      else if is_micro_tool_name name \<and> length (filter is_micro_tool_name names) \<ge> MAX_MICRO_TOOL_DESCRIPTIONS
      then remove1 (hd (filter is_micro_tool_name names)) (names @ [name])
      else names @ [name])"

lemma remove1_first_micro:
  assumes "filter P xs = y # ys"
  shows "filter P (remove1 y xs) = ys"
  using assms by (simp add: filter_remove1)

lemma remove1_nth: "distinct xs \<Longrightarrow> k < length xs \<Longrightarrow> remove1 (xs ! k) xs = take k xs @ drop (Suc k) xs"
proof (induction xs arbitrary: k)
  case (Cons x xs)
  then show ?case by (cases k) auto
qed simp

lemma register_handler_step:
  assumes "registry_ok ex"
  shows "registry_ok (register_handler name d ps h roles ex)
    \<and> registered_tool_names (register_handler name d ps h roles ex) = names_after name (registered_tool_names ex)
    \<and> tools (register_handler name d ps h roles ex) = (tools ex)(name \<mapsto> h)"
proof -
  let ?names = "map td_name (tool_descriptions ex)" and ?ix = "description_indices ex"
  have ok: "distinct ?names" "index_ok ?names ?ix" "micro_description_order ex = filter is_micro_tool_name ?names"
      "length (filter is_micro_tool_name ?names) \<le> MAX_MICRO_TOOL_DESCRIPTIONS"
    using assms unfolding registry_ok_def registered_tool_names_def by metis+
  show ?thesis
  proof (cases "?ix name")
    case (Some i)
    then have i: "i < length ?names" "?names ! i = name" using ok(2) by (simp_all add: index_ok_def)
    then have "name \<in> set ?names" by (metis nth_mem)
    moreover have "map td_name ((tool_descriptions ex)[i := x]) = ?names" if "td_name x = name" for x
      using i that by (simp add: map_update list_update_same_conv)
    ultimately show ?thesis
      using ok Some i by (simp add: register_handler_def registry_ok_def registered_tool_names_def names_after_def Let_def)
  next
    case None
    then have new: "name \<notin> set ?names" using ok(2) unfolding index_ok_def in_set_conv_nth by (metis option.distinct(1))
    note ix = index_ok_snoc [OF ok(2) new]
    show ?thesis
    proof (cases "is_micro_tool_name name \<and> length (filter is_micro_tool_name ?names) \<ge> MAX_MICRO_TOOL_DESCRIPTIONS")
      case False
      then show ?thesis
        using ok None new ix
        by (auto simp: register_handler_def registry_ok_def registered_tool_names_def names_after_def Let_def)
    next
      case True
      then obtain y ys where y: "filter is_micro_tool_name ?names = y # ys"
        by (cases "filter is_micro_tool_name ?names") (simp_all add: MAX_MICRO_TOOL_DESCRIPTIONS_def)
      let ?all = "?names @ [name]"
      have "y \<in> set (filter is_micro_tool_name ?names)" unfolding y by simp
      then have "y \<in> set ?names" by simp
      then obtain k where k: "k < length ?names" "?names ! k = y" by (metis in_set_conv_nth)
      have all: "distinct ?all" "k < length ?all" "?all ! k = y" using ok(1) new k by (simp_all add: nth_append)
      have look: "(?ix(name \<mapsto> length ?names)) y = Some k"
        using ix k by (simp add: index_ok_def nth_append)
      have rest: "remove1 y ?all = take k ?all @ drop (Suc k) ?all" using remove1_nth [OF all(1,2)] all(3) by simp
      have rix: "index_ok (remove1 y ?all) (fold (\<lambda>(i, n) m. m(n \<mapsto> i)) (drop k (enumerate 0 (remove1 y ?all)))
          ((?ix(name \<mapsto> length ?names))(y := None)))"
        using index_ok_remove [OF ix all(1,2)] unfolding rest all(3) .
      have fil: "filter is_micro_tool_name (remove1 y ?all) = ys @ [name]"
        using y True by (intro remove1_first_micro) simp
      let ?d = "\<lparr>td_name = name, td_description = d, td_parameters = ps, td_allowed_roles = roles\<rparr>"
      let ?ds = "take k (tool_descriptions ex @ [?d]) @ drop (Suc k) (tool_descriptions ex @ [?d])"
      have names: "map td_name ?ds = remove1 y ?all" unfolding rest by (simp only: take_map [symmetric] drop_map [symmetric] map_append list.map tool_description.simps)
      have order: "micro_description_order ex = y # ys" using ok(3) y by simp
      have long: "length (y # ys @ [name]) > MAX_MICRO_TOOL_DESCRIPTIONS" "length (ys @ [name]) \<le> MAX_MICRO_TOOL_DESCRIPTIONS"
        using ok(4) True y by simp_all
      let ?out = "register_handler name d ps h roles ex"
      have out: "tool_descriptions ?out = ?ds" "micro_description_order ?out = ys @ [name]"
          "description_indices ?out = reindex_from k ?ds ((?ix(name \<mapsto> length ?names))(y := None))"
          "tools ?out = (tools ex)(name \<mapsto> h)"
        using True None long(1) look by (simp_all add: register_handler_def Let_def order)
      have fin: "registered_tool_names ?out = remove1 y ?all" by (simp only: registered_tool_names_def out names)
      have "index_ok (remove1 y ?all) (description_indices ?out)" using rix by (simp only: out reindex_names names)
      moreover have "remove1 y ?all = names_after name ?names" using True new y by (simp add: names_after_def)
      moreover have "distinct (remove1 y ?all)" using all(1) by (rule distinct_remove1)
      ultimately show ?thesis
        using fil long(2) by (simp add: registry_ok_def fin out(2,4)) (simp add: registered_tool_names_def)
    qed
  qed
qed

lemma registry_ok_remove: "registry_ok (ex\<lparr>micro_tools := s\<rparr>) = registry_ok ex"
    "registered_tool_names (ex\<lparr>micro_tools := s\<rparr>) = registered_tool_names ex"
  by (simp_all add: registry_ok_def registered_tool_names_def)

lemma run_registrations_snoc:
  "run_registrations (regs @ [(name, d, ps, h, roles)]) ex = register_tool name d ps h roles (run_registrations regs ex)"
  by (simp add: run_registrations_def)

lemma remove1_other: "x \<in> set xs \<Longrightarrow> P a \<Longrightarrow> \<not> P x \<Longrightarrow> x \<in> set (remove1 a xs)"
  by (metis in_set_remove1)

lemma names_after_sets:
  "set (names_after name names) \<subseteq> insert name (set names)"
  "{n \<in> insert name (set names). \<not> is_micro_tool_name n} \<subseteq> set (names_after name names)"
proof -
  have "is_micro_tool_name y" if "filter is_micro_tool_name names = y # ys" for y ys
  proof -
    have "y \<in> set (filter is_micro_tool_name names)" using that by simp
    then show ?thesis by simp
  qed
  then show "{n \<in> insert name (set names). \<not> is_micro_tool_name n} \<subseteq> set (names_after name names)"
    by (cases "filter is_micro_tool_name names") (auto simp: names_after_def MAX_MICRO_TOOL_DESCRIPTIONS_def intro: remove1_other [where P = is_micro_tool_name])
next
  have "set (remove1 a (names @ [name])) \<subseteq> insert name (set names)" for a
    using set_remove1_subset [of a "names @ [name]"] by simp
  then show "set (names_after name names) \<subseteq> insert name (set names)" by (auto simp only: names_after_def split: if_splits) auto
qed

lemma run_registrations_ok:
  "registry_ok (run_registrations regs ex)
    \<and> {n \<in> registration_name ` set regs. \<not> is_micro_tool_name n} \<subseteq> set (registered_tool_names (run_registrations regs ex))
    \<and> set (registered_tool_names (run_registrations regs ex)) \<subseteq> registration_name ` set regs
    \<and> dom (tools (run_registrations regs ex)) = registration_name ` set regs"
proof (induction regs rule: rev_induct)
  case Nil
  show ?case by (simp add: run_registrations_def registry_ok_def registered_tool_names_def index_ok_def)
next
  case (snoc reg regs)
  obtain name d ps h roles where reg: "reg = (name, d, ps, h, roles)" by (cases reg)
  let ?ex = "run_registrations regs ex"
  let ?ex1 = "?ex\<lparr>micro_tools := remove_readers_named name (micro_tools ?ex)\<rparr>"
  have "registry_ok ?ex1" using snoc.IH by (simp add: registry_ok_remove)
  from register_handler_step [OF this, of name d ps h roles]
  have step: "registry_ok (run_registrations (regs @ [reg]) ex)"
      "registered_tool_names (run_registrations (regs @ [reg]) ex) = names_after name (registered_tool_names ?ex)"
      "tools (run_registrations (regs @ [reg]) ex) = (tools ?ex)(name \<mapsto> h)"
    by (simp_all add: reg run_registrations_snoc register_tool_def registry_ok_remove)
  have all: "registration_name ` set (regs @ [reg]) = insert name (registration_name ` set regs)"
    by (simp add: reg registration_name_def)
  show ?case
    unfolding step(2,3) all
    using step(1) snoc.IH names_after_sets [of name "registered_tool_names ?ex"] by (simp only: dom_fun_upd) auto
qed

text \<open>
  C23: the registry stays consistent over every sequence of registrations: descriptions have distinct names, the
  index finds exactly the position of every described name, the order of the reader descriptions is the order they stand in
  and never holds more than five, a tool that is no reader is never dropped, and everything described has a handler.
\<close>

theorem registry_consistent:
  fixes ex :: "('w, 'f) tool_executor" and regs :: "'w registration list"
  shows "let reg = run_registrations regs ex; names = registered_tool_names reg in
    distinct names \<and> (\<forall>n i. description_indices reg n = Some i \<longleftrightarrow> i < length names \<and> names ! i = n)
    \<and> micro_description_order reg = filter is_micro_tool_name names \<and> length (micro_description_order reg) \<le> 5
    \<and> {n \<in> registration_name ` set regs. \<not> is_micro_tool_name n} \<subseteq> set names
    \<and> set names \<subseteq> dom (tools reg) \<and> dom (tools reg) = registration_name ` set regs"
  using run_registrations_ok [of regs ex]
  unfolding Let_def registry_ok_def index_ok_def MAX_MICRO_TOOL_DESCRIPTIONS_def by blast

section \<open>Histories of the security engine\<close>

datatype 'f engine_op =
    CheckExecution string security_context
  | CheckPermission string security_context permission_action string
  | AddPolicy "'f security_policy"
  | RemovePolicy string
  | WhitelistSkill string
  | RemoveFromWhitelist string
  | RequestApproval string security_context string
  | ApproveRequest string
  | RejectRequest string

fun run_engine_op ::
  "'f f32_lib \<Rightarrow> (string \<rightharpoonup> 'f skill_node) \<Rightarrow> 'f engine_op \<Rightarrow> 'f security_engine \<Rightarrow> 'f security_engine" where
  "run_engine_op fl get_skill (CheckExecution iri ctx) e = snd (check_execution fl get_skill iri ctx e)"
| "run_engine_op fl get_skill (CheckPermission iri ctx action resource) e = snd (check_permission get_skill iri ctx action resource e)"
| "run_engine_op fl get_skill (AddPolicy p) e = add_policy p e"
| "run_engine_op fl get_skill (RemovePolicy i) e = snd (remove_policy i e)"
| "run_engine_op fl get_skill (WhitelistSkill iri) e = whitelist_skill iri e"
| "run_engine_op fl get_skill (RemoveFromWhitelist iri) e = snd (remove_from_whitelist iri e)"
| "run_engine_op fl get_skill (RequestApproval iri ctx reason) e = request_approval iri ctx reason e"
| "run_engine_op fl get_skill (ApproveRequest iri) e = snd (approve_request iri e)"
| "run_engine_op fl get_skill (RejectRequest iri) e = snd (reject_request iri e)"

definition run_engine :: "'f f32_lib \<Rightarrow> (string \<rightharpoonup> 'f skill_node) \<Rightarrow> 'f engine_op list \<Rightarrow> 'f security_engine" where
  "run_engine fl get_skill ops = fold (run_engine_op fl get_skill) ops (new_engine fl)"

text \<open>Something happened, and nothing undid it since.\<close>

definition standing :: "('a list \<Rightarrow> 'a \<Rightarrow> bool) \<Rightarrow> 'a set \<Rightarrow> 'a list \<Rightarrow> bool" where
  "standing happened undone ops \<longleftrightarrow> (\<exists>xs op ys. ops = xs @ op # ys \<and> happened xs op \<and> set ys \<inter> undone = {})"

lemma standing_Nil [simp]: "\<not> standing happened undone []"
  by (simp add: standing_def)

lemma standing_snoc: "standing happened undone (ops @ [x]) \<longleftrightarrow> happened ops x \<or> x \<notin> undone \<and> standing happened undone ops"
proof
  assume "standing happened undone (ops @ [x])"
  then obtain xs op ys where s: "ops @ [x] = xs @ op # ys" "happened xs op" "set ys \<inter> undone = {}"
    by (auto simp: standing_def)
  then show "happened ops x \<or> x \<notin> undone \<and> standing happened undone ops"
  proof (cases ys rule: rev_cases)
    case (snoc zs z)
    then have "ops = xs @ op # zs" "x = z" using s(1) by simp_all
    then show ?thesis using s snoc by (auto simp: standing_def)
  qed (use s in auto)
next
  assume "happened ops x \<or> x \<notin> undone \<and> standing happened undone ops"
  then show "standing happened undone (ops @ [x])"
  proof
    assume "happened ops x"
    then show ?thesis unfolding standing_def by (intro exI [of _ ops] exI [of _ x] exI [of _ "[]"]) simp
  next
    assume "x \<notin> undone \<and> standing happened undone ops"
    then obtain xs op ys where "ops = xs @ op # ys" "happened xs op" "set (ys @ [x]) \<inter> undone = {}"
      by (auto simp: standing_def)
    then show ?thesis unfolding standing_def by (intro exI [of _ xs] exI [of _ op] exI [of _ "ys @ [x]"]) simp
  qed
qed

definition pending :: "string \<Rightarrow> 'f engine_op list \<Rightarrow> bool" where
  "pending iri = standing (\<lambda>_ op. \<exists>ctx reason. op = RequestApproval iri ctx reason) {ApproveRequest iri, RejectRequest iri}"

definition whitelisted :: "string \<Rightarrow> 'f engine_op list \<Rightarrow> bool" where
  "whitelisted iri = standing (\<lambda>before op. op = WhitelistSkill iri \<or> op = ApproveRequest iri \<and> pending iri before)
     {RemoveFromWhitelist iri}"

lemma audit_frame [simp]:
  "approval_queue (add_audit_entry iri agent action outcome e) = approval_queue e"
  "whitelisted_skills (add_audit_entry iri agent action outcome e) = whitelisted_skills e"
  by (simp_all add: add_audit_entry_def Let_def)

lemma audit_bounded:
  "length (audit_log e) \<le> 10000 \<Longrightarrow> length (audit_log (add_audit_entry iri agent action outcome e)) \<le> 10000"
  by (auto simp: add_audit_entry_def Let_def)

lemma check_frame [simp]:
  "approval_queue (snd (check_execution fl gs iri ctx e)) = approval_queue e"
  "whitelisted_skills (snd (check_execution fl gs iri ctx e)) = whitelisted_skills e"
  "approval_queue (snd (check_permission gs iri ctx action resource e)) = approval_queue e"
  "whitelisted_skills (snd (check_permission gs iri ctx action resource e)) = whitelisted_skills e"
  by (auto simp: check_execution_def check_permission_def Let_def split: option.splits security_decision.splits)

lemma check_bounded:
  "length (audit_log e) \<le> 10000 \<Longrightarrow> length (audit_log (run_engine_op fl gs op e)) \<le> 10000"
  by (cases op) (auto simp: check_execution_def check_permission_def add_policy_def remove_policy_def whitelist_skill_def
      remove_from_whitelist_def request_approval_def approve_request_def reject_request_def Let_def
      intro: audit_bounded split: option.splits security_decision.splits)

lemma run_engine_snoc: "run_engine fl gs (ops @ [op]) = run_engine_op fl gs op (run_engine fl gs ops)"
  by (simp add: run_engine_def)

lemma shorter_iff: "length (filter P xs) < length xs \<longleftrightarrow> (\<exists>x \<in> set xs. \<not> P x)"
  by (metis (mono_tags, lifting) filter_True length_filter_le length_filter_less nat_less_le)

lemma queue_pending: "(\<exists>ctx reason. (iri, ctx, reason) \<in> set (approval_queue (run_engine fl gs ops))) \<longleftrightarrow> pending iri ops"
proof (induction ops rule: rev_induct)
  case (snoc op ops)
  show ?case
    using snoc.IH
    by (cases op) (auto simp: run_engine_snoc pending_def standing_snoc add_policy_def remove_policy_def whitelist_skill_def
        remove_from_whitelist_def request_approval_def approve_request_def reject_request_def Let_def)
qed (simp add: run_engine_def new_engine_def pending_def)

lemma whitelist_history: "iri \<in> whitelisted_skills (run_engine fl gs ops) \<longleftrightarrow> whitelisted iri ops"
proof (induction ops rule: rev_induct)
  case (snoc op ops)
  show ?case
    using snoc.IH queue_pending [of iri fl gs ops]
    by (cases op) (auto simp: run_engine_snoc whitelisted_def standing_snoc add_policy_def remove_policy_def whitelist_skill_def
        remove_from_whitelist_def request_approval_def approve_request_def reject_request_def Let_def shorter_iff)
qed (simp add: run_engine_def new_engine_def whitelisted_def)


end
