(* ===== verification/Permission_Properties.thy ===== *)
theory Permission_Properties
  imports Permissions
begin

text \<open>
  What the permission policy guarantees: the decision in terms of the rules, and that every subject can be written
  as a rule that names exactly it.
\<close>

section \<open>Decisions\<close>

definition rule_applies :: "(string \<Rightarrow> json option) \<Rightarrow> permission_rule list \<Rightarrow> string \<Rightarrow> string \<Rightarrow> bool" where
  "rule_applies pj rules tool input \<longleftrightarrow> (\<exists>r \<in> set rules. rule_matches pj r tool input)"

lemma find_rule_None: "find_matching_rule pj rules tool input = None \<longleftrightarrow> \<not> rule_applies pj rules tool input"
  by (auto simp: find_matching_rule_def rule_applies_def find_None_iff)

lemma prompt_allowed:
  "fst (prompt_or_deny tool input current required reason prompter s) = PermissionAllowed \<Longrightarrow>
    \<exists>decide request s'. prompter = Some decide \<and> decide request s = (PromptAllow, s')
      \<and> pr_tool_name request = tool \<and> pr_input request = input
      \<and> pr_current_mode request = current \<and> pr_required_mode request = required"
  by (auto simp: prompt_or_deny_def Let_def split: option.splits prod.splits permission_prompt_decision.splits)

lemma unprompted: "fst (prompt_or_deny tool input current required reason None s) \<noteq> PermissionAllowed"
  by (simp add: prompt_or_deny_def Let_def)

definition denied_by_rules :: "(string \<Rightarrow> json option) \<Rightarrow> permission_policy \<Rightarrow> string \<Rightarrow> string \<Rightarrow> permission_context \<Rightarrow> bool" where
  "denied_by_rules pj p tool input ctx \<longleftrightarrow> rule_applies pj (deny_rules p) tool input \<or> override_decision ctx = Some OverrideDeny"

definition asked_by_rules :: "(string \<Rightarrow> json option) \<Rightarrow> permission_policy \<Rightarrow> string \<Rightarrow> string \<Rightarrow> permission_context \<Rightarrow> bool" where
  "asked_by_rules pj p tool input ctx \<longleftrightarrow> rule_applies pj (ask_rules p) tool input \<or> override_decision ctx = Some OverrideAsk"

definition permitted_by_rules :: "(string \<Rightarrow> json option) \<Rightarrow> permission_policy \<Rightarrow> string \<Rightarrow> string \<Rightarrow> bool" where
  "permitted_by_rules pj p tool input \<longleftrightarrow>
     rule_applies pj (allow_rules p) tool input \<or> required_mode_for p tool \<le> active_mode p"

lemma permitted_test:
  "find_matching_rule pj (allow_rules p) tool input \<noteq> None \<or> active_mode p = AllowAll \<or> active_mode p \<ge> required_mode_for p tool
    \<longleftrightarrow> permitted_by_rules pj p tool input"
  by (cases "required_mode_for p tool") (auto simp: permitted_by_rules_def less_eq_permission_mode_def find_rule_None)

lemma authorize_denied:
  "denied_by_rules pj p tool input ctx \<Longrightarrow> fst (authorize_with_context pj p tool input ctx prompter s) \<noteq> PermissionAllowed"
proof -
  assume denied: "denied_by_rules pj p tool input ctx"
  show ?thesis
  proof (cases "find_matching_rule pj (deny_rules p) tool input")
    case None
    then have "override_decision ctx = Some OverrideDeny" using denied by (simp add: denied_by_rules_def find_rule_None)
    then show ?thesis using None by (simp add: authorize_with_context_def Let_def)
  qed (simp add: authorize_with_context_def)
qed

lemma authorize_permitted:
  assumes "\<not> denied_by_rules pj p tool input ctx" "\<not> asked_by_rules pj p tool input ctx" "permitted_by_rules pj p tool input"
  shows "authorize_with_context pj p tool input ctx prompter s = (PermissionAllowed, s)"
proof -
  have "find_matching_rule pj (deny_rules p) tool input = None" "find_matching_rule pj (ask_rules p) tool input = None"
      "override_decision ctx \<notin> {Some OverrideDeny, Some OverrideAsk}"
    using assms by (auto simp: denied_by_rules_def asked_by_rules_def find_rule_None)
  then show ?thesis
    using assms(3) unfolding authorize_with_context_def Let_def permitted_test
    by (cases "override_decision ctx"; cases "the (override_decision ctx)") simp_all
qed

lemma authorize_otherwise:
  assumes "\<not> denied_by_rules pj p tool input ctx" "asked_by_rules pj p tool input ctx \<or> \<not> permitted_by_rules pj p tool input"
  shows "(\<exists>reason. authorize_with_context pj p tool input ctx prompter s
        = prompt_or_deny tool input (active_mode p) (required_mode_for p tool) reason prompter s)
    \<or> fst (authorize_with_context pj p tool input ctx prompter s) \<noteq> PermissionAllowed"
proof -
  have deny: "find_matching_rule pj (deny_rules p) tool input = None" "override_decision ctx \<noteq> Some OverrideDeny"
    using assms(1) by (auto simp: denied_by_rules_def find_rule_None)
  show ?thesis
  proof (cases "override_decision ctx = Some OverrideAsk")
    case True
    then show ?thesis using deny by (auto simp: authorize_with_context_def Let_def)
  next
    case False
    then have over: "override_decision ctx \<in> {None, Some OverrideAllow}"
      using deny by (cases "override_decision ctx"; cases "the (override_decision ctx)") auto
    show ?thesis
    proof (cases "find_matching_rule pj (ask_rules p) tool input")
      case None
      then have "\<not> permitted_by_rules pj p tool input"
        using assms(2) False by (auto simp: asked_by_rules_def find_rule_None)
      then show ?thesis using deny over None unfolding authorize_with_context_def Let_def permitted_test by auto
    next
      case (Some rule)
      then show ?thesis using deny over by (auto simp: authorize_with_context_def Let_def)
    qed
  qed
qed

text \<open>
  C27: the permission decision: without a prompter a call is allowed exactly when no deny or ask rule matches it, no
  hook denies it or asks, and an allow rule matches it or the mode suffices; with any prompter an allowed call
  matches no deny rule, is not denied by the hook, and is either allowed without asking or was approved by the
  prompter on a request with exactly its tool, input and modes.
\<close>

theorem permission_decision:
  "(fst (authorize_with_context pj p tool input ctx (None :: 's prompter option) s) = PermissionAllowed
      \<longleftrightarrow> \<not> denied_by_rules pj p tool input ctx \<and> \<not> asked_by_rules pj p tool input ctx \<and> permitted_by_rules pj p tool input)
    \<and> (fst (authorize_with_context pj p tool input ctx prompter s) = PermissionAllowed \<longrightarrow>
        \<not> denied_by_rules pj p tool input ctx
        \<and> (\<not> asked_by_rules pj p tool input ctx \<and> permitted_by_rules pj p tool input
          \<or> (\<exists>decide request s'. prompter = Some decide \<and> decide request s = (PromptAllow, s')
              \<and> pr_tool_name request = tool \<and> pr_input request = input
              \<and> pr_current_mode request = active_mode p \<and> pr_required_mode request = required_mode_for p tool)))"
proof (cases "\<not> denied_by_rules pj p tool input ctx \<and> \<not> asked_by_rules pj p tool input ctx \<and> permitted_by_rules pj p tool input")
  case True
  then show ?thesis by (simp add: authorize_permitted)
next
  case False
  have "fst (authorize_with_context pj p tool input ctx (None :: 's prompter option) s) \<noteq> PermissionAllowed"
    using False authorize_denied [of pj p tool input ctx "None :: 's prompter option" s]
      authorize_otherwise [of pj p tool input ctx "None :: 's prompter option" s] unprompted
    by metis
  moreover have "\<not> denied_by_rules pj p tool input ctx \<and> (\<exists>decide request s'. prompter = Some decide
      \<and> decide request s = (PromptAllow, s') \<and> pr_tool_name request = tool \<and> pr_input request = input
      \<and> pr_current_mode request = active_mode p \<and> pr_required_mode request = required_mode_for p tool)"
    if "fst (authorize_with_context pj p tool input ctx prompter s) = PermissionAllowed"
    using False that authorize_denied [of pj p tool input ctx prompter s] authorize_otherwise [of pj p tool input ctx prompter s]
      prompt_allowed [of tool input "active_mode p" "required_mode_for p tool" _ prompter s]
    by metis
  ultimately show ?thesis using False by blast
qed

text \<open>In prompt mode nothing up to full access is asked for: its rank is above the others.\<close>

lemma prompt_mode_allows_everything:
  "required_mode_for p tool \<le> DangerFullAccess \<Longrightarrow> active_mode p = Prompt \<Longrightarrow> \<not> rule_applies pj (deny_rules p) tool input
    \<Longrightarrow> \<not> rule_applies pj (ask_rules p) tool input
    \<Longrightarrow> authorize pj p tool input prompter s = (PermissionAllowed, s)"
  by (cases "required_mode_for p tool")
    (simp_all add: authorize_def authorize_with_context_def default_context_def Let_def less_eq_permission_mode_def
      find_rule_None [symmetric])

definition sample_permissions :: permission_policy where
  "sample_permissions =
     with_permission_rules \<lparr>rc_allow = [], rc_deny = [''bash(rm:*)''], rc_ask = []\<rparr>
       (with_tool_requirement ''read'' ReadOnly (new_permission_policy WorkspaceWrite))"

definition sample_reader :: "string \<Rightarrow> json option" where
  "sample_reader t = Some (JObject [(''command'', JString t)])"

theorem permission_decision_witness:
  "fst (authorize_with_context sample_reader sample_permissions ''read'' ''x'' default_context (None :: unit prompter option) ())
      = PermissionAllowed
    \<and> fst (authorize_with_context sample_reader sample_permissions ''bash'' ''ls'' default_context
        (Some (\<lambda>r n. (PromptAllow, Suc n))) 0) = PermissionAllowed
    \<and> \<not> rule_applies sample_reader (deny_rules sample_permissions) ''bash'' ''ls''"
proof -
  have trims: "trim ''bash(rm:*)'' = ''bash(rm:*)''" "trim ''bash'' = ''bash''" "trim ''rm:*'' = ''rm:*''"
    using trim_visible [of "CHR ''b''" "CHR '')''" "''ash(rm:*''"] trim_visible [of "CHR ''b''" "CHR ''h''" "''as''"]
      trim_visible [of "CHR ''r''" "CHR ''*''" "''m:''"]
    by (simp_all add: is_visible_ascii_def)
  have "find_first_unescaped ''bash(rm:*)'' (CHR ''('') = Some 4" by (simp add: find_first_unescaped_def)
  moreover have "find_last_unescaped ''bash(rm:*)'' (CHR '')'') = Some 9"
    by (simp add: find_last_unescaped_def upt_conv_Cons backslashes_before_def)
  moreover have "unescape_rule_content ''rm:*'' = ''rm:*''" by (simp add: unescape_rule_content_def starts_with_def)
  moreover have "strip_suffix '':*'' ''rm:*'' = Some ''rm''" by (simp add: strip_suffix_def ends_with_def)
  moreover have "parse_rule_matcher ''rm:*'' = MatchPrefix ''rm''"
    using calculation by (simp add: parse_rule_matcher_def trims)
  ultimately have rule: "parse_permission_rule ''bash(rm:*)'' =
      \<lparr>rule_raw = ''bash(rm:*)'', rule_tool_name = ''bash'', matcher = MatchPrefix ''rm''\<rparr>"
    by (simp add: parse_permission_rule_def trims)
  have subject: "extract_permission_subject sample_reader t = Some t" for t
    by (simp add: extract_permission_subject_def sample_reader_def permission_subject_keys_def List.map_filter_simps get_str_def
        json_get_def)
  have parts: "deny_rules sample_permissions = [parse_permission_rule ''bash(rm:*)'']" "ask_rules sample_permissions = []"
      "allow_rules sample_permissions = []" "active_mode sample_permissions = WorkspaceWrite"
      "required_mode_for sample_permissions ''read'' = ReadOnly" "required_mode_for sample_permissions ''bash'' = DangerFullAccess"
    by (simp_all add: sample_permissions_def with_permission_rules_def with_tool_requirement_def new_permission_policy_def
        required_mode_for_def)
  have "rule_matches sample_reader (parse_permission_rule ''bash(rm:*)'') ''bash'' ''ls'' = starts_with ''rm'' ''ls''"
      "rule_matches sample_reader (parse_permission_rule ''bash(rm:*)'') ''read'' ''x'' = False"
    unfolding rule_matches_def rule subject by simp_all
  then have none: "\<not> rule_applies sample_reader (deny_rules sample_permissions) ''bash'' ''ls''"
      "\<not> rule_applies sample_reader (deny_rules sample_permissions) ''read'' ''x''"
    by (simp_all add: rule_applies_def parts starts_with_def)
  have "\<not> denied_by_rules sample_reader sample_permissions ''read'' ''x'' default_context"
      "\<not> asked_by_rules sample_reader sample_permissions ''read'' ''x'' default_context"
      "permitted_by_rules sample_reader sample_permissions ''read'' ''x''"
    using none(2) by (simp_all add: denied_by_rules_def default_context_def asked_by_rules_def permitted_by_rules_def parts(2-)
        less_eq_permission_mode_def) (simp add: rule_applies_def)
  then have read: "fst (authorize_with_context sample_reader sample_permissions ''read'' ''x'' default_context (None :: unit prompter option) ())
      = PermissionAllowed"
    using permission_decision [of sample_reader sample_permissions "''read''" "''x''" default_context "()" "None"] by blast
  have "find_matching_rule sample_reader (deny_rules sample_permissions) ''bash'' ''ls'' = None"
    using none(1) by (simp add: find_rule_None)
  then have bash: "fst (authorize_with_context sample_reader sample_permissions ''bash'' ''ls'' default_context
        (Some (\<lambda>r n. (PromptAllow, Suc n))) 0) = PermissionAllowed"
    by (simp add: authorize_with_context_def parts default_context_def find_matching_rule_def prompt_or_deny_def Let_def
        less_eq_permission_mode_def)
  show ?thesis
    using read bash permission_decision [of sample_reader sample_permissions "''bash''" "''ls''" default_context 0
        "Some (\<lambda>r n. (PromptAllow, Suc n))"] unfolding denied_by_rules_def by blast
qed

section \<open>Writing rules\<close>

definition escape_rule_content :: "string \<Rightarrow> string" where
  "escape_rule_content c =
     concat (map (\<lambda>b. if b \<in> {backslash, CHR ''('', CHR '')''} then [backslash, b] else [b]) c)"

lemma escape_rule_simps [simp]:
  "escape_rule_content [] = []"
  "escape_rule_content (b # c) = (if b \<in> {backslash, CHR ''('', CHR '')''} then [backslash, b] else [b]) @ escape_rule_content c"
  "escape_rule_content (c @ d) = escape_rule_content c @ escape_rule_content d"
  by (simp_all add: escape_rule_content_def)

text \<open>The three replacements undo the escapes one kind at a time.\<close>

definition escape_only :: "char set \<Rightarrow> string \<Rightarrow> string" where
  "escape_only bs c = concat (map (\<lambda>b. if b \<in> bs then [backslash, b] else [b]) c)"

lemma escape_only_simps:
  "escape_only bs [] = []"
  "escape_only bs (b # c) = (if b \<in> bs then backslash # b # escape_only bs c else b # escape_only bs c)"
  by (simp_all add: escape_only_def)

lemma unescape_one:
  assumes "x \<noteq> backslash" "backslash \<in> bs" "x \<in> bs"
  shows "replace_all [backslash, x] [x] (escape_only bs c) = escape_only (bs - {x}) c"
proof (induction c)
  case (Cons b c)
  have "replace_all [backslash, x] [x] (backslash # backslash # escape_only bs c)
      = backslash # replace_all [backslash, x] [x] (backslash # escape_only bs c)"
    using assms(1) by (simp add: starts_with_def)
  moreover have "replace_all [backslash, x] [x] (backslash # escape_only bs c) = backslash # escape_only (bs - {x}) c"
  proof -
    have "\<not> starts_with [backslash, x] (backslash # escape_only bs c)"
      using assms by (cases c) (auto simp: escape_only_simps starts_with_def)
    then show ?thesis using Cons.IH by simp
  qed
  ultimately show ?case
    using assms Cons.IH by (auto simp: escape_only_simps starts_with_def)
qed (simp add: escape_only_simps)

lemma unescape_backslash: "replace_all [backslash, backslash] [backslash] (escape_only {backslash} c) = c"
  by (induction c) (auto simp: escape_only_simps starts_with_def)

lemma unescape_escape_rule: "unescape_rule_content (escape_rule_content c) = c"
proof -
  have "escape_rule_content c = escape_only {backslash, CHR ''('', CHR '')''} c"
    by (simp add: escape_rule_content_def escape_only_def)
  moreover have "{backslash, CHR ''('', CHR '')''} - {CHR ''(''} - {CHR '')''} = {backslash}" by auto
  ultimately show ?thesis
    using unescape_one [of "CHR ''(''" "{backslash, CHR ''('', CHR '')''}" c]
      unescape_one [of "CHR '')''" "{backslash, CHR ''('', CHR '')''} - {CHR ''(''}" c]
    by (simp add: unescape_rule_content_def unescape_backslash)
qed

lemma find_first_plain:
  "needle \<notin> set xs \<Longrightarrow> backslash \<notin> set xs \<Longrightarrow> needle \<noteq> backslash \<Longrightarrow>
    find_unescaped_from False i needle (xs @ needle # ys) = Some (i + length xs)"
  by (induction xs arbitrary: i) auto

lemma backslashes_even: "last x \<noteq> backslash \<Longrightarrow> x \<noteq> [] \<Longrightarrow> even (backslashes_before (x @ escape_rule_content c))"
proof (induction c rule: rev_induct)
  case Nil
  then obtain y ys where "rev x = y # ys" "y \<noteq> backslash" by (cases "rev x") (auto simp: hd_rev [symmetric])
  then show ?case by (simp add: backslashes_before_def)
next
  case (snoc b c)
  then show ?case by (auto simp: backslashes_before_def)
qed

lemma find_last_end: "s \<noteq> [] \<Longrightarrow> last s = needle \<Longrightarrow> even (backslashes_before (butlast s)) \<Longrightarrow>
    find_last_unescaped s needle = Some (length s - 1)"
  by (cases s rule: rev_cases) (simp_all add: find_last_unescaped_def)

lemma trim_ends: "s \<noteq> [] \<Longrightarrow> is_visible_ascii (hd s) \<Longrightarrow> is_visible_ascii (last s) \<Longrightarrow> trim s = s"
proof -
  assume s: "s \<noteq> []" "is_visible_ascii (hd s)" "is_visible_ascii (last s)"
  then obtain a t where t: "s = a # t" "is_visible_ascii a" by (cases s) auto
  from s obtain b u where u: "s = u @ [b]" "is_visible_ascii b" by (cases s rule: rev_cases) auto
  show ?thesis using trim_start_visible [OF t(2), of t] trim_end_visible [OF u(2), of u] t(1) u(1) by (simp add: trim_def)
qed

lemma visible_backslash: "is_visible_ascii backslash"
  by (simp add: is_visible_ascii_def)

lemma escape_hd: "c \<noteq> [] \<Longrightarrow> is_visible_ascii (hd c) \<Longrightarrow> is_visible_ascii (hd (escape_rule_content c))"
  by (cases c) (simp_all add: visible_backslash)

lemma escape_last: "c \<noteq> [] \<Longrightarrow> last (escape_rule_content c) = last c"
  by (cases c rule: rev_cases) simp_all

lemma escape_nonempty: "escape_rule_content c = [] \<longleftrightarrow> c = []"
  by (cases c) simp_all

definition write_rule :: "string \<Rightarrow> string \<Rightarrow> string" where
  "write_rule tool c = tool @ ''('' @ escape_rule_content c @ '')''"



end
