(* ===== verification/Workspace_Path.thy ===== *)
theory Workspace_Path
  imports Prelude
begin

text \<open>
  Where the file tools may reach (\<open>src/tools/workspace_path.rs\<close>, the guard of \<open>glob_search\<close> in
  \<open>tool_executor/builtins.rs\<close>). A path is the list of its components, as \<open>Path::components\<close> yields them on Unix
  (where there is no \<open>Prefix\<close>). The file system is a map from locations to entries, with symbolic links; following a
  path in it is what \<open>std::fs::canonicalize\<close> and \<open>open\<close> do.
\<close>

section \<open>Paths\<close>

datatype path_component = RootDir | CurDir | ParentDir | Normal string

type_synonym path = "path_component list"
type_synonym location = "string list"

fun segment_component :: "string \<Rightarrow> path_component" where
  "segment_component s = (if s = ''..'' then ParentDir else Normal s)"

text \<open>Empty segments and \<open>.\<close> are skipped, except for a leading \<open>.\<close> of a relative path.\<close>

definition components :: "string \<Rightarrow> path" where
  "components s =
     (let segs = split_char (CHR ''/'') s;
          kept = map segment_component (filter (\<lambda>x. x \<noteq> [] \<and> x \<noteq> ''.'') segs)
      in if s = [] then []
         else if hd segs = [] then RootDir # kept
         else if hd segs = ''.'' then CurDir # kept
         else kept)"

definition is_absolute :: "path \<Rightarrow> bool" where
  "is_absolute p \<longleftrightarrow> (case p of RootDir # _ \<Rightarrow> True | _ \<Rightarrow> False)"

text \<open>\<open>PathBuf::push\<close>, \<open>pop\<close>, \<open>file_name\<close> and \<open>parent\<close>; pushing an absolute path replaces the whole.\<close>

definition push :: "path_component \<Rightarrow> path \<Rightarrow> path" where
  "push c p = (if c = RootDir then [RootDir] else p @ [c])"

definition parent_of :: "path \<Rightarrow> path option" where
  "parent_of p = (if p = [] \<or> last p = RootDir then None else Some (butlast p))"

definition pop :: "path \<Rightarrow> path" where
  "pop p = (case parent_of p of None \<Rightarrow> p | Some q \<Rightarrow> q)"

definition file_name :: "path \<Rightarrow> string option" where
  "file_name p = (if p = [] then None else case last p of Normal s \<Rightarrow> Some s | _ \<Rightarrow> None)"

definition at_location :: "location \<Rightarrow> path" where
  "at_location l = RootDir # map Normal l"

section \<open>The file system\<close>

datatype file_entry = Directory | File | Link path

datatype io_error = IoNotFound | NotADirectory | TooManyLinks | OtherError

record disk =
  entries :: "location \<Rightarrow> file_entry option"
  current_dir :: "location option"
  max_links :: nat

text \<open>
  The location a path leads to from a directory. Links are followed, the last component included, at most
  \<open>max_links\<close> of them. With \<open>create\<close> the last component need not exist: this is what opening a file for
  writing does, also through a link whose target is missing.
\<close>

function follow ::
  "bool \<Rightarrow> (location \<Rightarrow> file_entry option) \<Rightarrow> nat \<Rightarrow> location \<Rightarrow> path \<Rightarrow> io_error + location" where
  "follow create ents n l [] = Inr l"
| "follow create ents n l (RootDir # cs) = follow create ents n [] cs"
| "follow create ents n l (CurDir # cs) = follow create ents n l cs"
| "follow create ents n l (ParentDir # cs) = follow create ents n (butlast l) cs"
| "follow create ents n l (Normal s # cs) =
     (case ents (l @ [s]) of
        None \<Rightarrow> if create \<and> cs = [] then Inr (l @ [s]) else Inl IoNotFound
      | Some Directory \<Rightarrow> follow create ents n (l @ [s]) cs
      | Some File \<Rightarrow> if cs = [] then Inr (l @ [s]) else Inl NotADirectory
      | Some (Link t) \<Rightarrow> (case n of 0 \<Rightarrow> Inl TooManyLinks | Suc m \<Rightarrow> follow create ents m l (t @ cs)))"
  by pat_completeness auto
termination
  by (relation "measures [\<lambda>(create, ents, n, l, cs). n, \<lambda>(create, ents, n, l, cs). length cs]") auto

definition start_of :: "disk \<Rightarrow> io_error + location" where
  "start_of fs = ok_or OtherError (current_dir fs)"

text \<open>\<open>canonicalize\<close>, and the location an \<open>open\<close> of a path reaches; a relative path starts at the current directory.\<close>

definition canonicalize :: "disk \<Rightarrow> path \<Rightarrow> io_error + path" where
  "canonicalize fs p =
     and_then (if is_absolute p then Inr [] else start_of fs)
       (\<lambda>l. and_then (follow False (entries fs) (max_links fs) l p) (\<lambda>q. Inr (at_location q)))"

definition opened_at :: "bool \<Rightarrow> disk \<Rightarrow> path \<Rightarrow> io_error + location" where
  "opened_at create fs p =
     and_then (if is_absolute p then Inr [] else start_of fs)
       (\<lambda>l. follow create (entries fs) (max_links fs) l p)"

section \<open>The workspace\<close>

datatype path_error = WorkspaceUnavailable io_error | Unresolvable io_error | OutsideWorkspace

text \<open>The \<open>loop\<close>: the longest existing prefix is canonicalised, the names below it are appended.\<close>

function canonicalize_existing_prefix :: "disk \<Rightarrow> path \<Rightarrow> string list \<Rightarrow> io_error + path" where
  "canonicalize_existing_prefix fs current suffix =
     (case canonicalize fs current of
        Inr canonical \<Rightarrow> Inr (fold (\<lambda>s p. push (Normal s) p) (rev suffix) canonical)
      | Inl IoNotFound \<Rightarrow>
          (case file_name current of
             None \<Rightarrow> Inl IoNotFound
           | Some name \<Rightarrow>
               (case parent_of current of
                  None \<Rightarrow> Inl IoNotFound
                | Some parent \<Rightarrow> canonicalize_existing_prefix fs parent (suffix @ [name])))
      | Inl e \<Rightarrow> Inl e)"
  by pat_completeness auto
termination
  by (relation "measure (\<lambda>(fs, current, suffix). length current)") (auto simp: parent_of_def split: if_splits)

declare canonicalize_existing_prefix.simps [simp del]

text \<open>The lexical normalisation of the path on top of the workspace.\<close>

fun candidate_step :: "path_component \<Rightarrow> path \<Rightarrow> path" where
  "candidate_step RootDir candidate = push RootDir candidate"
| "candidate_step CurDir candidate = candidate"
| "candidate_step ParentDir candidate = pop candidate"
| "candidate_step (Normal s) candidate = push (Normal s) candidate"

definition candidate_path :: "path \<Rightarrow> path \<Rightarrow> path" where
  "candidate_path workspace p = fold candidate_step p (if is_absolute p then [] else workspace)"

definition canonicalize_path_within_workspace :: "disk \<Rightarrow> path \<Rightarrow> path \<Rightarrow> path_error + path" where
  "canonicalize_path_within_workspace fs p workspace =
     and_then (map_err WorkspaceUnavailable (canonicalize fs workspace)) (\<lambda>workspace.
     and_then (map_err Unresolvable (canonicalize_existing_prefix fs (candidate_path workspace p) [])) (\<lambda>canonical.
       if take (length workspace) canonical = workspace then Inr canonical else Inl OutsideWorkspace))"

definition canonicalize_workspace_path :: "disk \<Rightarrow> string \<Rightarrow> path_error + path" where
  "canonicalize_workspace_path fs s =
     and_then (ok_or (WorkspaceUnavailable OtherError) (current_dir fs)) (\<lambda>w.
       canonicalize_path_within_workspace fs (components s) (at_location w))"

text \<open>\<open>glob_search\<close>: the pattern is joined to the resolved root, so it must not be absolute or climb.\<close>

definition reject_escaping_glob_pattern :: "string \<Rightarrow> bool" where
  "reject_escaping_glob_pattern pattern \<longleftrightarrow>
     is_absolute (components pattern) \<or> list_ex (\<lambda>c. c = ParentDir) (components pattern)"

end
