(* ===== verification/Workspace_Properties.thy ===== *)
theory Workspace_Properties
  imports Workspace_Path
begin

text \<open>
  A path the workspace check accepts is opened inside the workspace, unless it runs through a link whose target is
  missing; the check accepts an existing path exactly when the system resolves it into the workspace.
\<close>

section \<open>Following paths\<close>

definition directories :: "(location \<Rightarrow> file_entry option) \<Rightarrow> location \<Rightarrow> bool" where
  "directories ents l \<longleftrightarrow> (\<forall>k. 0 < k \<and> k \<le> length l \<longrightarrow> ents (take k l) = Some Directory)"

text \<open>A location with nothing but directories above it, and no link in it.\<close>

definition resolved :: "(location \<Rightarrow> file_entry option) \<Rightarrow> location \<Rightarrow> bool" where
  "resolved ents l \<longleftrightarrow> directories ents l \<or> (l \<noteq> [] \<and> directories ents (butlast l) \<and> ents l = Some File)"

lemma directories_Nil [simp]: "directories ents []"
  by (simp add: directories_def)

lemma directories_snoc [simp]: "directories ents (l @ [s]) \<longleftrightarrow> directories ents l \<and> ents (l @ [s]) = Some Directory"
proof -
  have "k \<le> Suc (length l) \<longleftrightarrow> k \<le> length l \<or> k = Suc (length l)" for k by linarith
  then show ?thesis by (auto simp: directories_def)
qed

lemma directories_butlast: "directories ents l \<Longrightarrow> directories ents (butlast l)"
  by (cases l rule: rev_cases) simp_all

lemma directories_append: "directories ents (l @ r) \<Longrightarrow> directories ents l"
  by (induction r rule: rev_induct) (simp_all del: append_assoc add: append_assoc [symmetric])

lemma directories_not_file: "directories ents l \<Longrightarrow> l \<noteq> [] \<Longrightarrow> ents l = Some Directory"
  by (cases l rule: rev_cases) simp_all

lemma follow_resolved:
  "follow False ents n l cs = Inr q \<Longrightarrow> directories ents l \<Longrightarrow> resolved ents q"
  by (induction "False" ents n l cs rule: follow.induct)
    (auto simp: resolved_def directories_butlast split: option.splits file_entry.splits if_splits nat.splits)

lemma follow_directories:
  "directories ents (l @ ns) \<Longrightarrow> follow create ents n l (map Normal ns @ cs) = follow create ents n (l @ ns) cs"
proof (induction ns arbitrary: l)
  case (Cons s ns)
  have "directories ents (l @ [s])" using directories_append [of ents "l @ [s]" ns] Cons.prems by simp
  then show ?case using Cons.IH [of "l @ [s]"] Cons.prems by simp
qed simp

lemma follow_at_resolved: "resolved ents l \<Longrightarrow> follow create ents n [] (map Normal l) = Inr l"
proof (cases "directories ents l")
  case True
  then show ?thesis using follow_directories [of ents "[]" l create n "[]"] by simp
next
  case False
  assume "resolved ents l"
  then obtain d s where l: "l = d @ [s]" and d: "directories ents d" and f: "ents (d @ [s]) = Some File"
    using False by (cases l rule: rev_cases) (auto simp: resolved_def)
  show ?thesis using follow_directories [of ents "[]" d create n "[Normal s]"] d f by (simp add: l)
qed

lemma follow_append:
  assumes "follow False ents n l xs = Inr q" and "directories ents l" and "ys \<noteq> []"
  shows "\<exists>m \<le> n. follow False ents n l (xs @ ys) =
           (if q \<noteq> [] \<and> ents q = Some File then Inl NotADirectory else follow False ents m q ys)"
  using assms
proof (induction "False" ents n l xs rule: follow.induct)
  case (1 ents n l)
  then show ?case using directories_not_file [of ents l] by auto
next
  case (5 ents n l s cs)
  show ?case
  proof (cases "ents (l @ [s])")
    case None
    then show ?thesis using 5 by simp
  next
    case (Some e)
    show ?thesis
    proof (cases e)
      case (Link t)
      then obtain k where n: "n = Suc k" using "5.prems"(1) Some by (cases n) simp_all
      have "follow False ents k l (t @ cs) = Inr q" using "5.prems"(1) Some Link n by simp
      from "5.hyps"(2) [OF Some Link n this "5.prems"(2,3)] obtain m where "m \<le> k"
        "follow False ents k l ((t @ cs) @ ys) = (if q \<noteq> [] \<and> ents q = Some File then Inl NotADirectory else follow False ents m q ys)"
        by blast
      then show ?thesis using Some Link n by (intro exI [of _ m]) simp
    next
      case Directory
      then have "follow False ents n (l @ [s]) cs = Inr q" using "5.prems"(1) Some by simp
      from "5.hyps"(1) [OF Some Directory this _ "5.prems"(3)] show ?thesis using "5.prems"(2) Some Directory by simp
    next
      case File
      then show ?thesis using "5.prems"(1,3) Some by (auto split: if_splits)
    qed
  qed
qed (auto simp: directories_butlast)

lemma follow_more_links:
  "follow create ents m l cs \<noteq> Inl TooManyLinks \<Longrightarrow> m \<le> n \<Longrightarrow> follow create ents n l cs = follow create ents m l cs"
proof (induction create ents m l cs arbitrary: n rule: follow.induct)
  case (2 create ents m l cs)
  show ?case using "2.IH" [OF _ "2.prems"(2)] "2.prems" by simp
next
  case (3 create ents m l cs)
  show ?case using "3.IH" [OF _ "3.prems"(2)] "3.prems" by simp
next
  case (4 create ents m l cs)
  show ?case using "4.IH" [OF _ "4.prems"(2)] "4.prems" by simp
next
  case (5 create ents m l s cs)
  show ?case
  proof (cases "ents (l @ [s])")
    case (Some e)
    show ?thesis
    proof (cases e)
      case (Link t)
      then obtain k where k: "m = Suc k" using "5.prems"(1) Some by (cases m) simp_all
      then obtain j where j: "n = Suc j" "k \<le> j" using "5.prems"(2) by (cases n) simp_all
      have "follow create ents k l (t @ cs) \<noteq> Inl TooManyLinks" using "5.prems"(1) Some Link k by simp
      from "5.IH"(2) [OF Some Link k this j(2)] show ?thesis using Some Link k j(1) by simp
    next
      case Directory
      then have "follow create ents m (l @ [s]) cs \<noteq> Inl TooManyLinks" using "5.prems"(1) Some by simp
      from "5.IH"(1) [OF Some Directory this "5.prems"(2)] show ?thesis using Some Directory by simp
    next
      case File
      then show ?thesis using Some by simp
    qed
  qed simp
qed simp

section \<open>The existing prefix\<close>

lemma at_location_simps [simp]:
  "is_absolute (at_location l)" "at_location l \<noteq> []" "at_location l = at_location r \<longleftrightarrow> l = r"
  by (auto simp: at_location_def is_absolute_def inj_map_eq_map inj_def)

lemma at_location_snoc: "at_location (l @ [s]) = push (Normal s) (at_location l)"
  by (simp add: at_location_def push_def)

lemma pop_at_location: "pop (at_location l) = at_location (butlast l)"
  by (cases l rule: rev_cases) (simp_all add: pop_def parent_of_def at_location_def)

lemma push_names: "fold (\<lambda>s p. push (Normal s) p) ns (at_location l) = at_location (l @ ns)"
  by (induction ns arbitrary: l) (simp_all add: at_location_snoc [symmetric])

lemma canonicalize_at_location:
  "canonicalize fs (at_location l) =
     and_then (follow False (entries fs) (max_links fs) [] (map Normal l)) (\<lambda>q. Inr (at_location q))"
  by (simp add: canonicalize_def) (simp add: at_location_def)

lemma existing_prefix_step:
  "canonicalize_existing_prefix fs (at_location l) suffix =
     (case canonicalize fs (at_location l) of
        Inr canonical \<Rightarrow> Inr (fold (\<lambda>s p. push (Normal s) p) (rev suffix) canonical)
      | Inl IoNotFound \<Rightarrow>
          (if l = [] then Inl IoNotFound
           else canonicalize_existing_prefix fs (at_location (butlast l)) (suffix @ [last l]))
      | Inl e \<Rightarrow> Inl e)"
proof (cases l rule: rev_cases)
  case Nil
  then show ?thesis by (subst canonicalize_existing_prefix.simps) (simp add: at_location_def file_name_def split: sum.splits io_error.splits)
next
  case (snoc d s)
  then show ?thesis
    by (subst canonicalize_existing_prefix.simps)
      (simp add: at_location_def file_name_def parent_of_def split: sum.splits io_error.splits)
qed

lemma existing_prefix:
  assumes "canonicalize_existing_prefix fs (at_location l) suffix = Inr p"
  shows "\<exists>d r c. l = d @ r \<and> canonicalize fs (at_location d) = Inr (at_location c)
           \<and> p = at_location (c @ r @ rev suffix)
           \<and> (r \<noteq> [] \<longrightarrow> canonicalize fs (at_location (d @ [hd r])) = Inl IoNotFound)"
  using assms
proof (induction l arbitrary: suffix rule: rev_induct)
  case Nil
  then obtain c where "canonicalize fs (at_location []) = Inr c" "p = fold (\<lambda>s p. push (Normal s) p) (rev suffix) c"
    by (subst (asm) existing_prefix_step) (auto split: sum.splits io_error.splits)
  then show ?case
    by (intro exI [of _ "[]"]) (auto simp: canonicalize_at_location and_then_Inr_iff push_names)
next
  case (snoc s l)
  show ?case
  proof (cases "canonicalize fs (at_location (l @ [s]))")
    case (Inr c)
    then obtain q where q: "c = at_location q" by (auto simp: canonicalize_at_location and_then_Inr_iff)
    have "p = at_location (q @ rev suffix)"
      using snoc.prems Inr by (subst (asm) existing_prefix_step) (simp add: q push_names)
    then show ?thesis using Inr q by (intro exI [of _ "l @ [s]"] exI [of _ "[]"] exI [of _ q]) simp
  next
    case (Inl e)
    then have e: "e = IoNotFound" and p: "canonicalize_existing_prefix fs (at_location l) (suffix @ [s]) = Inr p"
      using snoc.prems by (subst (asm) existing_prefix_step; simp split: io_error.splits)+
    from snoc.IH [OF p] obtain d r c where "l = d @ r" "canonicalize fs (at_location d) = Inr (at_location c)"
      "p = at_location (c @ r @ rev (suffix @ [s]))" "r \<noteq> [] \<longrightarrow> canonicalize fs (at_location (d @ [hd r])) = Inl IoNotFound"
      by blast
    then show ?thesis using Inl e
      by (intro exI [of _ d] exI [of _ "r @ [s]"] exI [of _ c]) (auto simp: hd_append)
  qed
qed

section \<open>The workspace is not left\<close>

definition workspace_of :: "disk \<Rightarrow> io_error + path" where
  "workspace_of fs = and_then (ok_or OtherError (current_dir fs)) (\<lambda>w. canonicalize fs (at_location w))"

text \<open>A link with nothing behind it.\<close>

definition dangling :: "disk \<Rightarrow> location \<Rightarrow> bool" where
  "dangling fs l \<longleftrightarrow> (case entries fs l of Some (Link t) \<Rightarrow> canonicalize fs (at_location l) = Inl IoNotFound | _ \<Rightarrow> False)"

lemma candidate_at_location:
  "RootDir \<notin> set p \<Longrightarrow> \<exists>l. fold candidate_step p (at_location w) = at_location l"
proof (induction p arbitrary: w)
  case (Cons c p)
  then show ?case by (cases c) (simp_all add: pop_at_location at_location_snoc [symmetric])
qed simp

lemma components_root: "components s = c # cs \<Longrightarrow> RootDir \<notin> set cs"
  by (auto simp: components_def Let_def split: if_splits)

lemma candidate_of_string: "\<exists>l. candidate_path (at_location w) (components s) = at_location l"
proof (cases "components s")
  case Nil
  then show ?thesis by (auto simp: candidate_path_def is_absolute_def)
next
  case (Cons c cs)
  note r = components_root [OF Cons]
  have root: "[RootDir] = at_location []" by (simp add: at_location_def)
  show ?thesis
  proof (cases "c = RootDir")
    case True
    then show ?thesis using candidate_at_location [OF r, of "[]"]
      by (simp add: candidate_path_def Cons is_absolute_def push_def root)
  next
    case False
    then show ?thesis using candidate_at_location [of "c # cs" w] r
      by (simp add: candidate_path_def Cons is_absolute_def split: path_component.splits)
  qed
qed

lemma canonicalize_resolved: "canonicalize fs (at_location d) = Inr (at_location c) \<Longrightarrow> resolved (entries fs) c"
  by (auto simp: canonicalize_at_location and_then_Inr_iff dest: follow_resolved)

lemma opened_at_location: "opened_at create fs (at_location l) = follow create (entries fs) (max_links fs) [] (map Normal l)"
  by (simp add: opened_at_def) (simp add: at_location_def)

text \<open>What the first name below the existing prefix is.\<close>

lemma first_missing:
  assumes "canonicalize fs (at_location d) = Inr (at_location c)"
    and "canonicalize fs (at_location (d @ [s])) = Inl IoNotFound"
  shows "directories (entries fs) c \<and> (entries fs (c @ [s]) = None \<or> dangling fs (c @ [s]))"
proof -
  let ?e = "entries fs" let ?n = "max_links fs"
  have c: "follow False ?e ?n [] (map Normal d) = Inr c"
    using assms(1) by (auto simp: canonicalize_at_location and_then_Inr_iff)
  have m: "follow False ?e ?n [] (map Normal d @ [Normal s]) = Inl IoNotFound"
    using assms(2) by (auto simp: canonicalize_at_location and_then_Inl_iff)
  obtain k where k: "k \<le> ?n" and f: "follow False ?e ?n [] (map Normal d @ [Normal s]) =
      (if c \<noteq> [] \<and> ?e c = Some File then Inl NotADirectory else follow False ?e k c [Normal s])"
    using follow_append [OF c, of "[Normal s]"] by auto
  have nf: "\<not> (c \<noteq> [] \<and> ?e c = Some File)" using f m by auto
  then have dirs: "directories ?e c" using canonicalize_resolved [OF assms(1)] by (auto simp: resolved_def)
  have miss: "follow False ?e k c [Normal s] = Inl IoNotFound" using f m nf by simp
  then have "follow False ?e ?n c [Normal s] = Inl IoNotFound" using follow_more_links [of False ?e k c "[Normal s]" ?n] k by simp
  then have "canonicalize fs (at_location (c @ [s])) = Inl IoNotFound"
    using follow_directories [of ?e "[]" c False ?n "[Normal s]"] dirs by (simp add: canonicalize_at_location)
  then show ?thesis using dirs miss by (auto simp: dangling_def split: option.splits file_entry.splits)
qed

lemma within_workspace:
  "canonicalize_workspace_path fs s = Inr p \<longleftrightarrow>
     (\<exists>w b. current_dir fs = Some b \<and> workspace_of fs = Inr (at_location w)
        \<and> canonicalize_existing_prefix fs (candidate_path (at_location w) (components s)) [] = Inr p
        \<and> take (length (at_location w)) p = at_location w)"
  by (auto simp: canonicalize_workspace_path_def canonicalize_path_within_workspace_def and_then_Inr_iff workspace_of_def
      canonicalize_at_location split: if_splits)

lemma take_at_location: "take (length (at_location w)) (at_location l) = at_location w \<Longrightarrow> \<exists>r. l = w @ r"
proof -
  assume "take (length (at_location w)) (at_location l) = at_location w"
  then have "map Normal (take (length w) l) = map Normal w" by (simp add: at_location_def take_map)
  then have "take (length w) l = w" by (simp add: inj_map_eq_map inj_def)
  then show ?thesis by (metis append_take_drop_id)
qed

text \<open>A dangling link on a path below a resolved location lies strictly below it.\<close>

lemma dangling_below:
  assumes "resolved (entries fs) w" and "c @ s0 # m' = w @ r" and "dangling fs (c @ [s0])"
  shows "\<exists>d t. r = d @ t \<and> d \<noteq> [] \<and> dangling fs (w @ d)"
proof -
  have "\<not> length (c @ [s0]) \<le> length w"
  proof
    assume "length (c @ [s0]) \<le> length w"
    then obtain x where x: "w = (c @ [s0]) @ x"
      using assms(2) by (metis append_assoc append_Cons append_Nil append_eq_append_conv_if append_take_drop_id)
    have "directories (entries fs) (c @ [s0]) \<or> entries fs (c @ [s0]) = Some File"
      using assms(1) x by (cases x rule: rev_cases) (auto simp: resolved_def butlast_append simp flip: append_assoc dest: directories_append)
    then show False using assms(3) by (auto simp: dangling_def)
  qed
  then obtain d' where "c @ [s0] = w @ d'" "d' \<noteq> []"
    using assms(2) by (auto simp: append_eq_append_conv2 Cons_eq_append_conv)
  then show ?thesis using assms(2,3) by (metis append_assoc append_Cons append_Nil same_append_eq)
qed

text \<open>
  C31: A path the workspace check accepts lies below the canonical workspace, and opening it reaches exactly that
  place; the only exception is a path that runs through a link below the workspace with nothing behind it.
\<close>

theorem workspace_path_confined:
  assumes "canonicalize_workspace_path fs s = Inr p" and "opened_at create fs p = Inr q"
  shows "\<exists>w r. workspace_of fs = Inr (at_location w) \<and> p = at_location (w @ r)
           \<and> (q = w @ r \<or> (\<exists>d t. r = d @ t \<and> d \<noteq> [] \<and> dangling fs (w @ d)))"
proof -
  obtain w where w: "workspace_of fs = Inr (at_location w)"
    and e: "canonicalize_existing_prefix fs (candidate_path (at_location w) (components s)) [] = Inr p"
    and t: "take (length (at_location w)) p = at_location w"
    using assms(1) by (auto simp: within_workspace)
  obtain l where l: "candidate_path (at_location w) (components s) = at_location l" using candidate_of_string by blast
  obtain d m c where c: "canonicalize fs (at_location d) = Inr (at_location c)" and p: "p = at_location (c @ m)"
    and miss: "m \<noteq> [] \<longrightarrow> canonicalize fs (at_location (d @ [hd m])) = Inl IoNotFound"
    using existing_prefix [OF e [unfolded l]] by auto
  obtain r where r: "c @ m = w @ r" using take_at_location t p by blast
  have wres: "resolved (entries fs) w"
    using w by (auto simp: workspace_of_def and_then_Inr_iff intro: canonicalize_resolved)
  have "q = c @ m \<or> (\<exists>d t. r = d @ t \<and> d \<noteq> [] \<and> dangling fs (w @ d))"
  proof (cases m)
    case Nil
    then show ?thesis using assms(2) follow_at_resolved [OF canonicalize_resolved [OF c]] by (simp add: p opened_at_location)
  next
    case (Cons s0 m')
    then have f: "directories (entries fs) c" "entries fs (c @ [s0]) = None \<or> dangling fs (c @ [s0])"
      using first_missing [OF c] miss by auto
    show ?thesis
    proof (cases "dangling fs (c @ [s0])")
      case False
      then have "follow create (entries fs) (max_links fs) c (Normal s0 # map Normal m') = Inr q"
        using assms(2) follow_directories [of "entries fs" "[]" c create "max_links fs" "map Normal m"] f(1)
        by (simp add: p opened_at_location Cons)
      then show ?thesis using f(2) False Cons by (auto split: if_splits)
    next
      case True
      then show ?thesis using dangling_below [OF wres r [unfolded Cons]] by blast
    qed
  qed
  then show ?thesis using w p r by auto
qed

definition sample_files :: disk where
  "sample_files = \<lparr>entries = map_of [([''ws''], Directory), ([''ws'', ''src''], Directory), ([''ws'', ''src'', ''a.rs''], File),
       ([''ws'', ''code''], Link [Normal ''src'']), ([''out''], Directory),
       ([''ws'', ''leak''], Link [ParentDir, Normal ''out'']), ([''ws'', ''trap''], Link [RootDir, Normal ''out'', Normal ''new''])],
     current_dir = Some [''ws''], max_links = 40\<rparr>"

lemmas path_eval = sample_files_def canonicalize_workspace_path_def canonicalize_path_within_workspace_def components_def
  Let_def candidate_path_def is_absolute_def canonicalize_def at_location_def canonicalize_existing_prefix.simps push_def
  pop_def parent_of_def file_name_def start_of_def opened_at_def workspace_of_def dangling_def

theorem workspace_path_confined_witness:
  "\<exists>w r. workspace_of sample_files = Inr (at_location w) \<and> at_location [''ws'', ''src'', ''new.rs''] = at_location (w @ r)
     \<and> ([''ws'', ''src'', ''new.rs''] = w @ r \<or> (\<exists>d t. r = d @ t \<and> d \<noteq> [] \<and> dangling sample_files (w @ d)))"
proof -
  have "canonicalize_workspace_path sample_files ''code/../code/new.rs'' = Inr (at_location [''ws'', ''src'', ''new.rs''])"
    by (simp add: path_eval eval_nat_numeral)
  moreover have "opened_at True sample_files (at_location [''ws'', ''src'', ''new.rs'']) = Inr [''ws'', ''src'', ''new.rs'']"
    by (simp add: path_eval)
  ultimately show ?thesis by (rule workspace_path_confined)
qed

text \<open>A link out of the workspace is rejected when its target exists, a climbing path always.\<close>

lemma escapes_are_rejected:
  "canonicalize_workspace_path sample_files ''leak/x'' = Inl OutsideWorkspace"
  "canonicalize_workspace_path sample_files ''src/../../out'' = Inl OutsideWorkspace"
  "canonicalize_workspace_path sample_files ''/out/x'' = Inl OutsideWorkspace"
  by (simp_all add: path_eval eval_nat_numeral)

text \<open>A link whose target does not exist yet is accepted, and writing to it creates the target outside.\<close>

lemma dangling_link_leaves_workspace:
  "canonicalize_workspace_path sample_files ''trap'' = Inr (at_location [''ws'', ''trap''])"
  "opened_at True sample_files (at_location [''ws'', ''trap'']) = Inr [''out'', ''new'']"
  by (simp_all add: path_eval eval_nat_numeral)

section \<open>Existing paths\<close>

text \<open>
  An existing path that does not climb is decided as the system resolves it: accepted as its canonical form when that
  lies in the workspace, and rejected otherwise.
\<close>

definition names :: "path \<Rightarrow> location" where
  "names p = concat (map (\<lambda>c. case c of Normal s \<Rightarrow> [s] | _ \<Rightarrow> []) p)"

lemma candidate_names:
  "RootDir \<notin> set p \<Longrightarrow> ParentDir \<notin> set p \<Longrightarrow> fold candidate_step p (at_location w) = at_location (w @ names p)"
proof (induction p arbitrary: w)
  case (Cons c p)
  then show ?case by (cases c) (simp_all add: names_def at_location_snoc [symmetric])
qed (simp add: names_def)

lemma only_names: "RootDir \<notin> set p \<Longrightarrow> ParentDir \<notin> set p \<Longrightarrow> CurDir \<notin> set p \<Longrightarrow> p = map Normal (names p)"
proof (induction p)
  case (Cons c p)
  then show ?case by (cases c) (simp_all add: names_def)
qed (simp add: names_def)

lemma components_tail: "components s = c # cs \<Longrightarrow> CurDir \<notin> set cs"
  by (auto simp: components_def Let_def split: if_splits)

text \<open>A glob pattern that passes the guard stays below the root it is joined to.\<close>

lemma accepted_glob_stays_below:
  "\<not> reject_escaping_glob_pattern s \<Longrightarrow> \<exists>r. fold candidate_step (components s) (at_location w) = at_location (w @ r)"
proof (cases "components s")
  case Nil
  then show ?thesis by (auto intro: exI [of _ "[]"])
next
  case (Cons c cs)
  assume "\<not> reject_escaping_glob_pattern s"
  then have "RootDir \<notin> set (components s)" "ParentDir \<notin> set (components s)"
    using components_root [OF Cons] Cons
    by (auto simp: reject_escaping_glob_pattern_def is_absolute_def list_ex_iff split: path_component.splits)
  then show ?thesis using candidate_names by blast
qed

theorem existing_path_decided:
  assumes "workspace_of fs = Inr (at_location w)" and "ParentDir \<notin> set (components s)"
    and "opened_at False fs (if is_absolute (components s) then components s else at_location w @ components s) = Inr q"
  shows "canonicalize_workspace_path fs s = (if take (length w) q = w then Inr (at_location q) else Inl OutsideWorkspace)"
proof -
  let ?p = "components s"
  let ?l = "(if is_absolute ?p then [] else w) @ names ?p"
  obtain b where b: "current_dir fs = Some b" "canonicalize fs (at_location b) = Inr (at_location w)"
    using assms(1) by (auto simp: workspace_of_def and_then_Inr_iff)
  have wres: "resolved (entries fs) w" using canonicalize_resolved [OF b(2)] .
  have l: "candidate_path (at_location w) ?p = at_location ?l \<and> follow False (entries fs) (max_links fs) [] (map Normal ?l) = Inr q"
  proof (cases ?p)
    case Nil
    then show ?thesis using assms(3) by (simp add: candidate_path_def is_absolute_def names_def opened_at_location)
  next
    case (Cons c cs)
    have cs: "RootDir \<notin> set cs" "CurDir \<notin> set cs" "ParentDir \<notin> set cs"
      using components_root [OF Cons] components_tail [OF Cons] assms(2) Cons by auto
    note n = only_names [OF cs(1,3,2)]
    have root: "[RootDir] = at_location []" by (simp add: at_location_def)
    show ?thesis
    proof (cases c)
      case RootDir
      then show ?thesis using assms(3) candidate_names [OF cs(1,3), of "[]"] n
        by (simp add: Cons candidate_path_def is_absolute_def push_def root names_def opened_at_def)
    next
      case CurDir
      have "follow False (entries fs) (max_links fs) [] (map Normal w @ CurDir # cs) = Inr q"
        using assms(3) by (simp add: Cons CurDir is_absolute_def opened_at_def) (simp add: at_location_def)
      moreover have "follow False (entries fs) (max_links fs) [] (map Normal w @ CurDir # cs) =
          (if w \<noteq> [] \<and> entries fs w = Some File then Inl NotADirectory
           else follow False (entries fs) (max_links fs) w cs)"
        using follow_append [OF follow_at_resolved [OF wres], of "CurDir # cs"]
          follow_directories [of "entries fs" "[]" w False "max_links fs" "CurDir # cs"] wres
        by (auto simp: resolved_def)
      ultimately have nf: "\<not> (w \<noteq> [] \<and> entries fs w = Some File)" "follow False (entries fs) (max_links fs) w cs = Inr q"
        by (auto split: if_splits)
      then have "directories (entries fs) w" using wres by (auto simp: resolved_def)
      then have "follow False (entries fs) (max_links fs) [] (map Normal w @ map Normal (names cs)) = Inr q"
        using nf(2) n follow_directories [of "entries fs" "[]" w False "max_links fs" cs] by simp
      then show ?thesis using candidate_names [OF cs(1,3), of w]
        by (simp add: Cons CurDir candidate_path_def is_absolute_def names_def)
    next
      case ParentDir
      then show ?thesis using assms(2) Cons by simp
    next
      case (Normal x)
      then show ?thesis using assms(3) candidate_names [of "c # cs" w] cs only_names [of "c # cs"]
        by (simp add: Cons candidate_path_def is_absolute_def opened_at_def) (simp add: at_location_def)
    qed
  qed
  have "canonicalize_existing_prefix fs (at_location ?l) [] = Inr (at_location q)"
    using l by (subst existing_prefix_step) (simp add: canonicalize_at_location)
  moreover have "take (length (at_location w)) (at_location q) = at_location w \<longleftrightarrow> take (length w) q = w"
    by (simp add: at_location_def take_map inj_map_eq_map inj_def)
  ultimately show ?thesis
    using b l by (simp add: canonicalize_workspace_path_def canonicalize_path_within_workspace_def)
qed

end
