(* ===== verification/Spec2Isabelle.thy ===== *)
theory Spec2Isabelle
  imports Store_Properties Json Route_Properties Execution_Properties Guard_Properties Api_Samples
    Stream_Properties Incremental_Json Tool_Properties Registry_Properties Permission_Properties Workspace_Properties
begin

text \<open>
  Wild AgentOS, a Rust server for autonomous agents, accepts long-running work through its invocation
  API. This development models that API from the request to the recorded outcome, with the guards it
  relies on, and proves what its clients and operators depend on.

  \<^bold>\<open>Parts and theories.\<close> Each theory opens with what it holds; paths are under \<open>src/src\<close>.

    \<^item> \<open>Prelude\<close>: strings as byte lists (\<open>trim\<close>, prefixes, numerals), 64-bit words with saturation,
      sums with \<open>and_then\<close> for \<open>?\<close>, \<open>position\<close>, and the fact collections \<open>invs\<close> and \<open>frame\<close>.
    \<^item> \<open>Isolation\<close> (\<open>isolation/mod.rs\<close>): identifier checks, verified claims, and the names a scope mints
      for graphs, vectors, objects and directories; the interface \<open>scope_naming\<close>.
    \<^item> \<open>Lifecycle\<close>, \<open>Bounded_Log\<close>, \<open>Invocation_Record\<close> (\<open>api/http/invocations_store.rs\<close>): the
      configuration, the seven lifecycle states and their edges, usage and its validation, redaction,
      the record with its audit trail, bindings and entity tags; the interface \<open>bounded_log\<close>.
    \<^item> \<open>Invocation_Store\<close> (same file): the store as its records, the file below it and the reserved
      keys; create, transition, sweep, reservation, recovery, reads and listings, one definition each.
      The file is the list of records that was last written, and a write may fail. \<open>Store_Invariants\<close> and
      \<open>Store_System\<close> show that every operation keeps the invariant, and histories as \<open>run_ops\<close> and the
      inductive set of reachable stores. \<open>Idempotency\<close> follows one binding through a history, and
      \<open>Repository\<close> states what a scope can observe as the interface \<open>scoped_repository\<close> and shows that
      the store implements it. \<open>Store_Properties\<close> holds the claims.
    \<^item> \<open>Running_Slots\<close> (\<open>api/http/invocations_enforcement.rs\<close>): the three caps, the ledger of slots, the
      scheduler, budgets and deadlines; the interface \<open>slot_ledger\<close>.
    \<^item> \<open>Input_Ref\<close> (\<open>api/http/invocations_input_ref.rs\<close>, \<open>artifacts.rs\<close>): reference URIs, the registry of
      resolvers, fetching and verification, the artifact resolver.
    \<^item> \<open>Json\<close>, \<open>Invocation_Routes\<close> (\<open>api/http/invocations.rs\<close>): canonical JSON and fingerprints,
      request validation, and the create, get, list, cancel and event handlers. Each handler is a
      function of the application state that returns its response and the next state.
      \<open>Route_Properties\<close> holds the claims.
    \<^item> \<open>Execution_Bridge\<close> (\<open>api/http/invocations_execution.rs\<close>): the task a dispatch spawns. Waiting for a
      slot is a loop over wake-ups, a run goes from its input over the task and the gate to the
      execution and its recorded outcome. \<open>Execution_Properties\<close> and \<open>Guard_Properties\<close> hold the claims.
    \<^item> \<open>Identity\<close> (\<open>api/http/iam.rs\<close>): the authentication profile, token verification with its cache of
      key sets, the identity of a request, the role gates.
    \<^item> \<open>Api_Keys\<close>, \<open>Api_Admin\<close> (\<open>api/http/api_gov.rs\<close>, \<open>api_clients.rs\<close>, the public gate in \<open>chat.rs\<close>):
      clients and keys of published agents, their management handlers, token resolution, limits, the audit
      log and the gate of a public call. \<open>Api_Limits\<close> relates the counters to a log of admitted calls,
      \<open>Key_Lifecycle\<close> has histories of the key center, \<open>Api_Properties\<close> the claims on single requests and
      \<open>Api_Samples\<close> the concrete requests they are applied to.
    \<^item> \<open>Rust_Text\<close>, \<open>Llm_Stream\<close>, \<open>Stream_Response\<close>, \<open>Incremental_Json\<close> (\<open>llm/sse.rs\<close>, \<open>stream_types.rs\<close>,
      \<open>stream_processor.rs\<close>, \<open>gateway/usage_meter.rs\<close>): UTF-8 and lines; the frames of a model stream and the
      events of its two wire formats; the accumulator, the processor, the message stream that reports to the
      meter of its run. \<open>Stream_Framing\<close> refines the chunked parser to a reading of the whole stream,
      \<open>Stream_Properties\<close> holds the claims.

    \<^item> \<open>Tool_Policy\<close>, \<open>Permissions\<close>, \<open>Hooks\<close>, \<open>Security_Engine\<close>, \<open>Micro_Store\<close>, \<open>Tool_Gate\<close>
      (\<open>tools/tool_groups.rs\<close>, \<open>core/tool_policy.rs\<close>, \<open>tools/builtin/permissions.rs\<close>, \<open>hooks.rs\<close>,
      \<open>skill_graph/security.rs\<close>, \<open>tools/tool_executor/micro_store.rs\<close>, \<open>core/syscall_gate.rs\<close>): what decides over a
      tool call of an agent: role capabilities and activation, the operator's permission rules and hooks, the
      engine that checks the skill of a tool, the stored results that only their owner reads, the syscall gate.
      \<open>Policy_Properties\<close> (with the interface \<open>restriction\<close>), \<open>Permission_Properties\<close> and \<open>Micro_Properties\<close>
      hold the claims on single parts.
    \<^item> \<open>Tool_Executor\<close>, \<open>Tool_Execution\<close> (\<open>tools/tool_executor/mod.rs\<close>): the registry, what a turn
      advertises, search and activation, and \<open>execute_guarded\<close>, which composes all gates around the handler and
      returns the result with the executor and the world after it. \<open>Tool_Properties\<close> and
      \<open>Registry_Properties\<close> hold the claims on the composition and on histories.
    \<^item> \<open>Workspace_Path\<close>, \<open>Workspace_Properties\<close> (\<open>tools/workspace_path.rs\<close>, the glob guard of
      \<open>tool_executor/builtins.rs\<close>): the paths the file tools accept, over a file system with symbolic links. The
      longest existing prefix of a path is resolved and must lie in the workspace. An accepted path opens where
      it says, unless it runs through a link with nothing behind it.

  \<^bold>\<open>How the code is read.\<close> A struct is a record, an enum a datatype, a \<open>u64\<close> a 64-bit word, a
  \<open>Result\<close> a sum with the error on the left, text a list of bytes in UTF-8, an instant an integer of
  nanoseconds. Code that holds the store's lock is one step. Where the code releases the lock and
  reads again (the cancel route, the failure writers, the admission loop, a run) the model takes what
  other tasks do in between as an argument, and the claims quantify over it, usually as any list of
  transition requests. The clock, new identifiers, whether a write fails, and which branch of a race
  wins are arguments too. RFC 3339 reading and writing, SHA-256, base64, the JSON reader and printer,
  the SPARQL queries, the blob store, the task initialiser, the gate and the executor are parameters;
  the only law assumed of one is that reading a written instant gives it back cut to microseconds.

  \<^bold>\<open>What is shown.\<close> The store: a well-formedness invariant of every reachable store, exact
  idempotency of creates, histories of single records, recovery after a restart, noninterference of
  scopes, atomic failure, optimistic concurrency. The routes: the effect of every create request, its
  replay, validation, fingerprints, paging, entity tags, authorised cancels, event streams. Input
  references: an exact characterisation of safe ones, longest-prefix routing, verified content. The
  bridge: runs end, successes are proven, slots are granted in order and given back, deadlines are
  enforced, a run keeps to its record. The guards: disjoint names, caps, exact budgets. Callers and keys:
  claims come only from verified tokens, public calls are authorised, issued keys work, revoked ones stay
  dead over every history that follows a written revocation, tenants cannot disturb each other's tokens or
  see each other's audit records, and limits hold over every history. Streams: chunking does not matter, the
  response holds exactly what was sent, and every call is metered once. Tools: a handler runs exactly when all gates
  agree and a refusal cannot be forged or hidden; what is advertised is admitted; restrictions only narrow;
  permission rules decide as written and can write every subject; stored results reach only their owner; file
  tools stay in the workspace; the registry stays consistent and listed skills were granted.

  \<^bold>\<open>Bounds.\<close> All definitions are total. Loops that wait for other tasks are functions of the list of
  events they see (\<open>admit_and_run\<close>, \<open>sse_run\<close>), and \<open>None\<close> is the loop that still waits when the list
  ends. \<open>follow_pages\<close> has fuel; one more than the number of listed records is enough. Event numbers
  are below the 64-bit limit by a bound on the length of the stream. The eviction loops of stored results end because
  each round removes an entry. Following a path ends because the number of links is bounded, as in the system.

  \<^bold>\<open>Not modelled.\<close> The knowledge-graph, MCP, skill and market routes, the rest of the chat routes, the memory layers, the
  clients of model providers, the built-in tools and the agent runner: they are mostly network and database I/O around
  third-party components. Of the modelled files, logging, serde attributes and test-only accessors are left out,
  and so are the texts of SPARQL queries.
\<close>

end
